(* ===== verification/Prelude.thy ===== *)
theory Prelude
  imports
    Complex_Main
    "HOL-Library.Multiset"
    "HOL-Library.Char_ord"
    "HOL-Library.List_Lexorder"
    "HOL-Library.Product_Lexorder"
    "HOL-Library.Word"
begin

text \<open>
  The common ground of the development: the exceptions the Python code raises, the
  store-passing form every database method is written in, the SQL-shaped operations on
  tables held as row lists, and the decimal and hexadecimal text of numbers.
\<close>

section \<open>Exceptions and store passing\<close>

text \<open>
  The exception classes that the code raises or catches by class. \<open>HTTPException\<close> is what
  \<open>api_error\<close> builds: status, stable code, message and the optional round.
\<close>

datatype exn =
    ValueError string
  | RuntimeError string
  | TypeError
  | KeyError
  | IndexError
  | StopIteration
  | OverflowError
  | IntegrityError
  | OperationalError string
  | OSError string
  | HTTPException nat string string "string option"

text \<open>
  A piece of code running against a store: it ends with an exception or a value and
  leaves the store it has reached, also when it raises. Rolling a store back is done by
  \<open>transaction\<close> of the database model, never by this type.
\<close>

type_synonym ('s, 'a) tx = "'s \<Rightarrow> (exn + 'a) \<times> 's"

text \<open>One SQL statement: it either fails and has no effect, or gives the new store.\<close>

type_synonym 's stmt = "'s \<Rightarrow> exn + 's"

definition ret :: "'a \<Rightarrow> ('s, 'a) tx" where
  "ret x = (\<lambda>s. (Inr x, s))"

definition throw :: "exn \<Rightarrow> ('s, 'a) tx" where
  "throw e = (\<lambda>s. (Inl e, s))"

definition read :: "('s \<Rightarrow> 'b) \<Rightarrow> ('b \<Rightarrow> ('s, 'a) tx) \<Rightarrow> ('s, 'a) tx" where
  "read q k = (\<lambda>s. k (q s) s)"

definition exec :: "'s stmt \<Rightarrow> ('s, 'a) tx \<Rightarrow> ('s, 'a) tx" where
  "exec st k = (\<lambda>s. case st s of Inl e \<Rightarrow> (Inl e, s) | Inr s' \<Rightarrow> k s')"

definition call :: "('s, 'b) tx \<Rightarrow> ('b \<Rightarrow> ('s, 'a) tx) \<Rightarrow> ('s, 'a) tx" where
  "call m k = (\<lambda>s. case m s of (Inl e, s') \<Rightarrow> (Inl e, s') | (Inr x, s') \<Rightarrow> k x s')"

text \<open>An update that cannot fail, as a statement.\<close>

definition always :: "('s \<Rightarrow> 's) \<Rightarrow> 's stmt" where
  "always f = (\<lambda>s. Inr (f s))"

named_theorems tx_simps \<open>evaluation of the store-passing combinators\<close>

lemma ret_apply [tx_simps, simp]: "ret x s = (Inr x, s)"
  by (simp add: ret_def)

lemma throw_apply [tx_simps, simp]: "throw e s = (Inl e, s)"
  by (simp add: throw_def)

lemma read_apply [tx_simps, simp]: "read q k s = k (q s) s"
  by (simp add: read_def)

lemma exec_apply: "exec st k s = (case st s of Inl e \<Rightarrow> (Inl e, s) | Inr s' \<Rightarrow> k s')"
  by (simp add: exec_def)

lemma exec_always [tx_simps, simp]: "exec (always f) k s = k (f s)"
  by (simp add: exec_def always_def)

lemma call_apply:
  "call m k s = (case m s of (Inl e, s') \<Rightarrow> (Inl e, s') | (Inr x, s') \<Rightarrow> k x s')"
  by (simp add: call_def)

lemma exec_Inr [tx_simps]: "exec st k s = (Inr x, t) \<longleftrightarrow> (\<exists>s'. st s = Inr s' \<and> k s' = (Inr x, t))"
  by (auto simp: exec_def split: sum.splits)

lemma call_Inr [tx_simps]:
  "call m k s = (Inr x, t) \<longleftrightarrow> (\<exists>y s'. m s = (Inr y, s') \<and> k y s' = (Inr x, t))"
  by (auto simp: call_def split: sum.splits prod.splits)

text \<open>Pure code that may raise: run \<open>k\<close> on the value of \<open>m\<close> unless \<open>m\<close> raised.\<close>

definition attempt :: "exn + 'a \<Rightarrow> ('a \<Rightarrow> exn + 'b) \<Rightarrow> exn + 'b" where
  "attempt m k = (case m of Inl e \<Rightarrow> Inl e | Inr x \<Rightarrow> k x)"

lemma attempt_simps [tx_simps, simp]: "attempt (Inl e) k = Inl e" "attempt (Inr x) k = k x"
  by (simp_all add: attempt_def)

lemma attempt_Inr [tx_simps]: "attempt m k = Inr y \<longleftrightarrow> (\<exists>x. m = Inr x \<and> k x = Inr y)"
  by (cases m) auto

section \<open>Tables as row lists\<close>

text \<open>
  A table is the list of its rows in rowid order. \<open>fetchone\<close> is the first row of a
  \<open>SELECT\<close>, \<open>update_where\<close> an \<open>UPDATE\<close> (with \<open>count_where\<close> as its rowcount) and
  \<open>delete_where\<close> a \<open>DELETE\<close>.
\<close>

abbreviation fetchone :: "('r \<Rightarrow> bool) \<Rightarrow> 'r list \<Rightarrow> 'r option" where
  "fetchone \<equiv> List.find"

definition count_where :: "('r \<Rightarrow> bool) \<Rightarrow> 'r list \<Rightarrow> nat" where
  "count_where P rows = length (filter P rows)"

definition update_where :: "('r \<Rightarrow> bool) \<Rightarrow> ('r \<Rightarrow> 'r) \<Rightarrow> 'r list \<Rightarrow> 'r list" where
  "update_where P f rows = map (\<lambda>r. if P r then f r else r) rows"

definition delete_where :: "('r \<Rightarrow> bool) \<Rightarrow> 'r list \<Rightarrow> 'r list" where
  "delete_where P rows = filter (\<lambda>r. \<not> P r) rows"

lemma find_append: "List.find P (xs @ ys) = (case List.find P xs of None \<Rightarrow> List.find P ys | Some x \<Rightarrow> Some x)"
  by (induction xs) auto

lemma find_SomeD: "List.find P xs = Some x \<Longrightarrow> P x \<and> x \<in> set xs"
  by (induction xs) (auto split: if_splits)

lemma find_SomeD1: "List.find P xs = Some x \<Longrightarrow> P x"
  by (drule find_SomeD) simp

lemma find_Some_mem: "List.find P xs = Some x \<Longrightarrow> x \<in> set xs"
  by (drule find_SomeD) simp

lemma find_NoneD: "List.find P xs = None \<Longrightarrow> x \<in> set xs \<Longrightarrow> \<not> P x"
  by (auto simp: find_None_iff)

lemma find_cong_set: "(\<And>x. x \<in> set xs \<Longrightarrow> P x = Q x) \<Longrightarrow> List.find P xs = List.find Q xs"
  by (induction xs) auto

lemma find_update_where:
  "(\<And>x. P (f x) = P x) \<Longrightarrow>
   List.find P (update_where Q f xs) = map_option (\<lambda>x. if Q x then f x else x) (List.find P xs)"
  by (induction xs) (auto simp: update_where_def)

lemma map_update_where:
  "(\<And>x. g (f x) = g x) \<Longrightarrow> map g (update_where P f xs) = map g xs"
  by (auto simp: update_where_def)

lemma set_update_where: "set (update_where P f xs) = (\<lambda>r. if P r then f r else r) ` set xs"
  by (simp add: update_where_def)

lemma length_update_where [simp]: "length (update_where P f xs) = length xs"
  by (simp add: update_where_def)

lemma update_where_append [simp]:
  "update_where P f (xs @ ys) = update_where P f xs @ update_where P f ys"
  by (simp add: update_where_def)

lemma update_where_Nil [simp]: "update_where P f [] = []"
  by (simp add: update_where_def)

lemma update_where_Cons [simp]:
  "update_where P f (x # xs) = (if P x then f x else x) # update_where P f xs"
  by (simp add: update_where_def)

lemma update_where_none: "(\<And>x. x \<in> set xs \<Longrightarrow> \<not> P x) \<Longrightarrow> update_where P f xs = xs"
  by (induction xs) auto

lemma filter_update_where:
  "(\<And>x. Q (f x) = Q x) \<Longrightarrow> filter Q (update_where P f xs) = update_where P f (filter Q xs)"
  by (induction xs) auto

lemma filter_update_where_disjoint:
  "(\<And>x. P x \<Longrightarrow> \<not> Q x \<and> \<not> Q (f x)) \<Longrightarrow> filter Q (update_where P f xs) = filter Q xs"
  by (induction xs) auto

lemma count_where_0 [simp]: "count_where P xs = 0 \<longleftrightarrow> (\<forall>x\<in>set xs. \<not> P x)"
  by (auto simp: count_where_def filter_empty_conv)

lemma count_where_append [simp]: "count_where P (xs @ ys) = count_where P xs + count_where P ys"
  by (simp add: count_where_def)

lemma count_where_Cons [simp]: "count_where P (x # xs) = (if P x then 1 else 0) + count_where P xs"
  by (simp add: count_where_def)

lemma count_where_Nil [simp]: "count_where P [] = 0"
  by (simp add: count_where_def)

lemma count_where_filter: "count_where (\<lambda>x. P x \<and> Q x) xs = count_where Q (filter P xs)"
  by (simp add: count_where_def conj_commute)

lemma count_where_all: "count_where (\<lambda>x. P x \<and> Q x) xs = count_where P xs \<longleftrightarrow> (\<forall>x\<in>set xs. P x \<longrightarrow> Q x)"
proof -
  have le: "count_where (\<lambda>x. P x \<and> Q x) ys \<le> count_where P ys" for ys
    by (induction ys) auto
  show ?thesis
  proof (induction xs)
    case (Cons x xs)
    then show ?case using le [of xs] by auto
  qed simp
qed

lemma distinct_key_find:
  "distinct (map key xs) \<Longrightarrow> x \<in> set xs \<Longrightarrow> List.find (\<lambda>y. key y = key x) xs = Some x"
  by (induction xs) (auto simp: rev_image_eqI)

lemma distinct_key_unique:
  "distinct (map key xs) \<Longrightarrow> x \<in> set xs \<Longrightarrow> y \<in> set xs \<Longrightarrow> key x = key y \<Longrightarrow> x = y"
  by (meson distinct_map inj_onD)

end
