(* ===== verification/Json.thy ===== *)
theory Json
  imports Prelude
begin

text \<open>
  The text the server hashes and signs: \<open>canonical_json\<close> of \<open>app/persistence/database.py\<close>
  and \<open>app/domain/topology.py\<close> (\<open>json.dumps\<close> with sorted keys, no spaces and
  \<open>ensure_ascii=False\<close>), decimal and hexadecimal rendering and the byte encodings of
  \<open>int.to_bytes\<close> and \<open>int.from_bytes\<close>. A \<open>string\<close> holds the bytes of the UTF-8 encoding,
  so \<open>str.encode()\<close> reads them off. The lemmas show that the canonical text determines the value.
\<close>

section \<open>Bytes\<close>

type_synonym bytes = "8 word list"

definition encode :: "string \<Rightarrow> bytes" where
  "encode s = map (\<lambda>c. of_nat (of_char c)) s"

definition int_from_bytes_big :: "bytes \<Rightarrow> int" where
  "int_from_bytes_big bs = foldl (\<lambda>acc b. 256 * acc + uint b) 0 bs"

definition int_to_bytes_big :: "nat \<Rightarrow> int \<Rightarrow> exn + bytes" where
  "int_to_bytes_big len n =
     (if 0 \<le> n \<and> n < 256 ^ len then Inr (map (\<lambda>i. of_int (n div 256 ^ (len - 1 - i))) [0..<len])
      else Inl OverflowError)"

definition hex_digit :: "nat \<Rightarrow> char" where
  "hex_digit d = ''0123456789abcdef'' ! d"

definition hex :: "bytes \<Rightarrow> string" where
  "hex bs = concat (map (\<lambda>b. [hex_digit (unat b div 16), hex_digit (unat b mod 16)]) bs)"

lemma unat_of_char [simp]: "unat (of_nat (of_char c) :: 8 word) = of_char c"
  using nat_of_char_less_256 [of c] by (simp add: unat_of_nat)

lemma encode_inj: "encode s = encode t \<longleftrightarrow> s = t"
proof -
  have "inj (\<lambda>c. of_nat (of_char c) :: 8 word)"
    by (rule injI) (metis unat_of_char char_of_char)
  then show ?thesis by (simp add: encode_def inj_map_eq_map)
qed

lemma length_encode [simp]: "length (encode s) = length s"
  by (simp add: encode_def)

lemma encode_append: "encode (s @ t) = encode s @ encode t"
  by (simp add: encode_def)

lemma to_bytes_overflow:
  "int_to_bytes_big len n = Inl e \<longleftrightarrow> e = OverflowError \<and> \<not> (0 \<le> n \<and> n < 256 ^ len)"
  by (auto simp: int_to_bytes_big_def)

lemma to_bytes_bound:
  "int_to_bytes_big len n = Inr bs \<Longrightarrow> 0 \<le> n \<and> n < 256 ^ len \<and> length bs = len"
  by (auto simp: int_to_bytes_big_def split: if_splits)

lemma from_bytes_bound: "0 \<le> int_from_bytes_big bs \<and> int_from_bytes_big bs < 256 ^ length bs"
proof (induction bs rule: rev_induct)
  case (snoc b bs)
  have "uint b < 256" using unsigned_less [of b, where ?'a = int] by simp
  moreover have "0 \<le> uint b" by simp
  ultimately show ?case using snoc by (simp add: int_from_bytes_big_def)
qed (simp add: int_from_bytes_big_def)

text \<open>Writing a number out and reading it back.\<close>

lemma to_bytes_Suc:
  assumes "0 \<le> n" "n < 256 ^ Suc len"
  shows "int_to_bytes_big (Suc len) n =
    attempt (int_to_bytes_big len (n div 256)) (\<lambda>bs. Inr (bs @ [of_int n]))"
proof -
  have bound: "n div 256 < 256 ^ len" using assms by (simp add: div_less_iff_less_mult mult.commute)
  have "map (\<lambda>i. of_int (n div 256 ^ (Suc len - 1 - i)) :: 8 word) [0..<len]
      = map (\<lambda>i. of_int (n div 256 div 256 ^ (len - 1 - i))) [0..<len]"
  proof (rule map_cong [OF refl])
    fix i assume "i \<in> set [0..<len]"
    then have "Suc len - 1 - i = Suc (len - 1 - i)" by auto
    then show "of_int (n div 256 ^ (Suc len - 1 - i)) = (of_int (n div 256 div 256 ^ (len - 1 - i)) :: 8 word)"
      using assms by (simp add: zdiv_zmult2_eq)
  qed
  with assms bound show ?thesis by (simp add: int_to_bytes_big_def pos_imp_zdiv_nonneg_iff)
qed

lemma from_to_bytes: "int_to_bytes_big len n = Inr bs \<Longrightarrow> int_from_bytes_big bs = n"
proof (induction len arbitrary: n bs)
  case 0
  then show ?case by (auto simp: int_to_bytes_big_def int_from_bytes_big_def split: if_splits)
next
  case (Suc len)
  then have n: "0 \<le> n" "n < 256 ^ Suc len" by (auto dest: to_bytes_bound)
  with Suc.prems obtain cs where cs: "int_to_bytes_big len (n div 256) = Inr cs" "bs = cs @ [of_int n]"
    by (auto simp only: to_bytes_Suc attempt_Inr)
  have "uint (of_int n :: 8 word) = n mod 256"
    by (simp add: uint_word_of_int_eq take_bit_eq_mod)
  moreover have "int_from_bytes_big bs = 256 * int_from_bytes_big cs + uint (of_int n :: 8 word)"
    by (simp add: int_from_bytes_big_def cs(2))
  ultimately show ?case using Suc.IH [OF cs(1)] by simp
qed

section \<open>Decimal text\<close>

definition dec_digit :: "nat \<Rightarrow> char" where
  "dec_digit d = ''0123456789'' ! d"

fun str_nat :: "nat \<Rightarrow> string" where
  "str_nat n = (if n < 10 then [dec_digit n] else str_nat (n div 10) @ [dec_digit (n mod 10)])"

declare str_nat.simps [simp del]

definition str_int :: "int \<Rightarrow> string" where
  "str_int i = (if i < 0 then CHR ''-'' # str_nat (nat (- i)) else str_nat (nat i))"

definition is_digit :: "char \<Rightarrow> bool" where
  "is_digit c \<longleftrightarrow> c \<in> set ''0123456789''"

lemma dec_digit_cases: "(d::nat) < 10 \<Longrightarrow> d \<in> {0, 1, 2, 3, 4, 5, 6, 7, 8, 9}"
  by auto

lemma dec_digit_is_digit: "d < 10 \<Longrightarrow> is_digit (dec_digit d)"
  by (drule dec_digit_cases) (auto simp: dec_digit_def is_digit_def)

lemma dec_digit_inj: "d < 10 \<Longrightarrow> e < 10 \<Longrightarrow> dec_digit d = dec_digit e \<Longrightarrow> d = e"
  by (drule dec_digit_cases, drule dec_digit_cases) (auto simp: dec_digit_def)

lemma str_nat_digits: "\<forall>c\<in>set (str_nat n). is_digit c"
proof (induction n rule: str_nat.induct)
  case (1 n)
  then show ?case by (subst str_nat.simps) (auto simp: dec_digit_is_digit)
qed

lemma str_nat_nonempty: "str_nat n \<noteq> []"
  by (subst str_nat.simps) simp

lemma str_nat_inj: "str_nat m = str_nat n \<Longrightarrow> m = n"
proof (induction m arbitrary: n rule: str_nat.induct)
  case (1 m)
  have len: "10 \<le> k \<Longrightarrow> 2 \<le> length (str_nat k)" for k
    using str_nat_nonempty [of "k div 10"] by (subst str_nat.simps) (cases "str_nat (k div 10)"; simp)
  have small: "k < 10 \<Longrightarrow> length (str_nat k) = 1" for k
    by (subst str_nat.simps) simp
  show ?case
  proof (cases "m < 10")
    case True
    with "1.prems" have "n < 10" using len [of n] small [of m] by fastforce
    with True "1.prems" show ?thesis
      by (auto simp: str_nat.simps [of m] str_nat.simps [of n] dest: dec_digit_inj)
  next
    case False
    with "1.prems" have n: "\<not> n < 10" using len [of m] small [of n] by fastforce
    with False "1.prems" have "str_nat (m div 10) = str_nat (n div 10)"
      "dec_digit (m mod 10) = dec_digit (n mod 10)"
      by (auto simp: str_nat.simps [of m] str_nat.simps [of n])
    with False "1.IH" have "m div 10 = n div 10" "m mod 10 = n mod 10"
      by (auto intro: dec_digit_inj)
    then show ?thesis by (metis div_mult_mod_eq)
  qed
qed

lemma str_nat_eq_iff [simp]: "str_nat m = str_nat n \<longleftrightarrow> m = n"
  by (auto dest: str_nat_inj)

text \<open>A number's text is recovered from any text that goes on with a non-digit.\<close>

lemma takeWhile_digits:
  assumes "r = [] \<or> \<not> is_digit (hd r)"
  shows "takeWhile is_digit (str_nat n @ r) = str_nat n"
proof -
  have "takeWhile is_digit (str_nat n @ r) = str_nat n @ takeWhile is_digit r"
    using str_nat_digits by (simp add: takeWhile_append2)
  also have "takeWhile is_digit r = []" using assms by (cases r) auto
  finally show ?thesis by simp
qed

lemma str_nat_append_inj:
  assumes "str_nat m @ r = str_nat n @ q"
    and "r = [] \<or> \<not> is_digit (hd r)" and "q = [] \<or> \<not> is_digit (hd q)"
  shows "m = n \<and> r = q"
proof -
  have "str_nat m = str_nat n"
    using arg_cong [OF assms(1), of "takeWhile is_digit"] takeWhile_digits assms(2,3) by metis
  with assms(1) show ?thesis by simp
qed

section \<open>JSON values and their canonical text\<close>

text \<open>
  The values the code serialises. An object is the association list of a Python
  \<open>dict\<close>, whose keys are distinct.
\<close>

datatype json =
    JNull
  | JBool bool
  | JInt int
  | JStr string
  | JList "json list"
  | JObj "(string \<times> json) list"

text \<open>\<open>sep.join(parts)\<close>.\<close>

fun join :: "string \<Rightarrow> string list \<Rightarrow> string" where
  "join sep [] = []"
| "join sep [x] = x"
| "join sep (x # y # ys) = x @ sep @ join sep (y # ys)"

lemma join_snoc: "join [c] (xs @ [x]) = concat (map (\<lambda>y. y @ [c]) xs) @ x"
proof (induction xs)
  case (Cons a xs)
  then show ?case by (cases xs) auto
qed simp

lemma sep_append_inj:
  "c \<notin> set x \<Longrightarrow> c \<notin> set y \<Longrightarrow> x @ c # r = y @ c # q \<Longrightarrow> x = y \<and> r = q"
proof (induction x arbitrary: y)
  case Nil
  then show ?case by (cases y) auto
next
  case (Cons a x)
  then show ?case by (cases y) auto
qed

text \<open>Fields that avoid the separator can be read back, whatever follows the last one.\<close>

lemma join_sep_inj:
  assumes "length xs = length ys" "\<forall>x\<in>set xs \<union> set ys. c \<notin> set x"
    and "join [c] (xs @ [x]) @ r = join [c] (ys @ [y]) @ q"
  shows "xs = ys \<and> x @ r = y @ q"
  using assms unfolding join_snoc
proof (induction xs ys rule: list_induct2)
  case (Cons a xs b ys)
  then have "a @ c # concat (map (\<lambda>y. y @ [c]) xs) @ x @ r = b @ c # concat (map (\<lambda>y. y @ [c]) ys) @ y @ q"
    by simp
  with sep_append_inj [of c a b] Cons show ?case by auto
qed simp

text \<open>The escapes of \<open>json.dumps(..., ensure_ascii=False)\<close>.\<close>

definition escape_char :: "char \<Rightarrow> string" where
  "escape_char c =
     (if c = CHR 0x22 then [CHR 0x5C, CHR 0x22]
      else if c = CHR 0x5C then [CHR 0x5C, CHR 0x5C]
      else if c = CHR 0x0A then [CHR 0x5C, CHR ''n'']
      else if c = CHR 0x0D then [CHR 0x5C, CHR ''r'']
      else if c = CHR 0x09 then [CHR 0x5C, CHR ''t'']
      else if c = CHR 0x0C then [CHR 0x5C, CHR ''f'']
      else if c = CHR 0x08 then [CHR 0x5C, CHR ''b'']
      else if (of_char c :: nat) < 32
        then [CHR 0x5C, CHR ''u'', CHR ''0'', CHR ''0'',
              hex_digit (of_char c div 16), hex_digit (of_char c mod 16)]
      else [c])"

definition quote :: "string \<Rightarrow> string" where
  "quote s = CHR 0x22 # concat (map escape_char s) @ [CHR 0x22]"

fun dumps :: "json \<Rightarrow> string" where
  "dumps JNull = ''null''"
| "dumps (JBool b) = (if b then ''true'' else ''false'')"
| "dumps (JInt i) = str_int i"
| "dumps (JStr s) = quote s"
| "dumps (JList vs) = CHR ''['' # join '','' (map dumps vs) @ '']''"
| "dumps (JObj kvs) =
     CHR ''{'' # join '','' (map (\<lambda>(k, v). quote k @ '':'' @ dumps v) kvs) @ ''}''"

text \<open>\<open>sort_keys=True\<close>, at every level.\<close>

fun sort_keys :: "json \<Rightarrow> json" where
  "sort_keys (JList vs) = JList (map sort_keys vs)"
| "sort_keys (JObj kvs) = JObj (sort_key fst (map (\<lambda>(k, v). (k, sort_keys v)) kvs))"
| "sort_keys v = v"

definition canonical_json :: "json \<Rightarrow> string" where
  "canonical_json value = dumps (sort_keys value)"

subsection \<open>The text determines the value\<close>

definition closing :: "string \<Rightarrow> bool" where
  "closing r \<longleftrightarrow> r = [] \<or> hd r \<in> set '',]}''"

lemma closing_simps [simp]:
  "closing []" "closing (CHR '','' # r)" "closing (CHR '']'' # r)" "closing (CHR ''}'' # r)"
  by (simp_all add: closing_def)

lemma closing_not_digit: "closing r \<Longrightarrow> r = [] \<or> \<not> is_digit (hd r)"
  by (auto simp: closing_def is_digit_def)

lemma hex_digit_inj: "d < 16 \<Longrightarrow> e < 16 \<Longrightarrow> hex_digit d = hex_digit e \<Longrightarrow> d = e"
proof -
  assume le: "d < 16" "e < 16" and eq: "hex_digit d = hex_digit e"
  have "distinct ''0123456789abcdef''" by simp
  with le eq show "d = e"
    unfolding hex_digit_def by (subst (asm) nth_eq_iff_index_eq) simp_all
qed

lemma escape_char_head: "\<exists>d z. escape_char c = d # z \<and> d \<noteq> CHR 0x22"
  by (simp add: escape_char_def)

lemma escape_char_inj: "escape_char c @ r = escape_char d @ q \<Longrightarrow> c = d \<and> r = q"
proof -
  assume eq: "escape_char c @ r = escape_char d @ q"
  have char_eqI: "(of_char a :: nat) = of_char b \<Longrightarrow> a = b" for a b
    by simp
  have low: "hex_digit (of_char a div 16) = hex_digit (of_char b div 16) \<Longrightarrow>
      hex_digit (of_char a mod 16) = hex_digit (of_char b mod 16) \<Longrightarrow> a = b"
    if "(of_char a :: nat) < 32" "(of_char b :: nat) < 32" for a b
  proof -
    assume h: "hex_digit (of_char a div 16) = hex_digit (of_char b div 16)"
      "hex_digit (of_char a mod 16) = hex_digit (of_char b mod 16)"
    have "(of_char a :: nat) div 16 = of_char b div 16"
      using h(1) that by (intro hex_digit_inj) auto
    moreover have "(of_char a :: nat) mod 16 = of_char b mod 16"
      using h(2) by (intro hex_digit_inj) auto
    ultimately have "(of_char a :: nat) = of_char b" by (metis div_mult_mod_eq)
    then show "a = b" by simp
  qed
  show ?thesis
    using eq by (auto simp: escape_char_def split: if_splits dest: low)
qed

lemma quote_inj: "quote s @ r = quote t @ q \<Longrightarrow> s = t \<and> r = q"
proof -
  have "concat (map escape_char s) @ CHR 0x22 # r = concat (map escape_char t) @ CHR 0x22 # q
    \<Longrightarrow> s = t \<and> r = q"
  proof (induction s arbitrary: t)
    case Nil
    show ?case
    proof (cases t)
      case Nil
      with Nil.prems show ?thesis by simp
    next
      case (Cons d t')
      with Nil.prems escape_char_head [of d] show ?thesis by auto
    qed
  next
    case (Cons c s)
    then obtain d t' where t: "t = d # t'"
      using escape_char_head [of c] by (cases t) auto
    with Cons.prems escape_char_inj [of c _ d] have "c = d"
      "concat (map escape_char s) @ CHR 0x22 # r = concat (map escape_char t') @ CHR 0x22 # q"
      by auto
    with Cons.IH t show ?case by simp
  qed
  then show "quote s @ r = quote t @ q \<Longrightarrow> s = t \<and> r = q"
    by (simp add: quote_def)
qed

lemma str_int_inj:
  assumes "str_int i @ r = str_int j @ q"
    and "r = [] \<or> \<not> is_digit (hd r)" "q = [] \<or> \<not> is_digit (hd q)"
  shows "i = j \<and> r = q"
proof -
  have minus: "hd (str_nat n @ u) \<noteq> CHR ''-''" for n u
    using str_nat_digits [of n] str_nat_nonempty [of n]
    by (cases "str_nat n") (auto simp: is_digit_def)
  have digits: "str_nat m @ r = str_nat n @ q \<Longrightarrow> m = n \<and> r = q" for m n
    using str_nat_append_inj assms(2,3) by blast
  consider "i < 0" "j < 0" | "\<not> i < 0" "\<not> j < 0" | "i < 0" "\<not> j < 0" | "\<not> i < 0" "j < 0"
    by blast
  then show ?thesis
  proof cases
    case 1
    with assms(1) digits [of "nat (- i)" "nat (- j)"] show ?thesis by (auto simp: str_int_def eq_nat_nat_iff)
  next
    case 2
    with assms(1) digits [of "nat i" "nat j"] show ?thesis by (auto simp: str_int_def eq_nat_nat_iff)
  next
    case 3
    with assms(1) have "CHR ''-'' # str_nat (nat (- i)) @ r = str_nat (nat j) @ q"
      by (simp add: str_int_def)
    with minus [of "nat j" q] show ?thesis by (metis list.sel(1))
  next
    case 4
    with assms(1) have "CHR ''-'' # str_nat (nat (- j)) @ q = str_nat (nat i) @ r"
      by (simp add: str_int_def)
    with minus [of "nat i" r] show ?thesis by (metis list.sel(1))
  qed
qed

text \<open>The rest of a comma-separated list, each item after its comma.\<close>

fun commas :: "string list \<Rightarrow> string" where
  "commas [] = []"
| "commas (x # xs) = CHR '','' # x @ commas xs"

lemma join_commas: "join '','' (x # xs) = x @ commas xs"
  by (induction xs arbitrary: x) auto

lemma commas_inj:
  assumes item: "\<And>x y r q. x \<in> set xs \<Longrightarrow> closing r \<Longrightarrow> closing q \<Longrightarrow> f x @ r = f y @ q \<Longrightarrow> x = y \<and> r = q"
    and eq: "commas (map f xs) @ e # r = commas (map f ys) @ e # q" and e: "e \<in> set '']}''"
  shows "xs = ys \<and> r = q"
proof -
  have closing_commas: "closing (commas zs @ e # u)" for zs u
    using e by (cases zs) auto
  show ?thesis
    using item eq
  proof (induction xs arbitrary: ys)
    case Nil
    with e show ?case by (cases ys) auto
  next
    case (Cons x xs)
    with e obtain y ys' where ys: "ys = y # ys'" by (cases ys) auto
    with Cons.prems have "f x @ commas (map f xs) @ e # r = f y @ commas (map f ys') @ e # q"
      by simp
    from Cons.prems(1) [OF _ closing_commas closing_commas this] have "x = y"
      "commas (map f xs) @ e # r = commas (map f ys') @ e # q" by auto
    moreover have "xs = ys' \<and> r = q"
    proof (rule Cons.IH)
      show "commas (map f xs) @ e # r = commas (map f ys') @ e # q" by fact
      show "x = y \<and> r = q"
        if "x \<in> set xs" "closing r" "closing q" "f x @ r = f y @ q" for x y r q
        using that by (intro Cons.prems(1)) auto
    qed
    ultimately show ?case using ys by simp
  qed
qed

lemma join_inj:
  assumes item: "\<And>x y r q. x \<in> set xs \<Longrightarrow> closing r \<Longrightarrow> closing q \<Longrightarrow> f x @ r = f y @ q \<Longrightarrow> x = y \<and> r = q"
    and eq: "join '','' (map f xs) @ e # r = join '','' (map f ys) @ e # q" and e: "e \<in> set '']}''"
    and ne: "\<And>x. \<exists>c z. f x = c # z \<and> c \<notin> set '']}''"
  shows "xs = ys \<and> r = q"
proof (cases xs)
  case Nil
  show ?thesis
  proof (cases ys)
    case Nil
    with eq \<open>xs = []\<close> show ?thesis by simp
  next
    case (Cons y ys')
    with eq e ne [of y] \<open>xs = []\<close> show ?thesis by (auto simp: join_commas)
  qed
next
  case (Cons x xs')
  with eq e ne [of x] obtain y ys' where ys: "ys = y # ys'"
    by (cases ys) (auto simp: join_commas)
  have closing_commas: "closing (commas zs @ e # u)" for zs u
    using e by (cases zs) auto
  from eq Cons ys have "f x @ commas (map f xs') @ e # r = f y @ commas (map f ys') @ e # q"
    by (simp add: join_commas)
  from item [OF _ closing_commas closing_commas this] Cons have "x = y"
    "commas (map f xs') @ e # r = commas (map f ys') @ e # q" by auto
  moreover have "xs' = ys' \<and> r = q"
    using Cons by (intro commas_inj [OF _ calculation(2) e] item) auto
  ultimately show ?thesis using Cons ys by simp
qed

lemma dumps_head: "\<exists>c z. dumps v = c # z \<and> c \<notin> set '']}''"
proof (cases v)
  case (JInt i)
  have "\<exists>c z. str_nat n = c # z \<and> is_digit c" for n
    using str_nat_digits [of n] str_nat_nonempty [of n] by (cases "str_nat n") auto
  from this [of "nat i"] JInt show ?thesis by (auto simp: str_int_def is_digit_def)
qed (auto simp: quote_def)

lemma dumps_kind:
  assumes "dumps v @ r = dumps w @ q"
  shows "(v = JNull \<longleftrightarrow> w = JNull) \<and> (v = JBool True \<longleftrightarrow> w = JBool True) \<and>
    (v = JBool False \<longleftrightarrow> w = JBool False) \<and> ((\<exists>i. v = JInt i) \<longleftrightarrow> (\<exists>i. w = JInt i)) \<and>
    ((\<exists>s. v = JStr s) \<longleftrightarrow> (\<exists>s. w = JStr s)) \<and> ((\<exists>x. v = JList x) \<longleftrightarrow> (\<exists>x. w = JList x)) \<and>
    ((\<exists>x. v = JObj x) \<longleftrightarrow> (\<exists>x. w = JObj x))"
proof -
  have num: "\<exists>c z. str_int i = c # z \<and> (c = CHR ''-'' \<or> is_digit c)" for i
  proof -
    have "\<exists>c z. str_nat n = c # z \<and> is_digit c" for n
      using str_nat_digits [of n] str_nat_nonempty [of n] by (cases "str_nat n") auto
    from this [of "nat i"] show ?thesis by (auto simp: str_int_def)
  qed
  define kind where "kind x = (case x of JNull \<Rightarrow> CHR ''n'' | JBool b \<Rightarrow> if b then CHR ''t'' else CHR ''f''
    | JInt i \<Rightarrow> CHR ''0'' | JStr s \<Rightarrow> CHR 0x22 | JList l \<Rightarrow> CHR ''['' | JObj l \<Rightarrow> CHR ''{'')" for x
  define norm where "norm c = (if c = CHR ''-'' \<or> is_digit c then CHR ''0'' else c)" for c
  have "norm (hd (dumps x @ u)) = kind x" for x u
  proof (cases x)
    case (JInt i)
    moreover obtain c z where "str_int i = c # z" "c = CHR ''-'' \<or> is_digit c" using num by blast
    ultimately show ?thesis by (simp add: kind_def norm_def)
  qed (simp_all add: kind_def norm_def quote_def is_digit_def)
  with assms have "kind v = kind w" by metis
  then show ?thesis by (cases v; cases w) (auto simp: kind_def split: if_splits)
qed

text \<open>No JSON text is the beginning of another one, up to the closing punctuation.\<close>

lemma dumps_inj: "closing r \<Longrightarrow> closing q \<Longrightarrow> dumps v @ r = dumps w @ q \<Longrightarrow> v = w \<and> r = q"
proof (induction v arbitrary: w r q)
  case JNull
  with dumps_kind [OF JNull(3)] show ?case by simp
next
  case (JBool b)
  with dumps_kind [OF JBool(3)] show ?case by (cases b) auto
next
  case (JInt i)
  with dumps_kind [OF JInt(3)] obtain j where "w = JInt j" by auto
  with JInt str_int_inj [of i r j q] closing_not_digit show ?case by simp
next
  case (JStr s)
  with dumps_kind [OF JStr(3)] obtain t where "w = JStr t" by auto
  with JStr quote_inj [of s r t q] show ?case by simp
next
  case (JList vs)
  with dumps_kind [OF JList(4)] obtain ws where w: "w = JList ws" by auto
  have "vs = ws \<and> r = q"
  proof (rule join_inj)
    show "join '','' (map dumps vs) @ CHR '']'' # r = join '','' (map dumps ws) @ CHR '']'' # q"
      using JList.prems(3) w by simp
  qed (use JList.IH dumps_head in auto)
  with w show ?case by simp
next
  case (JObj kvs)
  with dumps_kind [OF JObj(4)] obtain kws where w: "w = JObj kws" by auto
  let ?f = "\<lambda>(k, v). quote k @ '':'' @ dumps v"
  have "kvs = kws \<and> r = q"
  proof (rule join_inj [where f = ?f and e = "CHR ''}''"])
    show "join '','' (map ?f kvs) @ CHR ''}'' # r = join '','' (map ?f kws) @ CHR ''}'' # q"
      using JObj.prems(3) w by simp
    fix x y :: "string \<times> json" and r q
    assume x: "x \<in> set kvs" and c: "closing r" "closing q" and eq: "?f x @ r = ?f y @ q"
    obtain k v l u where xy: "x = (k, v)" "y = (l, u)" by fastforce
    from eq xy have "quote k @ CHR '':'' # dumps v @ r = quote l @ CHR '':'' # dumps u @ q" by simp
    then have "k = l" "dumps v @ r = dumps u @ q" by (auto dest: quote_inj)
    moreover have "v = u \<and> r = q"
      using JObj.IH [of x v] x c xy calculation(2) by simp
    ultimately show "x = y \<and> r = q" using xy by simp
  qed (auto simp: quote_def)
  with w show ?case by simp
qed

lemma canonical_json_append_inj:
  assumes "canonical_json v @ r = canonical_json w @ q" "closing r" "closing q"
  shows "sort_keys v = sort_keys w \<and> r = q"
  using assms dumps_inj unfolding canonical_json_def by blast

lemma canonical_json_head: "\<exists>c z. canonical_json v = c # z"
  using dumps_head [of "sort_keys v"] by (auto simp: canonical_json_def)

text \<open>Sorting the keys of two objects with the same distinct keys loses no field.\<close>

lemma sort_keys_fields:
  assumes "distinct ks"
    and "sort_keys (JObj (zip ks vs)) = sort_keys (JObj (zip ks ws))"
    and "length vs = length ks" "length ws = length ks"
  shows "map sort_keys vs = map sort_keys ws"
proof (rule nth_equalityI)
  let ?f = "\<lambda>(k, v). (k, sort_keys v)"
  have "sort_key fst (map ?f (zip ks vs)) = sort_key fst (map ?f (zip ks ws))"
    using assms(2) by (simp only: sort_keys.simps json.inject)
  from arg_cong [OF this, of set] have sorted: "set (map ?f (zip ks vs)) = set (map ?f (zip ks ws))"
    by (simp only: set_sort)
  fix i assume "i < length (map sort_keys vs)"
  then have i: "i < length vs" by simp
  then have "(ks ! i, vs ! i) \<in> set (zip ks vs)"
    using assms(3) by (auto simp: set_zip)
  then have "?f (ks ! i, vs ! i) \<in> set (map ?f (zip ks vs))"
    unfolding set_map by (rule imageI)
  with sorted have "?f (ks ! i, vs ! i) \<in> set (map ?f (zip ks ws))" by (rule subst)
  then obtain j where j: "j < length ks" "ks ! i = ks ! j" "sort_keys (vs ! i) = sort_keys (ws ! j)"
    by (auto simp: set_zip)
  then have "i = j" using nth_eq_iff_index_eq [OF assms(1)] i assms(3) by simp
  with i j assms(3,4) show "map sort_keys vs ! i = map sort_keys ws ! i" by simp
qed (use assms(3,4) in simp)

section \<open>Digests\<close>

text \<open>
  \<open>hashlib.sha256\<close> is a parameter \<open>sha\<close> of every definition that uses it: nothing the
  server computes depends on which function it is. Its \<open>hexdigest()\<close>:
\<close>

definition hexdigest :: "(bytes \<Rightarrow> bytes) \<Rightarrow> bytes \<Rightarrow> string" where
  "hexdigest sha bs = hex (sha bs)"

lemma hex_inj: "hex bs = hex cs \<Longrightarrow> bs = cs"
proof (induction bs arbitrary: cs)
  case Nil
  then show ?case by (cases cs) (auto simp: hex_def)
next
  case (Cons b bs)
  then obtain c cs' where cs: "cs = c # cs'" by (cases cs) (auto simp: hex_def)
  have lt: "unat x < 256" for x :: "8 word"
    using unsigned_less [of x, where ?'a = nat] by simp
  from Cons.prems cs have "hex_digit (unat b div 16) = hex_digit (unat c div 16)"
    "hex_digit (unat b mod 16) = hex_digit (unat c mod 16)" "hex bs = hex cs'"
    by (auto simp: hex_def)
  then have "unat b div 16 = unat c div 16" "unat b mod 16 = unat c mod 16" "bs = cs'"
    using lt [of b] lt [of c] by (auto intro: hex_digit_inj Cons.IH)
  then have "unat b = unat c" by (metis div_mult_mod_eq)
  with cs \<open>bs = cs'\<close> show ?case by (simp add: word_unat_eq_iff)
qed

end
