(* ===== verification/Topology.thy ===== *)
theory Topology
  imports Json "HOL-Library.Log_Nat"
begin

text \<open>
  \<open>app/domain/topology.py\<close>: the canonical protocol-1.1 plan. The participants are shuffled
  with a hash-driven Fisher-Yates shuffle, cut into balanced groups, and the groups are
  joined by a binary reduction tree; the plan lists the tasks of both stages with sender,
  receiver and dependencies. Node dictionaries that the code mutates after building the
  tree (\<open>target\<close>, \<open>task_id\<close>) are maps from node identities to the assigned values.
\<close>

section \<open>Context and signing domain\<close>

text \<open>The columns of a round row that enter hashes and signatures.\<close>

record round_context =
  protocol_version :: string
  federation_id :: string
  round_id :: string
  model_schema_hash :: string
  participant_manifest_hash :: string
  aggregation_policy :: string
  precision_bits :: int

definition domain_fields :: "'a round_context_scheme \<Rightarrow> string \<Rightarrow> string list" where
  "domain_fields row purpose =
     [purpose, protocol_version row, federation_id row, round_id row, model_schema_hash row,
      participant_manifest_hash row, aggregation_policy row, str_int (precision_bits row)]"

definition domain_bytes :: "'a round_context_scheme \<Rightarrow> string \<Rightarrow> bytes" where
  "domain_bytes row purpose = encode (join [CHR 0x00] (domain_fields row purpose))"

section \<open>Shuffle\<close>

text \<open>
  The rejection sampling of \<open>_shuffle\<close>: hash the seed with an eight-byte counter until the
  value is below the cutoff. The counter stops at \<open>2 ^ 64\<close>, where \<open>to_bytes\<close> raises.
\<close>

function draw :: "(bytes \<Rightarrow> bytes) \<Rightarrow> bytes \<Rightarrow> int \<Rightarrow> int \<Rightarrow> exn + (int \<times> int)" where
  "draw sha seed cutoff counter =
     (case int_to_bytes_big 8 counter of
        Inl e \<Rightarrow> Inl e
      | Inr block \<Rightarrow>
          (let value = int_from_bytes_big (sha (seed @ block)) in
           if value < cutoff then Inr (value, counter + 1)
           else draw sha seed cutoff (counter + 1)))"
  by pat_completeness auto
termination
  by (relation "measure (\<lambda>(sha, seed, cutoff, counter). nat (2 ^ 64 - counter))")
     (auto dest!: to_bytes_bound)

declare draw.simps [simp del]

definition swap :: "'a list \<Rightarrow> nat \<Rightarrow> nat \<Rightarrow> 'a list" where
  "swap xs i j = xs[i := xs ! j, j := xs ! i]"

definition shuffle_cutoff :: "int \<Rightarrow> int" where
  "shuffle_cutoff modulus = (let limit = 2 ^ 256 in limit - limit mod modulus)"

text \<open>\<open>for upper in range(len(shuffled) - 1, 0, -1)\<close>, from the given upper index down.\<close>

fun shuffle_loop :: "(bytes \<Rightarrow> bytes) \<Rightarrow> bytes \<Rightarrow> int \<Rightarrow> nat \<Rightarrow> 'a list \<Rightarrow> exn + 'a list" where
  "shuffle_loop sha seed counter 0 shuffled = Inr shuffled"
| "shuffle_loop sha seed counter (Suc u) shuffled =
     (let upper = Suc u; modulus = int upper + 1 in
      attempt (draw sha seed (shuffle_cutoff modulus) counter) (\<lambda>(value, counter').
        let selected = nat (value mod modulus) in
        shuffle_loop sha seed counter' u (swap shuffled upper selected)))"

definition shuffle :: "(bytes \<Rightarrow> bytes) \<Rightarrow> string list \<Rightarrow> bytes \<Rightarrow> exn + string list" where
  "shuffle sha participants seed =
     (let shuffled = sort participants in
      shuffle_loop sha seed 0 (length shuffled - 1) shuffled)"

section \<open>Groups\<close>

definition group_sizes :: "nat \<Rightarrow> exn + nat list" where
  "group_sizes participant_count =
     (if participant_count < 3 then Inl (ValueError ''protocol 1.1 requires at least three participants'')
      else if participant_count = 5 then Inr [5]
      else
        let group_count = (participant_count + 3) div 4;
            base = participant_count div group_count;
            remainder = participant_count mod group_count;
            sizes = map (\<lambda>index. base + (if index < remainder then 1 else 0)) [0..<group_count]
        in if \<exists>sz\<in>set sizes. sz \<notin> {3, 4} then Inl (ValueError ''could not form balanced groups'')
           else Inr sizes)"

record tree_group =
  group_id :: nat
  members :: "string list"
  coordinator :: string

fun make_groups :: "string list \<Rightarrow> nat \<Rightarrow> nat \<Rightarrow> nat list \<Rightarrow> exn + tree_group list" where
  "make_groups shuffled offset index [] = Inr []"
| "make_groups shuffled offset index (sz # sizes) =
     (case take sz (drop offset shuffled) of
        [] \<Rightarrow> Inl IndexError
      | first # rest \<Rightarrow>
          attempt (make_groups shuffled (offset + sz) (index + 1) sizes) (\<lambda>groups.
            Inr (\<lparr>group_id = index, members = first # rest, coordinator = first\<rparr> # groups)))"

section \<open>The reduction tree\<close>

datatype task_action =
    GROUP_START | GROUP_ADD | GROUP_UNBLIND | TREE_COMBINE | TREE_CARRY
  | PUBLISH_FINAL | ACK_FINAL

datatype task_stage = GROUP | TREE | FINAL_DISTRIBUTION

datatype node =
    Leaf (operator: string) nat
  | Inner (operator: string) (children: "node list") nat task_action nat

text \<open>
  The identity of a node dictionary: a leaf is known by its group, an inner node by its level
  and index. The fields that the code adds after construction are keyed by it.
\<close>

datatype node_key = LeafId nat | InnerId nat nat

fun node_id :: "node \<Rightarrow> node_key" where
  "node_id (Leaf _ g) = LeafId g"
| "node_id (Inner _ _ level _ index) = InnerId level index"

fun node_level :: "node \<Rightarrow> int" where
  "node_level (Leaf _ _) = - 1"
| "node_level (Inner _ _ level _ _) = int level"

text \<open>One pass of the \<open>while len(active) > 1\<close> loop: neighbours are paired, an odd one is carried.\<close>

fun pair_up :: "nat \<Rightarrow> nat \<Rightarrow> node list \<Rightarrow> node list" where
  "pair_up level index [] = []"
| "pair_up level index [a] = [Inner (operator a) [a] level TREE_CARRY index]"
| "pair_up level index (a # b # rest) =
     Inner (operator a) [a, b] level TREE_COMBINE index # pair_up level (index + 1) rest"

lemma length_pair_up: "length (pair_up level index ns) = (length ns + 1) div 2"
  by (induction level index ns rule: pair_up.induct) auto

function build_levels :: "nat \<Rightarrow> node list \<Rightarrow> node list \<Rightarrow> node list \<times> node list" where
  "build_levels level active tree_nodes =
     (if 1 < length active
      then let following = pair_up level 0 active
           in build_levels (level + 1) following (tree_nodes @ following)
      else (active, tree_nodes))"
  by pat_completeness auto
termination
  by (relation "measure (\<lambda>(level, active, tree_nodes). length active)")
     (auto simp: length_pair_up)

declare build_levels.simps [simp del]

fun walk_nodes :: "node \<Rightarrow> node list" where
  "walk_nodes (Leaf op g) = [Leaf op g]"
| "walk_nodes (Inner op cs l a i) = Inner op cs l a i # concat (map walk_nodes cs)"

fun assign_targets :: "node \<Rightarrow> string \<Rightarrow> (node_key \<rightharpoonup> string) \<Rightarrow> (node_key \<rightharpoonup> string)" where
  "assign_targets (Leaf op g) target targets = targets(LeafId g \<mapsto> target)"
| "assign_targets (Inner op cs l a i) target targets =
     fold (\<lambda>child. assign_targets child op) cs (targets(InnerId l i \<mapsto> target))"

section \<open>Tasks\<close>

record task =
  task_id :: string
  action :: task_action
  stage :: task_stage
  level :: int
  sender :: string
  receiver :: string
  dependencies :: "string list"

definition start_id :: "nat \<Rightarrow> string" where
  "start_id g = ''g'' @ str_nat g @ ''-start''"

definition add_id :: "nat \<Rightarrow> nat \<Rightarrow> string" where
  "add_id g position = ''g'' @ str_nat g @ ''-add-'' @ str_nat position"

definition unblind_id :: "nat \<Rightarrow> string" where
  "unblind_id g = ''g'' @ str_nat g @ ''-unblind''"

definition tree_id :: "nat \<Rightarrow> nat \<Rightarrow> string" where
  "tree_id lv index = ''t'' @ str_nat lv @ ''-'' @ str_nat index"

text \<open>\<open>for position in range(1, len(members))\<close>; the second result is the last \<open>previous\<close>.\<close>

fun add_tasks :: "nat \<Rightarrow> string list \<Rightarrow> string \<Rightarrow> nat list \<Rightarrow> task list \<times> string" where
  "add_tasks g ms previous [] = ([], previous)"
| "add_tasks g ms previous (position # positions) =
     (let (tasks, final) = add_tasks g ms (add_id g position) positions in
      (\<lparr>task_id = add_id g position, action = GROUP_ADD, stage = GROUP, level = 0,
        sender = ms ! position,
        receiver = (if position + 1 < length ms then ms ! (position + 1) else ms ! 0),
        dependencies = [previous]\<rparr> # tasks, final))"

definition group_tasks :: "nat \<Rightarrow> string list \<Rightarrow> string \<Rightarrow> task list" where
  "group_tasks g ms target =
     (let (adds, previous) = add_tasks g ms (start_id g) [1..<length ms] in
      \<lparr>task_id = start_id g, action = GROUP_START, stage = GROUP, level = 0,
       sender = ms ! 0, receiver = ms ! 1, dependencies = []\<rparr>
      # adds @
      [\<lparr>task_id = unblind_id g, action = GROUP_UNBLIND, stage = GROUP, level = 0,
        sender = ms ! 0, receiver = target, dependencies = [previous]\<rparr>])"

fun group_loop :: "(node_key \<rightharpoonup> string) \<Rightarrow> node \<Rightarrow> (node_key \<rightharpoonup> string) \<Rightarrow> tree_group list
    \<Rightarrow> exn + (task list \<times> (node_key \<rightharpoonup> string))" where
  "group_loop targets rt ids [] = Inr ([], ids)"
| "group_loop targets rt ids (g # groups) =
     (if length (members g) < 2 then Inl IndexError
      else case List.find (\<lambda>n. node_id n = LeafId (group_id g)) (walk_nodes rt) of
        None \<Rightarrow> Inl StopIteration
      | Some leaf \<Rightarrow>
          (case targets (node_id leaf) of
             None \<Rightarrow> Inl KeyError
           | Some target \<Rightarrow>
               attempt (group_loop targets rt (ids(node_id leaf \<mapsto> unblind_id (group_id g))) groups)
                 (\<lambda>(tasks, ids'). Inr (group_tasks (group_id g) (members g) target @ tasks, ids'))))"

fun tree_loop :: "(node_key \<rightharpoonup> string) \<Rightarrow> (node_key \<rightharpoonup> string) \<Rightarrow> node list
    \<Rightarrow> exn + (task list \<times> (node_key \<rightharpoonup> string))" where
  "tree_loop targets ids [] = Inr ([], ids)"
| "tree_loop targets ids (Leaf _ _ # nodes) = Inl KeyError"
| "tree_loop targets ids (Inner op cs lv act index # nodes) =
     (case (targets (InnerId lv index), those (map (\<lambda>c. ids (node_id c)) cs)) of
        (Some target, Some deps) \<Rightarrow>
          attempt (tree_loop targets (ids(InnerId lv index \<mapsto> tree_id lv index)) nodes)
            (\<lambda>(tasks, ids').
              Inr (\<lparr>task_id = tree_id lv index, action = act, stage = TREE, level = int lv,
                    sender = op, receiver = target, dependencies = deps\<rparr> # tasks, ids'))
      | _ \<Rightarrow> Inl KeyError)"

fun node_index :: "node \<Rightarrow> nat" where
  "node_index (Leaf _ _) = 0"
| "node_index (Inner _ _ _ _ index) = index"

section \<open>The plan\<close>

record tree_plan =
  plan_protocol_version :: string
  plan_participants :: "string list"
  plan_groups :: "tree_group list"
  plan_tasks :: "task list"
  root_client_id :: string
  root_task_id :: string
  tree_levels :: nat

record manifest_entry =
  client_id :: string
  public_key :: string
  signature :: string

definition manifest_json :: "manifest_entry list \<Rightarrow> json" where
  "manifest_json manifest = JList (map (\<lambda>m. JObj
     [(''client_id'', JStr (client_id m)), (''public_key'', JStr (public_key m)),
      (''signature'', JStr (signature m))]) manifest)"

definition derive_tree_plan ::
    "(bytes \<Rightarrow> bytes) \<Rightarrow> 'a round_context_scheme \<Rightarrow> manifest_entry list \<Rightarrow> exn + tree_plan" where
  "derive_tree_plan sha row manifest =
     (let participants = map client_id manifest in
      if length (remdups participants) \<noteq> length participants
      then Inl (ValueError ''ephemeral manifest contains duplicate participants'')
      else
        let seed = sha (domain_bytes row ''tree-topology'' @ encode (canonical_json (manifest_json manifest))) in
        attempt (shuffle sha participants seed) (\<lambda>shuffled.
        attempt (group_sizes (length shuffled)) (\<lambda>sizes.
        attempt (make_groups shuffled 0 0 sizes) (\<lambda>groups.
        let (active, tree_nodes) =
              build_levels 0 (map (\<lambda>g. Leaf (coordinator g) (group_id g)) groups) [] in
        case active of [] \<Rightarrow> Inl IndexError
        | rt # _ \<Rightarrow>
          let targets = assign_targets rt (operator rt) Map.empty in
          attempt (group_loop targets rt Map.empty groups) (\<lambda>(group_ts, ids).
          attempt (tree_loop targets ids (sort_key (\<lambda>n. (node_level n, node_index n)) tree_nodes))
            (\<lambda>(tree_ts, ids').
              case ids' (node_id rt) of None \<Rightarrow> Inl KeyError
              | Some root_task \<Rightarrow>
                Inr \<lparr>plan_protocol_version = ''1.1'', plan_participants = shuffled,
                  plan_groups = groups, plan_tasks = group_ts @ tree_ts,
                  root_client_id = operator rt, root_task_id = root_task,
                  tree_levels = (if 1 < length groups then ceillog2 (length groups) else 0)\<rparr>))))))"

fun action_value :: "task_action \<Rightarrow> string" where
  "action_value GROUP_START = ''GROUP_START''"
| "action_value GROUP_ADD = ''GROUP_ADD''"
| "action_value GROUP_UNBLIND = ''GROUP_UNBLIND''"
| "action_value TREE_COMBINE = ''TREE_COMBINE''"
| "action_value TREE_CARRY = ''TREE_CARRY''"
| "action_value PUBLISH_FINAL = ''PUBLISH_FINAL''"
| "action_value ACK_FINAL = ''ACK_FINAL''"

fun stage_value :: "task_stage \<Rightarrow> string" where
  "stage_value GROUP = ''GROUP''"
| "stage_value TREE = ''TREE''"
| "stage_value FINAL_DISTRIBUTION = ''FINAL_DISTRIBUTION''"

definition task_json :: "'a task_scheme \<Rightarrow> json" where
  "task_json t = JObj
     [(''task_id'', JStr (task_id t)), (''action'', JStr (action_value (action t))),
      (''stage'', JStr (stage_value (stage t))), (''level'', JInt (level t)),
      (''sender'', JStr (sender t)), (''receiver'', JStr (receiver t)),
      (''dependencies'', JList (map JStr (dependencies t)))]"

definition group_json :: "tree_group \<Rightarrow> json" where
  "group_json g = JObj
     [(''group_id'', JInt (int (group_id g))), (''members'', JList (map JStr (members g))),
      (''coordinator'', JStr (coordinator g))]"

definition plan_json :: "tree_plan \<Rightarrow> json" where
  "plan_json plan = JObj
     [(''protocol_version'', JStr (plan_protocol_version plan)),
      (''participants'', JList (map JStr (plan_participants plan))),
      (''groups'', JList (map group_json (plan_groups plan))),
      (''tasks'', JList (map task_json (plan_tasks plan))),
      (''root_client_id'', JStr (root_client_id plan)),
      (''root_task_id'', JStr (root_task_id plan)),
      (''tree_levels'', JInt (int (tree_levels plan)))]"

definition tree_plan_hash :: "(bytes \<Rightarrow> bytes) \<Rightarrow> tree_plan \<Rightarrow> string" where
  "tree_plan_hash sha plan = hexdigest sha (encode (canonical_json (plan_json plan)))"

end
