(* ===== verification/Topology_Facts.thy ===== *)
theory Topology_Facts
  imports Topology
begin

text \<open>
  What \<open>Topology\<close> computes: the shuffle permutes the participants without bias and only
  ever fails by exhausting its counter, the groups are balanced and partition the shuffled
  list, and the task list is an in-tree in topological order.
\<close>

section \<open>Shuffle\<close>

text \<open>The hash val tried at a counter.\<close>

definition sample :: "(bytes \<Rightarrow> bytes) \<Rightarrow> bytes \<Rightarrow> int \<Rightarrow> int" where
  "sample sha seed counter =
     (case int_to_bytes_big 8 counter of Inl e \<Rightarrow> 0 | Inr block \<Rightarrow> int_from_bytes_big (sha (seed @ block)))"

lemma draw_sound:
  "draw sha seed cutoff counter = Inr (val, nxt) \<Longrightarrow>
   0 \<le> val \<and> val < cutoff \<and> counter < nxt \<and> nxt \<le> 2 ^ 64 \<and>
   val = sample sha seed (nxt - 1) \<and>
   (\<forall>c. counter \<le> c \<and> c < nxt - 1 \<longrightarrow> cutoff \<le> sample sha seed c)"
proof (induction sha seed cutoff counter rule: draw.induct)
  case (1 sha seed cutoff counter)
  from "1.prems" obtain block where block: "int_to_bytes_big 8 counter = Inr block"
    by (auto simp: draw.simps [of sha seed cutoff counter] split: sum.splits)
  let ?v = "int_from_bytes_big (sha (seed @ block))"
  have v: "?v = sample sha seed counter" and v0: "0 \<le> ?v"
    using block from_bytes_bound by (auto simp: sample_def)
  have c64: "counter < 2 ^ 64" using to_bytes_bound [OF block] by simp
  show ?case
  proof (cases "?v < cutoff")
    case True
    with "1.prems" block have "val = ?v" "nxt = counter + 1"
      by (auto simp: draw.simps [of sha seed cutoff counter])
    with True v v0 c64 show ?thesis by auto
  next
    case False
    with "1.prems" block have "draw sha seed cutoff (counter + 1) = Inr (val, nxt)"
      by (simp add: draw.simps [of sha seed cutoff counter])
    with "1.IH" [OF block refl False] have IH:
      "0 \<le> val \<and> val < cutoff \<and> counter + 1 < nxt \<and> nxt \<le> 2 ^ 64 \<and>
       val = sample sha seed (nxt - 1) \<and>
       (\<forall>c. counter + 1 \<le> c \<and> c < nxt - 1 \<longrightarrow> cutoff \<le> sample sha seed c)" by simp
    have "cutoff \<le> sample sha seed c" if "counter \<le> c" "c < nxt - 1" for c
      using that IH False v by (cases "c = counter") auto
    with IH show ?thesis by auto
  qed
qed

lemma draw_complete:
  "0 \<le> counter \<Longrightarrow> counter \<le> c \<Longrightarrow> c < 2 ^ 64 \<Longrightarrow> sample sha seed c < cutoff \<Longrightarrow>
   \<exists>val nxt. draw sha seed cutoff counter = Inr (val, nxt) \<and> nxt \<le> c + 1"
proof (induction sha seed cutoff counter rule: draw.induct)
  case (1 sha seed cutoff counter)
  obtain block where block: "int_to_bytes_big 8 counter = Inr block"
    using "1.prems" by (cases "int_to_bytes_big 8 counter") (auto simp: to_bytes_overflow)
  let ?v = "int_from_bytes_big (sha (seed @ block))"
  have v: "?v = sample sha seed counter" using block by (simp add: sample_def)
  show ?case
  proof (cases "?v < cutoff")
    case True
    with block "1.prems" show ?thesis by (simp add: draw.simps [of sha seed cutoff counter])
  next
    case False
    with v "1.prems" have "counter \<noteq> c" by auto
    with "1.IH" [OF block refl False] "1.prems" obtain val nxt where
      "draw sha seed cutoff (counter + 1) = Inr (val, nxt)" "nxt \<le> c + 1" by auto
    with False block show ?thesis by (simp add: draw.simps [of sha seed cutoff counter])
  qed
qed

lemma draw_error: "draw sha seed cutoff counter = Inl e \<Longrightarrow> e = OverflowError"
proof (induction sha seed cutoff counter rule: draw.induct)
  case (1 sha seed cutoff counter)
  then show ?case
    by (auto simp: draw.simps [of sha seed cutoff counter] to_bytes_overflow Let_def
        split: sum.splits if_splits)
qed

lemma length_swap [simp]: "length (swap xs i j) = length xs"
  by (simp add: swap_def)

lemma mset_swap': "i < length xs \<Longrightarrow> j < length xs \<Longrightarrow> mset (swap xs i j) = mset xs"
  by (simp add: swap_def mset_swap)

lemma cutoff_bounds:
  assumes "0 < m" "m \<le> 2 ^ 256"
  shows "0 < shuffle_cutoff m" "shuffle_cutoff m \<le> 2 ^ 256" "m dvd shuffle_cutoff m"
proof -
  have "(2 ^ 256 :: int) mod m < m" "0 \<le> (2 ^ 256 :: int) mod m" using assms by auto
  then show "0 < shuffle_cutoff m" "shuffle_cutoff m \<le> 2 ^ 256"
    using assms unfolding shuffle_cutoff_def Let_def by linarith+
  show "m dvd shuffle_cutoff m"
    unfolding shuffle_cutoff_def Let_def by (rule dvd_minus_mod)
qed

lemma shuffle_loop_mset:
  "u < length xs \<or> xs = [] \<and> u = 0 \<Longrightarrow> shuffle_loop sha seed counter u xs = Inr ys \<Longrightarrow> mset ys = mset xs"
proof (induction u arbitrary: counter xs)
  case 0
  then show ?case by simp
next
  case (Suc u)
  then obtain val counter' where d:
    "draw sha seed (shuffle_cutoff (int (Suc u) + 1)) counter = Inr (val, counter')"
    "shuffle_loop sha seed counter' u (swap xs (Suc u) (nat (val mod (int (Suc u) + 1)))) = Inr ys"
    by (auto simp: Let_def attempt_Inr)
  let ?j = "nat (val mod (int (Suc u) + 1))"
  have "?j < Suc u + 1"
  proof -
    have "val mod (int (Suc u) + 1) < int (Suc u) + 1" by simp
    then show ?thesis by linarith
  qed
  with Suc.prems have lt: "Suc u < length xs" "?j < length xs" by auto
  with Suc.IH [OF _ d(2)] have "mset ys = mset (swap xs (Suc u) ?j)" by auto
  with lt show ?case by (simp add: mset_swap')
qed

lemma shuffle_mset: "shuffle sha ps seed = Inr ys \<Longrightarrow> mset ys = mset ps"
proof -
  assume "shuffle sha ps seed = Inr ys"
  then have "shuffle_loop sha seed 0 (length (sort ps) - 1) (sort ps) = Inr ys"
    by (simp add: shuffle_def Let_def)
  then have "mset ys = mset (sort ps)"
    by (rule shuffle_loop_mset [rotated]) (cases "ps"; simp)
  then show ?thesis by simp
qed

lemma shuffle_cong: "mset ps = mset qs \<Longrightarrow> shuffle sha ps seed = shuffle sha qs seed"
proof -
  assume "mset ps = mset qs"
  then have "sort ps = sort qs" by (metis mset_sort properties_for_sort sorted_sort)
  then show ?thesis by (simp add: shuffle_def)
qed

lemma shuffle_loop_error: "shuffle_loop sha seed counter u xs = Inl e \<Longrightarrow> e = OverflowError"
proof (induction u arbitrary: counter xs)
  case (Suc u)
  then show ?case
    by (auto simp: Let_def attempt_def split: sum.splits dest: draw_error)
qed simp

lemma shuffle_error: "shuffle sha ps seed = Inl e \<Longrightarrow> e = OverflowError"
  by (auto simp: shuffle_def Let_def dest: shuffle_loop_error)

text \<open>If every sample is accepted the shuffle ends after one draw per position.\<close>

lemma shuffle_loop_total:
  assumes "\<And>m. m > 0 \<Longrightarrow> m \<le> int u + 1 \<Longrightarrow>
      \<forall>c. counter \<le> c \<and> c < counter + int u \<longrightarrow> sample sha seed c < shuffle_cutoff m"
    and "0 \<le> counter" "counter + int u \<le> 2 ^ 64"
  shows "\<exists>ys. shuffle_loop sha seed counter u (xs :: 'a list) = Inr ys"
  using assms
proof (induction u arbitrary: counter xs)
  case (Suc u)
  have "sample sha seed counter < shuffle_cutoff (int (Suc u) + 1)"
    using Suc.prems(1) [of "int (Suc u) + 1"] by auto
  from draw_complete [OF _ order_refl _ this] Suc.prems obtain val counter' where d:
    "draw sha seed (shuffle_cutoff (int (Suc u) + 1)) counter = Inr (val, counter')"
    "counter' \<le> counter + 1" by (fastforce simp del: of_nat_Suc)
  with draw_sound [OF d(1)] have "counter' = counter + 1" by auto
  have "\<exists>ys. shuffle_loop sha seed counter' u zs = Inr ys" for zs :: "'a list"
    by (rule Suc.IH) (use Suc.prems \<open>counter' = counter + 1\<close> in auto)
  with d show ?case by (simp add: Let_def)
qed simp

section \<open>Group sizes\<close>

lemma sum_list_base_remainder:
  "sum_list (map (\<lambda>i. b + (if i < r then 1 else 0)) [0..<k]) = k * b + min k r" for b r k :: nat
  by (induction k) auto

lemma group_sizes_ok:
  assumes "3 \<le> n"
  shows "\<exists>sizes. group_sizes n = Inr sizes \<and> sum_list sizes = n \<and> sizes \<noteq> [] \<and>
    (\<forall>s\<in>set sizes. 3 \<le> s \<and> s \<le> 5)"
proof (cases "n = 5")
  case True
  then show ?thesis by (simp add: group_sizes_def)
next
  case False
  define k where "k = (n + 3) div 4"
  define sizes where "sizes = map (\<lambda>i. n div k + (if i < n mod k then 1 else 0)) [0..<k]"
  have k: "0 < k" using assms by (simp add: k_def)
  have lo: "3 * k \<le> n" and hi: "n \<le> 4 * k" using assms False by (auto simp: k_def) presburger+
  have base: "3 \<le> n div k" "n div k \<le> 4"
    using lo hi k by (auto simp: less_eq_div_iff_mult_less_eq) (metis div_le_mono div_mult_self1_is_m mult.commute)
  have four: "n mod k = 0" if "n div k = 4"
  proof -
    have "n = 4 * k + n mod k" using that by (metis div_mult_mod_eq)
    with hi show ?thesis by simp
  qed
  have "sum_list sizes = k * (n div k) + n mod k"
    using k by (simp add: sizes_def sum_list_base_remainder min_absorb2 less_imp_le)
  then have sum: "sum_list sizes = n" by simp
  have all: "s \<in> {3, 4}" if "s \<in> set sizes" for s
  proof -
    from that obtain i where "i < k" "s = n div k + (if i < n mod k then 1 else 0)"
      by (auto simp: sizes_def)
    with base four show ?thesis by (cases "n div k = 4") auto
  qed
  then have "group_sizes n = Inr sizes"
    using assms False by (auto simp: group_sizes_def Let_def sizes_def k_def)
  moreover have "sizes \<noteq> []" using k by (simp add: sizes_def)
  ultimately show ?thesis using sum all by fastforce
qed

section \<open>Groups\<close>

lemma make_groups_ok:
  "(\<And>s. s \<in> set sizes \<Longrightarrow> 0 < s) \<Longrightarrow> offset + sum_list sizes \<le> length shuffled \<Longrightarrow>
   \<exists>groups. make_groups shuffled offset index sizes = Inr groups \<and>
     concat (map members groups) = take (sum_list sizes) (drop offset shuffled) \<and>
     map group_id groups = [index..<index + length sizes] \<and>
     map (\<lambda>g. length (members g)) groups = sizes \<and>
     (\<forall>g\<in>set groups. coordinator g = members g ! 0)"
proof (induction sizes arbitrary: offset index)
  case (Cons n sizes)
  let ?ms = "take n (drop offset shuffled)"
  have len: "length ?ms = n" using Cons.prems by auto
  with Cons.prems(1) [of n] obtain first rest where ms: "?ms = first # rest"
    by (cases ?ms) auto
  from Cons.IH [of "offset + n" "index + 1"] Cons.prems obtain groups where g:
    "make_groups shuffled (offset + n) (index + 1) sizes = Inr groups"
    "concat (map members groups) = take (sum_list sizes) (drop (offset + n) shuffled)"
    "map group_id groups = [index + 1..<index + 1 + length sizes]"
    "map (\<lambda>g. length (members g)) groups = sizes"
    "\<forall>g\<in>set groups. coordinator g = members g ! 0" by auto
  have "first # rest @ take (sum_list sizes) (drop (offset + n) shuffled)
      = take (n + sum_list sizes) (drop offset shuffled)"
    using ms by (simp add: take_add add.commute)
  moreover have "index # [index + 1..<index + 1 + length sizes] = [index..<index + length (n # sizes)]"
    by (simp add: upt_conv_Cons del: upt_Suc)
  ultimately show ?case
    using g ms len by (simp del: upt_Suc)
qed simp

section \<open>The reduction tree\<close>

text \<open>The children of a node, none for a leaf, and the position of a node in the sorted tree.\<close>

fun kids :: "node \<Rightarrow> node list" where
  "kids (Leaf _ _) = []"
| "kids (Inner _ cs _ _ _) = cs"

abbreviation node_pos :: "node \<Rightarrow> int \<times> nat" where
  "node_pos n \<equiv> (node_level n, node_index n)"

fun children_first :: "node set \<Rightarrow> node list \<Rightarrow> bool" where
  "children_first S [] = True"
| "children_first S (n # ns) = (set (kids n) \<subseteq> S \<and> children_first (insert n S) ns)"

lemma children_first_append:
  "children_first S (xs @ ys) \<longleftrightarrow> children_first S xs \<and> children_first (S \<union> set xs) ys"
  by (induction xs arbitrary: S) auto

lemma children_first_mono: "children_first S xs \<Longrightarrow> S \<subseteq> T \<Longrightarrow> children_first T xs"
  by (induction xs arbitrary: S T) (auto, meson insert_mono)

lemma pair_up_kids: "concat (map kids (pair_up lv i ns)) = ns"
  by (induction lv i ns rule: pair_up.induct) auto

lemma pair_up_walk:
  "mset (concat (map walk_nodes (pair_up lv i ns)))
   = mset (pair_up lv i ns) + mset (concat (map walk_nodes ns))"
  by (induction lv i ns rule: pair_up.induct) auto

lemma pair_up_pos: "map node_pos (pair_up lv i ns) = map (\<lambda>j. (int lv, j)) [i..<i + (length ns + 1) div 2]"
  by (induction lv i ns rule: pair_up.induct) (auto simp: upt_conv_Cons)

definition pair_action :: "node list \<Rightarrow> task_action" where
  "pair_action cs = (if length cs = 2 then TREE_COMBINE else TREE_CARRY)"

lemma pair_action_simps [simp]: "pair_action [a] = TREE_CARRY" "pair_action [a, b] = TREE_COMBINE"
  by (simp_all add: pair_action_def)

lemma pair_up_inner: "n \<in> set (pair_up lv i ns) \<Longrightarrow>
   \<exists>op cs act j. n = Inner op cs lv act j \<and> cs \<noteq> [] \<and> op = operator (hd cs) \<and>
     act = pair_action cs"
  by (induction lv i ns rule: pair_up.induct) auto

lemma children_first_pair_up: "set ns \<subseteq> S \<Longrightarrow> children_first S (pair_up lv i ns)"
proof (induction lv i ns arbitrary: S rule: pair_up.induct)
  case (3 lv i a b rest)
  have "children_first (insert (Inner (operator a) [a, b] lv TREE_COMBINE i) S) (pair_up lv (i + 1) rest)"
    using "3.prems" by (intro "3.IH") auto
  with "3.prems" show ?case by simp
qed auto

definition inner_node :: "nat \<Rightarrow> node \<Rightarrow> bool" where
  "inner_node lv n \<longleftrightarrow> (\<exists>op cs l act j. n = Inner op cs l act j \<and> lv \<le> l \<and> cs \<noteq> [] \<and> op = operator (hd cs) \<and>
     act = pair_action cs)"

text \<open>What one run of the level loop adds to \<open>tree_nodes\<close>.\<close>

lemma build_levels_spec:
  "active \<noteq> [] \<Longrightarrow> \<exists>rt new. build_levels lv active acc = ([rt], acc @ new) \<and>
     mset (walk_nodes rt) = mset new + mset (concat (map walk_nodes active)) \<and>
     mset (concat (map kids new)) + {#rt#} = mset active + mset new \<and>
     children_first (set active) new \<and>
     sorted_wrt (<) (map node_pos new) \<and> (\<forall>n\<in>set new. inner_node lv n) \<and>
     operator rt = operator (hd active) \<and>
     (\<exists>d. length active \<le> 2 ^ d \<and> (0 < d \<longrightarrow> 2 ^ d < 2 * length active) \<and>
       node_level ` set new = int ` {lv..<lv + d})"
proof (induction lv active acc rule: build_levels.induct)
  case (1 lv active acc)
  show ?case
  proof (cases "1 < length active")
    case False
    with "1.prems" obtain a where a: "active = [a]"
      by (cases active) auto
    have d: "\<exists>d. length active \<le> 2 ^ d \<and> (0 < d \<longrightarrow> 2 ^ d < 2 * length active) \<and>
       node_level ` set [] = int ` {lv..<lv + d}" using a by (intro exI [of _ 0]) simp
    with a show ?thesis
      by (intro exI [of _ a] exI [of _ "[]"]) (simp add: build_levels.simps [of lv "[a]" acc])
  next
    case True
    let ?f = "pair_up lv 0 active"
    have "?f \<noteq> []" using True length_pair_up [of lv 0 active] by auto
    from "1.IH" [OF True refl this] obtain rt new d where IH:
      "build_levels (lv + 1) ?f (acc @ ?f) = ([rt], (acc @ ?f) @ new)"
      "mset (walk_nodes rt) = mset new + mset (concat (map walk_nodes ?f))"
      "mset (concat (map kids new)) + {#rt#} = mset ?f + mset new"
      "children_first (set ?f) new" "sorted_wrt (<) (map node_pos new)"
      "\<forall>n\<in>set new. inner_node (lv + 1) n" "operator rt = operator (hd ?f)"
      "length ?f \<le> 2 ^ d" "0 < d \<longrightarrow> 2 ^ d < 2 * length ?f"
      "node_level ` set new = int ` {lv + 1..<lv + 1 + d}" by auto
    have build: "build_levels lv active acc = ([rt], acc @ (?f @ new))"
      using True IH(1) by (simp add: build_levels.simps [of lv active acc] Let_def)
    have walk: "mset (walk_nodes rt) = mset (?f @ new) + mset (concat (map walk_nodes active))"
      using IH(2) pair_up_walk [of lv 0 active] by simp
    have kid: "mset (concat (map kids (?f @ new))) + {#rt#} = mset active + mset (?f @ new)"
      using IH(3) pair_up_kids [of lv 0 active] by simp
    have first: "children_first (set active) (?f @ new)"
      using IH(4) children_first_pair_up [of active "set active" lv 0]
      by (auto simp: children_first_append intro: children_first_mono)
    have lt: "node_pos m < node_pos n" if "m \<in> set ?f" "n \<in> set new" for m n
    proof -
      have "node_level m = int lv" using pair_up_inner [OF that(1)] by auto
      moreover have "int lv < node_level n" using IH(6) that(2) by (auto simp: inner_node_def)
      ultimately show ?thesis by (simp add: less_prod_def)
    qed
    have "sorted_wrt (<) (map node_pos ?f)"
      by (simp only: pair_up_pos) (auto simp: sorted_wrt_map less_prod_def intro: sorted_wrt_mono_rel [OF _ sorted_wrt_upt])
    then have sorted: "sorted_wrt (<) (map node_pos (?f @ new))"
      using IH(5) lt by (auto simp: sorted_wrt_append)
    have inner: "\<forall>n\<in>set (?f @ new). inner_node lv n"
    proof
      fix n assume "n \<in> set (?f @ new)"
      then show "inner_node lv n"
        using pair_up_inner [of n lv 0 active] IH(6) by (force simp: inner_node_def)
    qed
    have op: "operator rt = operator (hd active)"
      using IH(7) True by (cases "(lv, 0::nat, active)" rule: pair_up.cases) auto
    have depth: "length active \<le> 2 ^ Suc d \<and> (0 < Suc d \<longrightarrow> 2 ^ Suc d < 2 * length active)"
    proof (cases "d = 0")
      case True
      with IH(8) length_pair_up [of lv 0 active] \<open>1 < length active\<close> show ?thesis by simp
    next
      case False
      then obtain e where "(2::nat) ^ d = 2 * e" by (cases d) auto
      with False IH(8,9) length_pair_up [of lv 0 active] show ?thesis by simp linarith
    qed
    have "node_level ` set ?f = {int lv}"
    proof -
      have "\<forall>n\<in>set ?f. node_level n = int lv" using pair_up_inner [of _ lv 0 active] by fastforce
      with \<open>?f \<noteq> []\<close> show ?thesis by (cases ?f) auto
    qed
    moreover have "{lv..<lv + Suc d} = insert lv {lv + 1..<lv + 1 + d}" by auto
    ultimately have levels: "node_level ` set (?f @ new) = int ` {lv..<lv + Suc d}"
      using IH(10) by (simp add: image_Un)
    show ?thesis
      using build walk kid first sorted inner op depth levels by blast
  qed
qed

section \<open>Targets\<close>

fun target_pairs :: "node \<Rightarrow> string \<Rightarrow> (node_key \<times> string) list" where
  "target_pairs (Leaf op g) target = [(LeafId g, target)]"
| "target_pairs (Inner op cs l a i) target =
     (InnerId l i, target) # concat (map (\<lambda>c. target_pairs c op) cs)"

fun store_pairs :: "('k \<times> 'v) list \<Rightarrow> ('k \<rightharpoonup> 'v) \<Rightarrow> ('k \<rightharpoonup> 'v)" where
  "store_pairs [] m = m"
| "store_pairs ((k, v) # ps) m = store_pairs ps (m(k \<mapsto> v))"

lemma store_pairs_append: "store_pairs (ps @ qs) m = store_pairs qs (store_pairs ps m)"
  by (induction ps m rule: store_pairs.induct) (simp_all only: append.simps store_pairs.simps)

lemma store_pairs_other: "k \<notin> fst ` set ps \<Longrightarrow> store_pairs ps m k = m k"
  by (induction ps m rule: store_pairs.induct) auto

lemma assign_targets_pairs: "assign_targets n t m = store_pairs (target_pairs n t) m"
proof (induction n t m rule: assign_targets.induct)
  case (2 op cs l a i t m)
  have "fold (\<lambda>c. assign_targets c op) ds m' = store_pairs (concat (map (\<lambda>c. target_pairs c op) ds)) m'"
    if "set ds \<subseteq> set cs" for ds m'
    using that by (induction ds arbitrary: m') (simp_all add: 2 store_pairs_append)
  then show ?case by simp
qed simp

lemma target_pairs_keys: "map fst (target_pairs n t) = map node_id (walk_nodes n)"
  by (induction n t rule: target_pairs.induct) (auto simp: map_concat comp_def intro!: arg_cong [where f = concat])

lemma store_pairs_lookup:
  "distinct (map fst ps) \<Longrightarrow> (k, v) \<in> set ps \<Longrightarrow> store_pairs ps m k = Some v"
proof (induction ps m rule: store_pairs.induct)
  case (2 l u ps m)
  show ?case
  proof (cases "(k, v) = (l, u)")
    case True
    with "2.prems" show ?thesis by (simp add: store_pairs_other)
  next
    case False
    with "2.prems" have "store_pairs ps (m(l \<mapsto> u)) k = Some v" by (intro "2.IH") auto
    then show ?thesis by (simp only: store_pairs.simps)
  qed
qed simp

lemma walk_self: "n \<in> set (walk_nodes n)"
  by (cases n) auto

lemma walk_kids: "p \<in> set (walk_nodes n) \<Longrightarrow> c \<in> set (kids p) \<Longrightarrow> c \<in> set (walk_nodes n)"
proof (induction n rule: walk_nodes.induct)
  case (2 op cs l a i)
  then show ?case using walk_self by (cases "p = Inner op cs l a i") fastforce+
qed simp

lemma target_pairs_kid:
  "p \<in> set (walk_nodes n) \<Longrightarrow> c \<in> set (kids p) \<Longrightarrow> (node_id c, operator p) \<in> set (target_pairs n t)"
proof (induction n t rule: target_pairs.induct)
  case (2 op cs l a i t)
  have hd: "(node_id c, op) \<in> set (target_pairs c op)" for c op
    by (cases c) auto
  show ?case
  proof (cases "p = Inner op cs l a i")
    case True
    with "2.prems" hd show ?thesis by auto
  next
    case False
    with "2.prems" obtain d where "d \<in> set cs" "p \<in> set (walk_nodes d)" by auto
    with "2.IH" [of d] "2.prems"(2) show ?thesis by auto
  qed
qed simp

text \<open>With distinct identities every node's target is the operator of its parent.\<close>

lemma target_of_kid:
  assumes "distinct (map node_id (walk_nodes rt))" "p \<in> set (walk_nodes rt)" "c \<in> set (kids p)"
  shows "assign_targets rt t m (node_id c) = Some (operator p)"
  unfolding assign_targets_pairs
  by (rule store_pairs_lookup) (use assms target_pairs_kid target_pairs_keys in auto)

lemma target_of_root:
  assumes "distinct (map node_id (walk_nodes rt))"
  shows "assign_targets rt t m (node_id rt) = Some t"
proof -
  have "(node_id rt, t) \<in> set (target_pairs rt t)" by (cases rt) auto
  with assms show ?thesis
    unfolding assign_targets_pairs by (intro store_pairs_lookup) (auto simp: target_pairs_keys)
qed

lemma target_of_node:
  assumes "distinct (map node_id (walk_nodes rt))" "n \<in> set (walk_nodes rt)"
  shows "\<exists>v. assign_targets rt t m (node_id n) = Some v"
proof -
  have "node_id n \<in> fst ` set (target_pairs rt t)"
    using assms(2) target_pairs_keys [of rt t] by (metis image_eqI list.set_map)
  then obtain v where "(node_id n, v) \<in> set (target_pairs rt t)" by auto
  with assms(1) show ?thesis
    unfolding assign_targets_pairs by (auto intro!: store_pairs_lookup simp: target_pairs_keys)
qed

section \<open>The task list in closed form\<close>

fun node_task :: "node \<Rightarrow> string" where
  "node_task (Leaf _ g) = unblind_id g"
| "node_task (Inner _ _ l _ i) = tree_id l i"

fun node_action :: "node \<Rightarrow> task_action" where
  "node_action (Leaf _ _) = GROUP_UNBLIND"
| "node_action (Inner _ _ _ a _) = a"

definition tree_task :: "string \<Rightarrow> node \<Rightarrow> task" where
  "tree_task target n = \<lparr>task_id = node_task n, action = node_action n, stage = TREE,
     level = node_level n, sender = operator n, receiver = target,
     dependencies = map node_task (kids n)\<rparr>"

lemma group_loop_ok:
  assumes "\<And>g. g \<in> set gs \<Longrightarrow> 2 \<le> length (members g)"
    and "\<And>g. g \<in> set gs \<Longrightarrow> \<exists>n\<in>set (walk_nodes rt). node_id n = LeafId (group_id g)"
    and "\<And>g. g \<in> set gs \<Longrightarrow> \<exists>v. T (LeafId (group_id g)) = Some v"
  shows "\<exists>ids'. group_loop T rt ids gs =
      Inr (concat (map (\<lambda>g. group_tasks (group_id g) (members g) (the (T (LeafId (group_id g))))) gs), ids') \<and>
    (\<forall>j. ids' (LeafId j) = (if j \<in> group_id ` set gs then Some (unblind_id j) else ids (LeafId j)))"
  using assms
proof (induction gs arbitrary: ids)
  case (Cons g gs)
  let ?P = "\<lambda>n. node_id n = LeafId (group_id g)"
  from Cons.prems(2) [of g] have "List.find ?P (walk_nodes rt) \<noteq> None"
    by (auto simp: find_None_iff)
  then obtain leaf where leaf: "List.find ?P (walk_nodes rt) = Some leaf" by auto
  then have id: "node_id leaf = LeafId (group_id g)" by (rule find_SomeD1)
  from Cons.prems(3) [of g] obtain v where v: "T (LeafId (group_id g)) = Some v" by auto
  let ?ids = "ids(LeafId (group_id g) \<mapsto> unblind_id (group_id g))"
  have "\<exists>ids'. group_loop T rt ?ids gs =
      Inr (concat (map (\<lambda>g. group_tasks (group_id g) (members g) (the (T (LeafId (group_id g))))) gs), ids') \<and>
    (\<forall>j. ids' (LeafId j) = (if j \<in> group_id ` set gs then Some (unblind_id j) else ?ids (LeafId j)))"
    by (rule Cons.IH) (use Cons.prems in auto)
  then obtain ids' where ids': "group_loop T rt ?ids gs =
      Inr (concat (map (\<lambda>g. group_tasks (group_id g) (members g) (the (T (LeafId (group_id g))))) gs), ids')"
    "\<forall>j. ids' (LeafId j) = (if j \<in> group_id ` set gs then Some (unblind_id j) else ?ids (LeafId j))"
    by blast
  have two: "\<not> length (members g) < 2" using Cons.prems(1) [of g] by simp
  from ids'(2) have "\<forall>j. ids' (LeafId j)
      = (if j \<in> group_id ` set (g # gs) then Some (unblind_id j) else ids (LeafId j))" by auto
  moreover have "group_loop T rt ids (g # gs) = Inr (concat (map (\<lambda>g.
      group_tasks (group_id g) (members g) (the (T (LeafId (group_id g))))) (g # gs)), ids')"
    by (simp only: group_loop.simps leaf id v two ids'(1) option.case attempt_simps prod.case if_False
        list.map concat.simps option.sel)
  ultimately show ?case by blast
qed simp

lemma those_map_Some: "(\<And>x. x \<in> set xs \<Longrightarrow> f x = Some (g x)) \<Longrightarrow> those (map f xs) = Some (map g xs)"
  by (induction xs) auto

lemma tree_loop_ok:
  assumes "children_first S nodes" "\<forall>n\<in>set nodes. inner_node lv n"
    and "\<forall>n\<in>S. ids (node_id n) = Some (node_task n)"
    and "\<forall>n\<in>set nodes. \<exists>v. T (node_id n) = Some v"
  shows "\<exists>ids'. tree_loop T ids nodes = Inr (map (\<lambda>n. tree_task (the (T (node_id n))) n) nodes, ids') \<and>
    (\<forall>n\<in>S \<union> set nodes. ids' (node_id n) = Some (node_task n))"
  using assms
proof (induction nodes arbitrary: S ids)
  case (Cons n nodes)
  from Cons.prems(2) obtain op cs l a i where n: "n = Inner op cs l a i"
    by (auto simp: inner_node_def)
  from Cons.prems(4) n obtain v where v: "T (InnerId l i) = Some v" by auto
  have deps: "those (map (\<lambda>c. ids (node_id c)) cs) = Some (map node_task cs)"
    using Cons.prems(1,3) n by (intro those_map_Some) auto
  have same: "node_task m = node_task k" if "node_id m = node_id k" for m k
    using that by (cases m; cases k) auto
  let ?ids = "ids(InnerId l i \<mapsto> tree_id l i)"
  have known: "\<forall>m\<in>insert n S. ?ids (node_id m) = Some (node_task m)"
    using Cons.prems(3) n same [of _ n] by auto
  have "\<exists>ids'. tree_loop T ?ids nodes = Inr (map (\<lambda>n. tree_task (the (T (node_id n))) n) nodes, ids') \<and>
    (\<forall>m\<in>insert n S \<union> set nodes. ids' (node_id m) = Some (node_task m))"
    by (rule Cons.IH) (use Cons.prems known in auto)
  then obtain ids' where ids':
    "tree_loop T ?ids nodes = Inr (map (\<lambda>n. tree_task (the (T (node_id n))) n) nodes, ids')"
    "\<forall>m\<in>insert n S \<union> set nodes. ids' (node_id m) = Some (node_task m)" by blast
  have "tree_loop T ids (n # nodes) = Inr (map (\<lambda>n. tree_task (the (T (node_id n))) n) (n # nodes), ids')"
    by (simp only: n tree_loop.simps v deps ids'(1) option.case attempt_simps prod.case)
      (simp add: tree_task_def v)
  with ids'(2) show ?case by auto
qed simp

section \<open>The shape of a plan\<close>

abbreviation group_leaf :: "tree_group \<Rightarrow> node" where
  "group_leaf g \<equiv> Leaf (coordinator g) (group_id g)"

text \<open>
  The task list of a plan over groups \<open>gs\<close> and inner nodes \<open>nodes\<close> (in sorted order), when
  the nodes' targets are \<open>T\<close>.
\<close>

definition task_list :: "(node_key \<rightharpoonup> string) \<Rightarrow> tree_group list \<Rightarrow> node list \<Rightarrow> task list" where
  "task_list T gs nodes =
     concat (map (\<lambda>g. group_tasks (group_id g) (members g) (the (T (LeafId (group_id g))))) gs)
     @ map (\<lambda>n. tree_task (the (T (node_id n))) n) nodes"

text \<open>Everything the proofs below need to know about a derived plan.\<close>

definition plan_tree :: "tree_group list \<Rightarrow> node \<Rightarrow> node list \<Rightarrow> bool" where
  "plan_tree gs rt nodes \<longleftrightarrow>
     gs \<noteq> [] \<and> map group_id gs = [0..<length gs] \<and>
     (\<forall>g\<in>set gs. 3 \<le> length (members g) \<and> length (members g) \<le> 5 \<and> coordinator g = members g ! 0) \<and>
     mset (walk_nodes rt) = mset nodes + mset (map group_leaf gs) \<and>
     mset (concat (map kids nodes)) + {#rt#} = mset (map group_leaf gs) + mset nodes \<and>
     children_first (set (map group_leaf gs)) nodes \<and>
     sorted_wrt (<) (map node_pos nodes) \<and> (\<forall>n\<in>set nodes. inner_node 0 n) \<and>
     operator rt = coordinator (hd gs) \<and>
     node_level ` set nodes = int ` {0..<ceillog2 (length gs)}"

lemma plan_tree_first: "plan_tree gs rt nodes \<Longrightarrow> children_first (set (map group_leaf gs)) nodes"
  unfolding plan_tree_def by (elim conjE) assumption

lemma plan_tree_kid_counts:
  "plan_tree gs rt nodes \<Longrightarrow> mset (concat (map kids nodes)) + {#rt#} = mset (map group_leaf gs) + mset nodes"
  unfolding plan_tree_def by (elim conjE) assumption

lemma plan_tree_coordinator: "plan_tree gs rt nodes \<Longrightarrow> g \<in> set gs \<Longrightarrow> coordinator g = members g ! 0"
  unfolding plan_tree_def by (elim conjE) (drule (1) bspec, elim conjE, assumption)

lemma plan_tree_ids: "plan_tree gs rt nodes \<Longrightarrow> map group_id gs = [0..<length gs]"
  unfolding plan_tree_def by (elim conjE) assumption

lemma plan_tree_members:
  "plan_tree gs rt nodes \<Longrightarrow>
   \<forall>g\<in>set gs. 3 \<le> length (members g) \<and> length (members g) \<le> 5 \<and> coordinator g = members g ! 0"
  unfolding plan_tree_def by (elim conjE) assumption

lemma plan_tree_operator: "plan_tree gs rt nodes \<Longrightarrow> operator rt = coordinator (hd gs)"
  unfolding plan_tree_def by (elim conjE) assumption

lemma plan_tree_levels: "plan_tree gs rt nodes \<Longrightarrow> node_level ` set nodes = int ` {0..<ceillog2 (length gs)}"
  unfolding plan_tree_def by (elim conjE) assumption

lemma plan_tree_inner_node: "plan_tree gs rt nodes \<Longrightarrow> n \<in> set nodes \<Longrightarrow> inner_node 0 n"
  unfolding plan_tree_def by (elim conjE) (drule (1) bspec, assumption)

lemma plan_tree_keys:
  assumes "plan_tree gs rt nodes"
  shows "distinct (map node_id (walk_nodes rt))"
proof -
  let ?leaves = "map group_leaf gs"
  have leaf: "map node_id ?leaves = map LeafId [0..<length gs]"
  proof -
    have ids: "map group_id gs = [0..<length gs]" using assms by (simp add: plan_tree_def)
    have "map node_id ?leaves = map LeafId (map group_id gs)" by simp
    then show ?thesis by (simp only: ids)
  qed
  have "inj_on node_id (set nodes)"
  proof (rule inj_onI)
    fix m n assume mn: "m \<in> set nodes" "n \<in> set nodes" "node_id m = node_id n"
    have inj: "inj_on node_pos (set nodes)" and "distinct nodes"
      using assms by (auto simp: plan_tree_def strict_sorted_iff distinct_map)
    moreover have "node_pos m = node_pos n"
      using mn(3) by (cases m; cases n) auto
    ultimately show "m = n" using mn by (meson inj_onD)
  qed
  moreover have "distinct nodes"
    using assms by (auto simp: plan_tree_def strict_sorted_iff distinct_map)
  ultimately have nodes: "distinct (map node_id nodes)" by (simp add: distinct_map)
  have "node_id n \<noteq> LeafId j" if "n \<in> set nodes" for n j
    using assms that by (auto simp: plan_tree_def inner_node_def)
  then have "distinct (map node_id nodes @ map node_id ?leaves)"
    using nodes leaf by (auto simp: distinct_map inj_on_def)
  moreover have "mset (map node_id (walk_nodes rt)) = mset (map node_id nodes @ map node_id ?leaves)"
  proof -
    have "mset (walk_nodes rt) = mset (nodes @ ?leaves)" using assms by (simp add: plan_tree_def)
    then have "image_mset node_id (mset (walk_nodes rt)) = image_mset node_id (mset (nodes @ ?leaves))"
      by (rule arg_cong)
    then show ?thesis by (simp only: mset_map [symmetric] map_append)
  qed
  ultimately show ?thesis by (metis mset_eq_imp_distinct_iff)
qed

lemma plan_tree_nodes:
  assumes "plan_tree gs rt nodes"
  shows "set (walk_nodes rt) = set nodes \<union> set (map group_leaf gs)"
proof -
  have "set_mset (mset (walk_nodes rt)) = set_mset (mset nodes + mset (map group_leaf gs))"
    using assms by (simp add: plan_tree_def)
  then show ?thesis by simp
qed

lemma build_levels_plan_tree:
  assumes "gs \<noteq> []" "map group_id gs = [0..<length gs]"
    "\<forall>g\<in>set gs. 3 \<le> length (members g) \<and> length (members g) \<le> 5 \<and> coordinator g = members g ! 0"
  shows "\<exists>rt nodes. build_levels 0 (map group_leaf gs) [] = ([rt], nodes) \<and> plan_tree gs rt nodes"
proof -
  have "concat (map walk_nodes (map group_leaf hs)) = map group_leaf hs" for hs
    by (induction hs) auto
  moreover obtain rt new d where spec:
    "build_levels 0 (map group_leaf gs) [] = ([rt], [] @ new)"
    "mset (walk_nodes rt) = mset new + mset (concat (map walk_nodes (map group_leaf gs)))"
    "mset (concat (map kids new)) + {#rt#} = mset (map group_leaf gs) + mset new"
    "children_first (set (map group_leaf gs)) new"
    "sorted_wrt (<) (map node_pos new)" "\<forall>n\<in>set new. inner_node 0 n"
    "operator rt = operator (hd (map group_leaf gs))"
    "length (map group_leaf gs) \<le> 2 ^ d" "0 < d \<longrightarrow> 2 ^ d < 2 * length (map group_leaf gs)"
    "node_level ` set new = int ` {0..<0 + d}"
    using build_levels_spec [of "map group_leaf gs" 0 "[]"] assms(1) by auto
  moreover have "d = ceillog2 (length gs)"
    using spec(8,9) assms(1) by (cases "d = 0") (auto intro!: ceillog2_eqI [symmetric])
  ultimately show ?thesis
    using assms by (intro exI [of _ rt] exI [of _ new]) (auto simp: plan_tree_def hd_map)
qed

lemma derive_tree_plan_eq:
  assumes dist: "distinct (map client_id manifest)" and three: "3 \<le> length manifest"
    and sh: "shuffle sha (map client_id manifest)
      (sha (domain_bytes row ''tree-topology'' @ encode (canonical_json (manifest_json manifest)))) = Inr shuffled"
  shows "\<exists>gs rt nodes. plan_tree gs rt nodes \<and> concat (map members gs) = shuffled \<and>
    derive_tree_plan sha row manifest = Inr
      \<lparr>plan_protocol_version = ''1.1'', plan_participants = shuffled, plan_groups = gs,
       plan_tasks = task_list (assign_targets rt (operator rt) Map.empty) gs nodes,
       root_client_id = operator rt, root_task_id = node_task rt,
       tree_levels = ceillog2 (length gs)\<rparr>"
proof -
  have len: "length shuffled = length manifest"
    using shuffle_mset [OF sh] by (metis length_map mset_eq_length)
  obtain sizes where sizes: "group_sizes (length shuffled) = Inr sizes"
    "sum_list sizes = length shuffled" "sizes \<noteq> []" "\<forall>s\<in>set sizes. 3 \<le> s \<and> s \<le> 5"
    using group_sizes_ok [of "length shuffled"] three len by auto
  obtain gs where gs: "make_groups shuffled 0 0 sizes = Inr gs"
    "concat (map members gs) = shuffled" "map group_id gs = [0..<length sizes]"
    "map (\<lambda>g. length (members g)) gs = sizes" "\<forall>g\<in>set gs. coordinator g = members g ! 0"
    using make_groups_ok [of sizes 0 shuffled 0] sizes by fastforce
  have lens: "length gs = length sizes" using gs(4) by auto
  have ne: "gs \<noteq> []" using lens sizes(3) by auto
  have ids: "map group_id gs = [0..<length gs]" by (simp only: gs(3) lens)
  have sz: "\<forall>g\<in>set gs. 3 \<le> length (members g) \<and> length (members g) \<le> 5 \<and> coordinator g = members g ! 0"
    using gs(4,5) sizes(4) by auto
  obtain rt nodes where
    build: "build_levels 0 (map group_leaf gs) [] = ([rt], nodes)" and tree: "plan_tree gs rt nodes"
    using build_levels_plan_tree [OF ne ids sz] by blast
  let ?T = "assign_targets rt (operator rt) Map.empty"
  have keys: "distinct (map node_id (walk_nodes rt))" by (rule plan_tree_keys [OF tree])
  have nodes: "set (walk_nodes rt) = set nodes \<union> set (map group_leaf gs)"
    by (rule plan_tree_nodes [OF tree])
  have targets: "\<exists>v. ?T (node_id n) = Some v" if "n \<in> set nodes \<union> set (map group_leaf gs)" for n
    using target_of_node [OF keys] nodes that by blast
  have "\<exists>ids. group_loop ?T rt Map.empty gs = Inr (concat (map (\<lambda>g.
        group_tasks (group_id g) (members g) (the (?T (LeafId (group_id g))))) gs), ids) \<and>
      (\<forall>j. ids (LeafId j) = (if j \<in> group_id ` set gs then Some (unblind_id j) else Map.empty (LeafId j)))"
  proof (rule group_loop_ok)
    fix g assume g: "g \<in> set gs"
    show "2 \<le> length (members g)" using tree g by (fastforce simp: plan_tree_def)
    show "\<exists>n\<in>set (walk_nodes rt). node_id n = LeafId (group_id g)"
      using g nodes by (intro bexI [of _ "group_leaf g"]) auto
    show "\<exists>v. ?T (LeafId (group_id g)) = Some v" using targets [of "group_leaf g"] g by auto
  qed
  then obtain ids where gl: "group_loop ?T rt Map.empty gs = Inr (concat (map (\<lambda>g.
        group_tasks (group_id g) (members g) (the (?T (LeafId (group_id g))))) gs), ids)"
      "\<forall>g\<in>set gs. ids (LeafId (group_id g)) = Some (unblind_id (group_id g))" by auto
  have "\<exists>ids'. tree_loop ?T ids nodes = Inr (map (\<lambda>n. tree_task (the (?T (node_id n))) n) nodes, ids') \<and>
      (\<forall>n\<in>set (map group_leaf gs) \<union> set nodes. ids' (node_id n) = Some (node_task n))"
    by (rule tree_loop_ok [where lv = 0])
      (use tree gl(2) targets in \<open>auto simp: plan_tree_def\<close>)
  then obtain ids' where tl:
    "tree_loop ?T ids nodes = Inr (map (\<lambda>n. tree_task (the (?T (node_id n))) n) nodes, ids')"
    "ids' (node_id rt) = Some (node_task rt)" using nodes walk_self [of rt] by auto
  have sorted: "sort_key node_pos nodes = nodes"
    using tree by (intro sort_key_id_if_sorted) (auto simp: plan_tree_def strict_sorted_iff)
  have levels: "(if 1 < length gs then ceillog2 (length gs) else 0) = ceillog2 (length gs)"
    by (cases "length gs") auto
  have rd: "length (remdups (map client_id manifest)) = length (map client_id manifest)"
    using dist by (simp only: distinct_remdups_id)
  have "derive_tree_plan sha row manifest = Inr
      \<lparr>plan_protocol_version = ''1.1'', plan_participants = shuffled, plan_groups = gs,
       plan_tasks = task_list ?T gs nodes, root_client_id = operator rt,
       root_task_id = node_task rt, tree_levels = ceillog2 (length gs)\<rparr>"
    unfolding derive_tree_plan_def Let_def
    by (simp only: rd sh sizes(1) gs(1) build sorted gl(1) tl levels task_list_def attempt_simps
        prod.case list.case option.case simp_thms if_False)
  with tree gs(2) show ?thesis by blast
qed

lemma derive_tree_plan_cases:
  assumes "derive_tree_plan sha row manifest = Inr plan"
  shows "distinct (map client_id manifest) \<and> 3 \<le> length manifest \<and>
    (\<exists>rt nodes. plan_tree (plan_groups plan) rt nodes \<and>
       mset (plan_participants plan) = mset (map client_id manifest) \<and>
       concat (map members (plan_groups plan)) = plan_participants plan \<and>
       plan_tasks plan = task_list (assign_targets rt (operator rt) Map.empty) (plan_groups plan) nodes \<and>
       root_client_id plan = operator rt \<and> root_task_id plan = node_task rt \<and>
       tree_levels plan = ceillog2 (length (plan_groups plan)))"
proof -
  let ?seed = "sha (domain_bytes row ''tree-topology'' @ encode (canonical_json (manifest_json manifest)))"
  from assms have dist: "distinct (map client_id manifest)"
    by (auto simp: derive_tree_plan_def Let_def split: if_splits intro: card_distinct
        simp flip: length_remdups_card_conv)
  with assms obtain shuffled where sh: "shuffle sha (map client_id manifest) ?seed = Inr shuffled"
    by (auto simp: derive_tree_plan_def Let_def attempt_Inr split: if_splits)
  have len: "length shuffled = length manifest"
    using shuffle_mset [OF sh] by (metis length_map mset_eq_length)
  have three: "3 \<le> length manifest"
  proof (rule ccontr)
    assume "\<not> 3 \<le> length manifest"
    then have "\<exists>e. group_sizes (length shuffled) = Inl e" using len by (simp add: group_sizes_def)
    with assms sh dist show False
      by (auto simp: derive_tree_plan_def Let_def split: if_splits)
  qed
  from derive_tree_plan_eq [OF dist three sh] assms shuffle_mset [OF sh] dist three
  show ?thesis by fastforce
qed

section \<open>Task identifiers\<close>

lemma not_digit_dash [simp]: "\<not> is_digit (CHR ''-'')"
  by (simp add: is_digit_def)

lemma group_prefix_inj:
  "''g'' @ str_nat g @ CHR ''-'' # x = ''g'' @ str_nat h @ CHR ''-'' # y \<Longrightarrow> g = h \<and> x = y"
  using str_nat_append_inj [of g "CHR ''-'' # x" h "CHR ''-'' # y"] by auto

lemma task_id_eqs [simp]:
  "start_id g = start_id h \<longleftrightarrow> g = h"
  "unblind_id g = unblind_id h \<longleftrightarrow> g = h"
  "add_id g p = add_id h q \<longleftrightarrow> g = h \<and> p = q"
  "start_id g \<noteq> add_id h q" "add_id h q \<noteq> start_id g"
  "start_id g \<noteq> unblind_id h" "unblind_id h \<noteq> start_id g"
  "add_id g p \<noteq> unblind_id h" "unblind_id h \<noteq> add_id g p"
proof -
  note dest = group_prefix_inj [of g _ h]
  show "start_id g = start_id h \<longleftrightarrow> g = h"
    using dest by (auto simp: start_id_def)
  show "unblind_id g = unblind_id h \<longleftrightarrow> g = h"
    using dest by (auto simp: unblind_id_def)
  show "add_id g p = add_id h q \<longleftrightarrow> g = h \<and> p = q"
    using dest [of "''add-'' @ str_nat p" "''add-'' @ str_nat q"] by (auto simp: add_id_def)
  show 1: "start_id g \<noteq> add_id h q"
    using dest [of "''start''" "''add-'' @ str_nat q"] by (auto simp: add_id_def start_id_def)
  show 2: "start_id g \<noteq> unblind_id h"
    using dest [of "''start''" "''unblind''"] by (auto simp: unblind_id_def start_id_def)
  show 3: "add_id g p \<noteq> unblind_id h"
    using dest [of "''add-'' @ str_nat p" "''unblind''"] by (auto simp: add_id_def unblind_id_def)
  show "add_id h q \<noteq> start_id g" "unblind_id h \<noteq> start_id g" "unblind_id h \<noteq> add_id g p"
    using 1 2 3 by metis+
qed

lemma tree_id_eq [simp]: "tree_id l i = tree_id m j \<longleftrightarrow> l = m \<and> i = j"
  using str_nat_append_inj [of l "CHR ''-'' # str_nat i" m "CHR ''-'' # str_nat j"]
  by (auto simp: tree_id_def)

lemma tree_group_ids [simp]:
  "tree_id l i \<noteq> start_id g" "tree_id l i \<noteq> add_id g p" "tree_id l i \<noteq> unblind_id g"
  "start_id g \<noteq> tree_id l i" "add_id g p \<noteq> tree_id l i" "unblind_id g \<noteq> tree_id l i"
  by (auto simp: tree_id_def start_id_def add_id_def unblind_id_def)

lemma node_task_inj: "node_task m = node_task n \<longleftrightarrow> node_id m = node_id n"
  by (cases m; cases n) auto

section \<open>The tasks of one group\<close>

definition add_task :: "nat \<Rightarrow> string list \<Rightarrow> nat \<Rightarrow> task" where
  "add_task g ms i = \<lparr>task_id = add_id g i, action = GROUP_ADD, stage = GROUP, level = 0,
     sender = ms ! i, receiver = (if i + 1 < length ms then ms ! (i + 1) else ms ! 0),
     dependencies = [if i = 1 then start_id g else add_id g (i - 1)]\<rparr>"

lemma add_tasks_eq:
  "0 < p \<Longrightarrow> previous = (if p = 1 then start_id g else add_id g (p - 1)) \<Longrightarrow> p \<le> n \<Longrightarrow>
   add_tasks g ms previous [p..<n] =
     (map (add_task g ms) [p..<n], if n = 1 then start_id g else add_id g (n - 1))"
proof (induction "n - p" arbitrary: p previous)
  case 0
  then show ?case by simp
next
  case (Suc k)
  then have lt: "p < n" by simp
  have "add_tasks g ms (add_id g p) [Suc p..<n] =
     (map (add_task g ms) [Suc p..<n], if n = 1 then start_id g else add_id g (n - 1))"
    using Suc lt by (intro Suc.hyps) auto
  with lt Suc.prems show ?case by (simp add: upt_conv_Cons add_task_def)
qed

lemma group_tasks_eq:
  assumes "2 \<le> length ms"
  shows "group_tasks g ms target =
    \<lparr>task_id = start_id g, action = GROUP_START, stage = GROUP, level = 0,
     sender = ms ! 0, receiver = ms ! 1, dependencies = []\<rparr>
    # map (add_task g ms) [1..<length ms]
    @ [\<lparr>task_id = unblind_id g, action = GROUP_UNBLIND, stage = GROUP, level = 0,
        sender = ms ! 0, receiver = target, dependencies = [add_id g (length ms - 1)]\<rparr>]"
  using assms add_tasks_eq [of 1 "start_id g" g "length ms" ms] by (simp add: group_tasks_def)

lemma group_tasks_ids:
  "2 \<le> length ms \<Longrightarrow> map task_id (group_tasks g ms target)
     = start_id g # map (add_id g) [1..<length ms] @ [unblind_id g]"
  by (simp add: group_tasks_eq comp_def add_task_def)

lemma group_tasks_deps:
  assumes "2 \<le> length ms"
  shows "concat (map dependencies (group_tasks g ms target)) = start_id g # map (add_id g) [1..<length ms]"
proof -
  have "concat (map dependencies (map (add_task g ms) [1..<n])) @ [if n = 1 then start_id g else add_id g (n - 1)]
      = start_id g # map (add_id g) [1..<n]" if "1 \<le> n" for n
    using that by (induction n rule: dec_induct) (auto simp: add_task_def)
  from this [of "length ms"] assms show ?thesis by (auto simp: group_tasks_eq)
qed

lemma group_tasks_contributions:
  assumes "2 \<le> length ms"
  shows "map sender (filter (\<lambda>t. action t \<in> {GROUP_START, GROUP_ADD}) (group_tasks g ms target)) = ms"
proof -
  have "filter (\<lambda>t. action t \<in> {GROUP_START, GROUP_ADD}) (map (add_task g ms) xs) = map (add_task g ms) xs" for xs
    by (induction xs) (auto simp: add_task_def)
  then have "map sender (filter (\<lambda>t. action t \<in> {GROUP_START, GROUP_ADD}) (group_tasks g ms target))
      = ms ! 0 # map (\<lambda>i. ms ! i) [1..<length ms]"
    using assms by (simp add: group_tasks_eq comp_def add_task_def)
  also have "\<dots> = map (\<lambda>i. ms ! i) [0..<length ms]"
  proof -
    have "0 < length ms" using assms by linarith
    then show ?thesis by (simp add: upt_conv_Cons [of 0 "length ms"])
  qed
  also have "\<dots> = ms" by (rule map_nth)
  finally show ?thesis .
qed

lemma group_tasks_flow:
  assumes "2 \<le> length ms" "t \<in> set (group_tasks g ms target)" "d \<in> set (dependencies t)"
  shows "\<exists>u\<in>set (group_tasks g ms target). task_id u = d \<and> receiver u = sender t"
proof -
  let ?ts = "group_tasks g ms target"
  have start: "\<exists>u\<in>set ?ts. task_id u = start_id g \<and> receiver u = ms ! 1"
    using assms(1) by (simp add: group_tasks_eq)
  have add: "\<exists>u\<in>set ?ts. task_id u = add_id g i \<and>
      receiver u = (if i + 1 < length ms then ms ! (i + 1) else ms ! 0)" if "1 \<le> i" "i < length ms" for i
    using assms(1) that by (intro bexI [of _ "add_task g ms i"]) (auto simp: group_tasks_eq add_task_def)
  from assms(2) consider "dependencies t = []"
    | i where "1 \<le> i" "i < length ms" "t = add_task g ms i"
    | "sender t = ms ! 0" "dependencies t = [add_id g (length ms - 1)]"
    using assms(1) by (auto simp: group_tasks_eq)
  then show ?thesis
  proof cases
    case 1
    with assms(3) show ?thesis by simp
  next
    case 2
    then show ?thesis
    proof (cases "i = 1")
      case True
      with 2 start assms(3) show ?thesis by (auto simp: add_task_def)
    next
      case False
      with 2 add [of "i - 1"] assms(3) show ?thesis by (auto simp: add_task_def)
    qed
  next
    case 3
    have "length ms - 1 + 1 = length ms" using assms(1) by simp
    with add [of "length ms - 1"] assms(1) have
      "\<exists>u\<in>set ?ts. task_id u = add_id g (length ms - 1) \<and> receiver u = ms ! 0" by simp
    with 3 assms(3) show ?thesis by simp
  qed
qed

text \<open>A task list in which every dependency comes before the task that needs it.\<close>

fun deps_before :: "string set \<Rightarrow> 'a task_scheme list \<Rightarrow> bool" where
  "deps_before S [] = True"
| "deps_before S (t # ts) = (set (dependencies t) \<subseteq> S \<and> deps_before (insert (task_id t) S) ts)"

lemma deps_before_append:
  "deps_before S (ts @ us) \<longleftrightarrow> deps_before S ts \<and> deps_before (S \<union> task_id ` set ts) us"
  by (induction ts arbitrary: S) auto

lemma deps_before_mono: "deps_before S ts \<Longrightarrow> S \<subseteq> S' \<Longrightarrow> deps_before S' ts"
  by (induction ts arbitrary: S S') (auto, meson insert_mono)

lemma deps_before_nth:
  "deps_before S ts \<Longrightarrow> i < length ts \<Longrightarrow> d \<in> set (dependencies (ts ! i)) \<Longrightarrow>
   d \<in> S \<or> (\<exists>j<i. task_id (ts ! j) = d)"
proof (induction ts arbitrary: S i)
  case (Cons t ts)
  show ?case
  proof (cases i)
    case 0
    with Cons.prems show ?thesis by auto
  next
    case (Suc k)
    with Cons.prems Cons.IH [of "insert (task_id t) S" k] have
      "d = task_id t \<or> d \<in> S \<or> (\<exists>j<k. task_id (ts ! j) = d)" by auto
    then show ?thesis
    proof (elim disjE exE conjE)
      assume "d = task_id t"
      with Suc show ?thesis by (intro disjI2 exI [of _ 0]) simp
    next
      fix j assume "j < k" "task_id (ts ! j) = d"
      with Suc show ?thesis by (intro disjI2 exI [of _ "Suc j"]) simp
    qed simp
  qed
qed simp

lemma group_tasks_before:
  assumes "2 \<le> length ms"
  shows "deps_before {} (group_tasks g ms target)"
proof -
  have "deps_before (insert (start_id g) (add_id g ` {1..<p})) (map (add_task g ms) [p..<n])"
    if "1 \<le> p" for p n
    using that
  proof (induction "n - p" arbitrary: p)
    case (Suc k)
    then have "deps_before (insert (start_id g) (add_id g ` {1..<Suc p})) (map (add_task g ms) [Suc p..<n])"
      by (intro Suc.hyps) auto
    moreover have "insert (add_id g p) (insert (start_id g) (add_id g ` {1..<p}))
        = insert (start_id g) (add_id g ` {1..<Suc p})"
      using Suc.prems by (auto simp: less_Suc_eq)
    moreover have "[p..<n] = p # [Suc p..<n]" using Suc.hyps(2) by (simp add: upt_conv_Cons)
    ultimately show ?case using Suc.prems by (auto simp: add_task_def)
  qed simp
  from this [of 1 "length ms"] assms show ?thesis
    by (auto simp: group_tasks_eq deps_before_append add_task_def image_iff)
qed

section \<open>The whole task list\<close>

definition plan_targets :: "node \<Rightarrow> (node_key \<rightharpoonup> string)" where
  "plan_targets rt = assign_targets rt (operator rt) Map.empty"

abbreviation plan_task_list :: "tree_group list \<Rightarrow> node \<Rightarrow> node list \<Rightarrow> task list" where
  "plan_task_list gs rt nodes \<equiv> task_list (plan_targets rt) gs nodes"

text \<open>The tasks of one group of the plan, the identifiers of its group stage, its unblind task.\<close>

definition stage_tasks :: "(node_key \<rightharpoonup> string) \<Rightarrow> tree_group \<Rightarrow> task list" where
  "stage_tasks T g = group_tasks (group_id g) (members g) (the (T (LeafId (group_id g))))"

definition stage_ids :: "tree_group \<Rightarrow> string list" where
  "stage_ids g = start_id (group_id g) # map (add_id (group_id g)) [1..<length (members g)]
     @ [unblind_id (group_id g)]"

definition unblind_task :: "(node_key \<rightharpoonup> string) \<Rightarrow> tree_group \<Rightarrow> task" where
  "unblind_task T g = \<lparr>task_id = unblind_id (group_id g), action = GROUP_UNBLIND, stage = GROUP,
     level = 0, sender = members g ! 0, receiver = the (T (LeafId (group_id g))),
     dependencies = [add_id (group_id g) (length (members g) - 1)]\<rparr>"

lemma task_list_stages:
  "task_list T gs nodes = concat (map (stage_tasks T) gs)
     @ map (\<lambda>n. tree_task (the (T (node_id n))) n) nodes"
  by (simp add: task_list_def stage_tasks_def [abs_def])

lemma plan_tree_sizes: "plan_tree gs rt nodes \<Longrightarrow> g \<in> set gs \<Longrightarrow> 2 \<le> length (members g)"
  by (fastforce simp: plan_tree_def)

lemma plan_tree_inner: "plan_tree gs rt nodes \<Longrightarrow> n \<in> set nodes \<Longrightarrow> \<exists>op cs l a i. n = Inner op cs l a i"
  by (fastforce simp: plan_tree_def inner_node_def)

lemma plan_tree_kid_target:
  assumes "plan_tree gs rt nodes" "n \<in> set nodes" "c \<in> set (kids n)"
  shows "plan_targets rt (node_id c) = Some (operator n)"
  unfolding plan_targets_def
  by (rule target_of_kid [OF plan_tree_keys [OF assms(1)]]) (use assms in \<open>auto simp: plan_tree_nodes\<close>)

lemma plan_tree_root_target:
  assumes "plan_tree gs rt nodes"
  shows "plan_targets rt (node_id rt) = Some (operator rt)"
  unfolding plan_targets_def by (rule target_of_root [OF plan_tree_keys [OF assms]])

lemma plan_tree_kids:
  "plan_tree gs rt nodes \<Longrightarrow> n \<in> set nodes \<Longrightarrow> set (kids n) \<subseteq> set nodes \<union> set (map group_leaf gs)"
  using walk_kids [of n rt] plan_tree_nodes by blast

lemma plan_tree_group_ids:
  assumes "plan_tree gs rt nodes"
  shows "distinct (map group_id gs)"
proof -
  have "map group_id gs = [0..<length gs]" using assms by (simp add: plan_tree_def)
  then show ?thesis by (simp only: distinct_upt)
qed

lemma unblind_task_in:
  "2 \<le> length (members g) \<Longrightarrow> unblind_task T g \<in> set (stage_tasks T g)"
  by (simp add: stage_tasks_def group_tasks_eq unblind_task_def)

subsection \<open>Identifiers\<close>

lemma task_list_ids:
  assumes "plan_tree gs rt nodes"
  shows "map task_id (task_list T gs nodes) = concat (map stage_ids gs) @ map node_task nodes"
proof -
  have "map task_id (stage_tasks T g) = stage_ids g" if "g \<in> set gs" for g
    using plan_tree_sizes [OF assms that] by (simp add: stage_tasks_def stage_ids_def group_tasks_ids)
  then have "map task_id (concat (map (stage_tasks T) gs)) = concat (map stage_ids gs)"
    by (simp add: map_concat comp_def cong: map_cong)
  then show ?thesis by (simp add: task_list_stages tree_task_def comp_def)
qed

lemma stage_ids_distinct:
  "distinct (map group_id hs) \<Longrightarrow> distinct (concat (map stage_ids hs))"
  by (induction hs) (auto simp: stage_ids_def distinct_map inj_on_def)

lemma plan_tree_node_tasks:
  assumes "plan_tree gs rt nodes"
  shows "distinct (map node_task nodes)"
proof -
  have "mset (walk_nodes rt) = mset (nodes @ map group_leaf gs)"
    using assms by (simp add: plan_tree_def)
  then have "image_mset node_id (mset (walk_nodes rt)) = image_mset node_id (mset (nodes @ map group_leaf gs))"
    by (rule arg_cong)
  then have "mset (map node_id (walk_nodes rt)) = mset (map node_id nodes @ map node_id (map group_leaf gs))"
    by (simp only: mset_map [symmetric] map_append)
  with plan_tree_keys [OF assms] have "distinct (map node_id nodes)"
    by (metis distinct_append mset_eq_imp_distinct_iff)
  then show ?thesis by (auto simp: distinct_map inj_on_def node_task_inj)
qed

lemma plan_ids_distinct:
  assumes "plan_tree gs rt nodes"
  shows "distinct (map task_id (task_list T gs nodes))"
proof -
  have "node_task n \<notin> set (concat (map stage_ids gs))" if "n \<in> set nodes" for n
    using plan_tree_inner [OF assms that] by (auto simp: stage_ids_def)
  then show ?thesis
    using stage_ids_distinct [OF plan_tree_group_ids [OF assms]] plan_tree_node_tasks [OF assms]
    by (auto simp: task_list_ids [OF assms])
qed

subsection \<open>Order of dependencies\<close>

lemma stage_tasks_before:
  "(\<And>g. g \<in> set hs \<Longrightarrow> 2 \<le> length (members g)) \<Longrightarrow> deps_before {} (concat (map (stage_tasks T) hs))"
proof (induction hs)
  case (Cons h hs)
  then have "deps_before {} (stage_tasks T h)"
    using group_tasks_before by (simp add: stage_tasks_def)
  with Cons show ?case by (auto simp: deps_before_append intro: deps_before_mono)
qed simp

lemma tree_tasks_before:
  "children_first S ns \<Longrightarrow> deps_before (node_task ` S) (map (\<lambda>n. tree_task (f n) n) ns)"
proof (induction ns arbitrary: S)
  case (Cons n ns)
  then have "deps_before (node_task ` insert n S) (map (\<lambda>n. tree_task (f n) n) ns)"
    by (intro Cons.IH) simp
  with Cons.prems show ?case by (auto simp: tree_task_def)
qed simp

lemma plan_dependency_order:
  assumes "plan_tree gs rt nodes"
  shows "deps_before {} (task_list T gs nodes)"
proof -
  have "unblind_id (group_id g) \<in> task_id ` set (concat (map (stage_tasks T) gs))" if "g \<in> set gs" for g
    using unblind_task_in [OF plan_tree_sizes [OF assms that], of T] that
    by (intro image_eqI [of _ _ "unblind_task T g"]) (auto simp: unblind_task_def)
  then have "node_task ` set (map group_leaf gs) \<subseteq> {} \<union> task_id ` set (concat (map (stage_tasks T) gs))"
    by auto
  then have "deps_before ({} \<union> task_id ` set (concat (map (stage_tasks T) gs)))
      (map (\<lambda>n. tree_task (the (T (node_id n))) n) nodes)"
    by (rule deps_before_mono [OF tree_tasks_before [OF plan_tree_first [OF assms]]])
  moreover have "deps_before {} (concat (map (stage_tasks T) gs))"
    by (rule stage_tasks_before) (rule plan_tree_sizes [OF assms])
  ultimately show ?thesis
    unfolding task_list_stages deps_before_append by (rule conjI [rotated])
qed

subsection \<open>Data flow\<close>

lemma plan_data_flow:
  assumes "plan_tree gs rt nodes"
    and "t \<in> set (plan_task_list gs rt nodes)" "d \<in> set (dependencies t)"
  shows "\<exists>u\<in>set (plan_task_list gs rt nodes). task_id u = d \<and> receiver u = sender t"
proof -
  let ?T = "plan_targets rt"
  from assms(2) consider g where "g \<in> set gs" "t \<in> set (stage_tasks ?T g)"
    | n where "n \<in> set nodes" "t = tree_task (the (?T (node_id n))) n"
    by (auto simp: task_list_stages)
  then show ?thesis
  proof cases
    case 1
    with group_tasks_flow [OF plan_tree_sizes [OF assms(1) 1(1)]] assms(3) obtain u where
      "u \<in> set (stage_tasks ?T g)" "task_id u = d \<and> receiver u = sender t"
      unfolding stage_tasks_def by blast
    with 1 show ?thesis by (intro bexI [of _ u]) (auto simp: task_list_stages)
  next
    case 2
    with assms(3) obtain c where c: "c \<in> set (kids n)" "d = node_task c" by (auto simp: tree_task_def)
    note target = plan_tree_kid_target [OF assms(1) 2(1) c(1)]
    from plan_tree_kids [OF assms(1) 2(1)] c consider "c \<in> set nodes" | g where "g \<in> set gs" "c = group_leaf g"
      by auto
    then show ?thesis
    proof cases
      case 1
      with 2 c target show ?thesis
        by (intro bexI [of _ "tree_task (the (?T (node_id c))) c"]) (auto simp: tree_task_def task_list_stages)
    next
      case (2 g)
      with unblind_task_in [OF plan_tree_sizes [OF assms(1) 2(1)], of ?T]
      have "unblind_task ?T g \<in> set (plan_task_list gs rt nodes)" by (auto simp: task_list_stages)
      with 2 c target \<open>t = tree_task _ n\<close> show ?thesis
        by (intro bexI [of _ "unblind_task ?T g"]) (auto simp: tree_task_def unblind_task_def)
    qed
  qed
qed

subsection \<open>Every output is consumed once\<close>

lemma stage_tasks_consumed:
  assumes "2 \<le> length (members g)"
  shows "mset (concat (map dependencies (stage_tasks T g))) + {#unblind_id (group_id g)#} = mset (stage_ids g)"
  using assms by (simp add: stage_tasks_def group_tasks_deps stage_ids_def)

lemma all_stage_tasks_consumed:
  "(\<And>g. g \<in> set hs \<Longrightarrow> 2 \<le> length (members g)) \<Longrightarrow>
   mset (concat (map dependencies (concat (map (stage_tasks T) hs)))) + mset (map (\<lambda>g. unblind_id (group_id g)) hs)
     = mset (concat (map stage_ids hs))"
proof (induction hs)
  case (Cons h hs)
  then show ?case using stage_tasks_consumed [of h T] by (simp add: ac_simps flip: add_mset_add_single)
qed simp

lemma tree_tasks_deps:
  "concat (map dependencies (map (\<lambda>n. tree_task (f n) n) ns)) = map node_task (concat (map kids ns))"
  by (induction ns) (auto simp: tree_task_def)

lemma plan_consumed_once:
  assumes "plan_tree gs rt nodes"
  shows "mset (concat (map dependencies (task_list T gs nodes))) + {#node_task rt#}
    = mset (map task_id (task_list T gs nodes))"
proof -
  let ?unblind = "mset (map (\<lambda>g. unblind_id (group_id g)) gs)"
  let ?groups = "mset (concat (map dependencies (concat (map (stage_tasks T) gs))))"
  let ?trees = "mset (concat (map dependencies (map (\<lambda>n. tree_task (the (T (node_id n))) n) nodes)))"
  have "mset (map node_task (concat (map kids nodes))) + {#node_task rt#}
      = image_mset node_task (mset (concat (map kids nodes)) + {#rt#})"
    by (simp only: mset_map image_mset_union image_mset_single)
  also have "\<dots> = image_mset node_task (mset (map group_leaf gs) + mset nodes)"
    by (simp only: plan_tree_kid_counts [OF assms])
  also have "\<dots> = ?unblind + mset (map node_task nodes)"
    by (simp add: image_mset.compositionality comp_def)
  finally have trees: "?trees + {#node_task rt#} = ?unblind + mset (map node_task nodes)"
    unfolding tree_tasks_deps .
  have groups: "?groups + ?unblind = mset (concat (map stage_ids gs))"
    by (rule all_stage_tasks_consumed) (rule plan_tree_sizes [OF assms])
  have "mset (concat (map dependencies (task_list T gs nodes))) = ?groups + ?trees"
    by (simp only: task_list_stages map_append concat_append mset_append)
  moreover have "mset (map task_id (task_list T gs nodes))
      = mset (concat (map stage_ids gs)) + mset (map node_task nodes)"
    by (simp only: task_list_ids [OF assms] mset_append)
  moreover have "A + B + r = C + N" if "B + r = U + N" "A + U = C" for A B r C N U :: "string multiset"
    using that by (metis add.assoc)
  ultimately show ?thesis using trees groups by presburger
qed

subsection \<open>Contributions, levels and the root\<close>

lemma plan_contributions:
  assumes "plan_tree gs rt nodes"
  shows "map sender (filter (\<lambda>t. action t \<in> {GROUP_START, GROUP_ADD}) (task_list T gs nodes))
    = concat (map members gs)"
proof -
  let ?P = "\<lambda>t. action t \<in> {GROUP_START, GROUP_ADD}"
  have "map sender (filter ?P (concat (map (stage_tasks T) hs))) = concat (map members hs)"
    if "set hs \<subseteq> set gs" for hs
    using that
  proof (induction hs)
    case (Cons h hs)
    then have "2 \<le> length (members h)" using plan_tree_sizes [OF assms] by simp
    from group_tasks_contributions [OF this] Cons show ?case by (simp add: stage_tasks_def)
  qed simp
  moreover have "filter ?P (map (\<lambda>n. tree_task (f n) n) nodes) = []" for f
  proof -
    have "\<not> ?P (tree_task (f n) n)" if "n \<in> set nodes" for n
      using plan_tree_inner_node [OF assms that] by (auto simp: tree_task_def inner_node_def pair_action_def split: if_splits)
    then show ?thesis by (auto simp: filter_empty_conv)
  qed
  ultimately show ?thesis unfolding task_list_stages by simp
qed

lemma stage_tasks_stage: "2 \<le> length (members g) \<Longrightarrow> t \<in> set (stage_tasks T g) \<Longrightarrow> stage t = GROUP"
  by (auto simp: stage_tasks_def group_tasks_eq add_task_def)

lemma plan_levels:
  assumes "plan_tree gs rt nodes"
  shows "level ` {t \<in> set (task_list T gs nodes). stage t = TREE} = int ` {0..<ceillog2 (length gs)}"
proof -
  have "{t \<in> set (task_list T gs nodes). stage t = TREE} = (\<lambda>n. tree_task (the (T (node_id n))) n) ` set nodes"
    using stage_tasks_stage [OF plan_tree_sizes [OF assms]]
    by (fastforce simp: task_list_stages tree_task_def)
  then have "level ` {t \<in> set (task_list T gs nodes). stage t = TREE} = node_level ` set nodes"
    by (simp add: image_image tree_task_def)
  then show ?thesis by (simp only: plan_tree_levels [OF assms])
qed

lemma plan_root_task:
  assumes "plan_tree gs rt nodes"
  shows "\<exists>t\<in>set (plan_task_list gs rt nodes).
    task_id t = node_task rt \<and> sender t = operator rt \<and> receiver t = operator rt"
proof -
  note target = plan_tree_root_target [OF assms]
  from plan_tree_nodes [OF assms] walk_self [of rt]
  consider "rt \<in> set nodes" | g where "g \<in> set gs" "rt = group_leaf g" by auto
  then show ?thesis
  proof cases
    case 1
    with target show ?thesis
      by (intro bexI [of _ "tree_task (the (plan_targets rt (node_id rt))) rt"])
        (auto simp: tree_task_def task_list_stages)
  next
    case 2
    with unblind_task_in [OF plan_tree_sizes [OF assms 2(1)], of "plan_targets rt"]
    have "unblind_task (plan_targets rt) g \<in> set (plan_task_list gs rt nodes)"
      by (auto simp: task_list_stages)
    moreover note plan_tree_coordinator [OF assms 2(1)]
    ultimately show ?thesis using 2 target
      by (intro bexI [of _ "unblind_task (plan_targets rt) g"]) (auto simp: unblind_task_def)
  qed
qed

end
