(* ===== verification/Topology_Properties.thy ===== *)
theory Topology_Properties
  imports Topology_Facts
begin

text \<open>
  The properties of the protocol-1.1 plan of \<open>app/domain/topology.py\<close>, and one plan computed
  by the definitions themselves, at which each property is checked.
\<close>

section \<open>A computed plan\<close>

text \<open>A stand-in for the hash of the round: a 32-byte digest holding the last byte of the input.\<close>

definition sample_digest :: "bytes \<Rightarrow> bytes" where
  "sample_digest bs = replicate 31 0 @ [last bs]"

definition sample_context :: round_context where
  "sample_context = \<lparr>protocol_version = ''1.1'', federation_id = ''fed'', round_id = ''r1'',
     model_schema_hash = ''m'', participant_manifest_hash = ''p'', aggregation_policy = ''mean'',
     precision_bits = 16\<rparr>"

definition sample_manifest :: "manifest_entry list" where
  "sample_manifest = map (\<lambda>c. \<lparr>client_id = [c], public_key = ''k'', signature = ''s''\<rparr>) ''abcdefg''"

definition sample_plan :: tree_plan where
  "sample_plan = \<lparr>plan_protocol_version = ''1.1'',
     plan_participants = [''g'', ''e'', ''f'', ''d'', ''c'', ''b'', ''a''],
     plan_groups =
       [\<lparr>group_id = 0, members = [''g'', ''e'', ''f'', ''d''], coordinator = ''g''\<rparr>,
        \<lparr>group_id = 1, members = [''c'', ''b'', ''a''], coordinator = ''c''\<rparr>],
     plan_tasks =
       [\<lparr>task_id = ''g0-start'', action = GROUP_START, stage = GROUP, level = 0,
         sender = ''g'', receiver = ''e'', dependencies = []\<rparr>,
        \<lparr>task_id = ''g0-add-1'', action = GROUP_ADD, stage = GROUP, level = 0,
         sender = ''e'', receiver = ''f'', dependencies = [''g0-start'']\<rparr>,
        \<lparr>task_id = ''g0-add-2'', action = GROUP_ADD, stage = GROUP, level = 0,
         sender = ''f'', receiver = ''d'', dependencies = [''g0-add-1'']\<rparr>,
        \<lparr>task_id = ''g0-add-3'', action = GROUP_ADD, stage = GROUP, level = 0,
         sender = ''d'', receiver = ''g'', dependencies = [''g0-add-2'']\<rparr>,
        \<lparr>task_id = ''g0-unblind'', action = GROUP_UNBLIND, stage = GROUP, level = 0,
         sender = ''g'', receiver = ''g'', dependencies = [''g0-add-3'']\<rparr>,
        \<lparr>task_id = ''g1-start'', action = GROUP_START, stage = GROUP, level = 0,
         sender = ''c'', receiver = ''b'', dependencies = []\<rparr>,
        \<lparr>task_id = ''g1-add-1'', action = GROUP_ADD, stage = GROUP, level = 0,
         sender = ''b'', receiver = ''a'', dependencies = [''g1-start'']\<rparr>,
        \<lparr>task_id = ''g1-add-2'', action = GROUP_ADD, stage = GROUP, level = 0,
         sender = ''a'', receiver = ''c'', dependencies = [''g1-add-1'']\<rparr>,
        \<lparr>task_id = ''g1-unblind'', action = GROUP_UNBLIND, stage = GROUP, level = 0,
         sender = ''c'', receiver = ''g'', dependencies = [''g1-add-2'']\<rparr>,
        \<lparr>task_id = ''t0-0'', action = TREE_COMBINE, stage = TREE, level = 0,
         sender = ''g'', receiver = ''g'', dependencies = [''g0-unblind'', ''g1-unblind'']\<rparr>],
     root_client_id = ''g'', root_task_id = ''t0-0'', tree_levels = 1\<rparr>"

lemma sample_plan_derived:
  "derive_tree_plan sample_digest sample_context sample_manifest = Inr sample_plan"
  by code_simp

section \<open>Derivation\<close>

text \<open>The value drawn is the first accepted one, and acceptance leaves no residue favoured.\<close>

lemma residues_below:
  assumes "0 < m" "0 \<le> r" "r < m" "m dvd (c :: int)" "0 \<le> c"
  shows "card {v. 0 \<le> v \<and> v < c \<and> v mod m = r} = nat (c div m)"
proof -
  let ?f = "\<lambda>q. q * m + r"
  have "{v. 0 \<le> v \<and> v < c \<and> v mod m = r} = ?f ` {0..<c div m}"
  proof (intro equalityI subsetI)
    fix v assume "v \<in> {v. 0 \<le> v \<and> v < c \<and> v mod m = r}"
    then have v: "0 \<le> v" "v < c" "v = v div m * m + r" by auto
    have "v div m * m < c div m * m" using v assms by auto
    then have "v div m < c div m" using assms(1) by simp
    with v assms show "v \<in> ?f ` {0..<c div m}"
      by (intro image_eqI [of _ _ "v div m"]) (auto simp: pos_imp_zdiv_nonneg_iff)
  next
    fix v assume "v \<in> ?f ` {0..<c div m}"
    then obtain q where q: "v = q * m + r" "q \<in> {0..<c div m}" by (elim imageE)
    then have "0 \<le> q" "q + 1 \<le> c div m" by simp_all
    then have "(q + 1) * m \<le> c div m * m" using assms(1) by (simp only: mult_right_mono order_less_imp_le)
    then have "(q + 1) * m \<le> c" using assms(4) by simp
    with q assms show "v \<in> {v. 0 \<le> v \<and> v < c \<and> v mod m = r}"
      by (auto simp: algebra_simps mod_mult_self1)
  qed
  moreover have "inj_on ?f {0..<c div m}" using assms(1) by (auto simp: inj_on_def)
  ultimately show ?thesis by (simp add: card_image)
qed

text \<open>C29. The rejection sampling of the shuffle is unbiased: for a modulus of at most 2^256 the
  value it draws is the first hash value from its counter on that lies below the cutoff, the cutoff is
  at most 2^256, and below the cutoff every residue of the modulus is hit equally often.\<close>

theorem draw_unbiased:
  assumes "0 < modulus" "modulus \<le> 2 ^ 256" "0 \<le> r" "r < modulus"
    and "draw sha seed (shuffle_cutoff modulus) counter = Inr (val, nxt)"
  shows "0 \<le> val \<and> val < shuffle_cutoff modulus \<and> shuffle_cutoff modulus \<le> 2 ^ 256 \<and>
    counter < nxt \<and> val = sample sha seed (nxt - 1) \<and>
    (\<forall>c. counter \<le> c \<and> c < nxt - 1 \<longrightarrow> shuffle_cutoff modulus \<le> sample sha seed c) \<and>
    card {v. 0 \<le> v \<and> v < shuffle_cutoff modulus \<and> v mod modulus = r}
      = nat (shuffle_cutoff modulus div modulus)"
  using draw_sound [OF assms(5)] cutoff_bounds [OF assms(1,2)]
    residues_below [OF assms(1,3,4) cutoff_bounds(3) [OF assms(1,2)]] by simp

theorem draw_unbiased_witness:
  "sample sample_digest [] 4 = 4 \<and> card {v :: int. 0 \<le> v \<and> v < shuffle_cutoff 7 \<and> v mod 7 = 3} =
     nat (shuffle_cutoff 7 div 7)"
proof -
  have "draw sample_digest [] (shuffle_cutoff 7) 4 = Inr (4, 5)" by code_simp
  from draw_unbiased [OF _ _ _ _ this, of 3] show ?thesis by simp
qed

text \<open>C28. The shuffle is a permutation that forgets the order in which it received the
  participants, and it can only fail by exhausting its 64-bit counter.\<close>

theorem shuffle_permutes:
  assumes "mset ps = mset qs"
  shows "shuffle sha ps seed = shuffle sha qs seed \<and>
    (case shuffle sha ps seed of Inl e \<Rightarrow> e = OverflowError | Inr ys \<Rightarrow> mset ys = mset ps)"
  using shuffle_cong [OF assms, of sha seed] shuffle_mset [of sha ps seed] shuffle_error [of sha ps seed]
  by (auto split: sum.split)

theorem shuffle_permutes_witness:
  "shuffle sample_digest [''a'', ''b'', ''c''] [] = shuffle sample_digest [''c'', ''a'', ''b''] []"
  using shuffle_permutes [of "[''a'', ''b'', ''c'']" "[''c'', ''a'', ''b'']" sample_digest "[]"]
  by (simp add: add_mset_commute)

text \<open>C30. Every outcome of the derivation: a repeated participant is refused; else, when the counter of the shuffle
  overflows, the derivation raises that overflow; else fewer than three participants are refused; and otherwise
  there is a plan, whose participants are the shuffled ones. None of the lookups and indexings that it does can
  raise.\<close>

theorem derive_tree_plan_outcome:
  "if \<not> distinct (map client_id manifest)
   then derive_tree_plan sha row manifest
     = Inl (ValueError ''ephemeral manifest contains duplicate participants'')
   else case shuffle sha (map client_id manifest)
       (sha (domain_bytes row ''tree-topology'' @ encode (canonical_json (manifest_json manifest)))) of
     Inl e \<Rightarrow> derive_tree_plan sha row manifest = Inl OverflowError
   | Inr shuffled \<Rightarrow>
       if length manifest < 3
       then derive_tree_plan sha row manifest
         = Inl (ValueError ''protocol 1.1 requires at least three participants'')
       else \<exists>plan. derive_tree_plan sha row manifest = Inr plan \<and> plan_participants plan = shuffled"
proof -
  let ?ps = "map client_id manifest"
  let ?seed = "sha (domain_bytes row ''tree-topology'' @ encode (canonical_json (manifest_json manifest)))"
  have dist: "length (remdups ?ps) = length ?ps \<longleftrightarrow> distinct ?ps"
    by (metis card_distinct distinct_card distinct_remdups_id length_remdups_card_conv)
  show ?thesis
  proof (cases "distinct ?ps")
    case False
    with dist show ?thesis by (simp add: derive_tree_plan_def Let_def)
  next
    case True
    note len = dist [THEN iffD2, OF True]
    show ?thesis
    proof (cases "shuffle sha ?ps ?seed")
      case (Inl e)
      with True len shuffle_error [OF Inl] show ?thesis by (simp add: derive_tree_plan_def Let_def)
    next
      case (Inr shuffled)
      have n: "length shuffled = length manifest"
        using shuffle_mset [OF Inr] by (metis length_map mset_eq_length)
      show ?thesis
      proof (cases "length manifest < 3")
        case True
        with Inr len n \<open>distinct ?ps\<close> show ?thesis
          by (simp add: derive_tree_plan_def Let_def group_sizes_def)
      next
        case False
        with derive_tree_plan_eq [OF True _ Inr] show ?thesis using True Inr by auto
      qed
    qed
  qed
qed

section \<open>Shape\<close>

text \<open>C24. The groups of a plan partition the shuffled participants, each has three to five
  members and is led by its first, and they are numbered from 0 in order.\<close>

theorem plan_groups_partition:
  assumes "derive_tree_plan sha row manifest = Inr plan"
  shows "mset (concat (map members (plan_groups plan))) = mset (map client_id manifest) \<and>
    distinct (concat (map members (plan_groups plan))) \<and>
    map group_id (plan_groups plan) = [0..<length (plan_groups plan)] \<and>
    (\<forall>g\<in>set (plan_groups plan). length (members g) \<in> {3, 4, 5} \<and> coordinator g = members g ! 0)"
proof -
  from derive_tree_plan_cases [OF assms] obtain rt nodes where
    tree: "plan_tree (plan_groups plan) rt nodes" and dist: "distinct (map client_id manifest)" and
    perm: "mset (plan_participants plan) = mset (map client_id manifest)" and
    parts: "concat (map members (plan_groups plan)) = plan_participants plan" by blast
  note ids = plan_tree_ids [OF tree]
  from plan_tree_members [OF tree] have "\<forall>g\<in>set (plan_groups plan). length (members g) \<in> {3, 4, 5} \<and> coordinator g = members g ! 0"
    by fastforce
  moreover have "distinct (plan_participants plan)"
    using dist perm mset_eq_imp_distinct_iff by metis
  ultimately show ?thesis unfolding parts using ids perm by (intro conjI)
qed

theorem plan_groups_partition_witness:
  "distinct (concat (map members (plan_groups sample_plan)))"
  using plan_groups_partition [OF sample_plan_derived] by blast

section \<open>The task graph\<close>

lemma plan_task_listE:
  assumes "derive_tree_plan sha row manifest = Inr plan"
  obtains rt nodes where "plan_tree (plan_groups plan) rt nodes"
    "plan_tasks plan = plan_task_list (plan_groups plan) rt nodes"
    "root_client_id plan = operator rt" "root_task_id plan = node_task rt"
    "tree_levels plan = ceillog2 (length (plan_groups plan))"
    "concat (map members (plan_groups plan)) = plan_participants plan"
  using derive_tree_plan_cases [OF assms] unfolding plan_targets_def by blast

text \<open>C26. The tasks of a plan have distinct identifiers and are listed in an order in which they
  can run: every dependency is the identifier of a task listed earlier.\<close>

theorem plan_tasks_ordered:
  assumes "derive_tree_plan sha row manifest = Inr plan"
  shows "distinct (map task_id (plan_tasks plan)) \<and>
    (\<forall>i<length (plan_tasks plan). \<forall>d\<in>set (dependencies (plan_tasks plan ! i)).
       \<exists>j<i. task_id (plan_tasks plan ! j) = d)"
proof -
  obtain rt nodes where tree: "plan_tree (plan_groups plan) rt nodes"
    and tasks: "plan_tasks plan = plan_task_list (plan_groups plan) rt nodes"
    using plan_task_listE [OF assms] by blast
  show ?thesis unfolding tasks
    using plan_ids_distinct [OF tree] deps_before_nth [OF plan_dependency_order [OF tree]] by blast
qed

theorem plan_tasks_ordered_witness: "distinct (map task_id (plan_tasks sample_plan))"
  using plan_tasks_ordered [OF sample_plan_derived] by (rule conjunct1)

text \<open>C25. Ciphertexts flow to where they are needed: every dependency of a task is the output of
  a task whose receiver is the sender of the task, so a participant only ever has to work on
  artifacts that were sent to it.\<close>

theorem plan_tasks_flow:
  assumes "derive_tree_plan sha row manifest = Inr plan"
    and "t \<in> set (plan_tasks plan)" "d \<in> set (dependencies t)"
  shows "\<exists>u\<in>set (plan_tasks plan). task_id u = d \<and> receiver u = sender t"
proof -
  obtain rt nodes where tree: "plan_tree (plan_groups plan) rt nodes"
    and tasks: "plan_tasks plan = plan_task_list (plan_groups plan) rt nodes"
    using plan_task_listE [OF assms(1)] by blast
  show ?thesis using plan_data_flow [OF tree] assms(2,3) unfolding tasks by blast
qed

theorem plan_tasks_flow_witness:
  "\<exists>u\<in>set (plan_tasks sample_plan). task_id u = ''g1-unblind'' \<and> receiver u = ''g''"
  using plan_tasks_flow [OF sample_plan_derived, of "plan_tasks sample_plan ! 9" "''g1-unblind''"]
  by (simp add: sample_plan_def)

text \<open>C27. The plan loses and duplicates nothing: as multisets, the dependencies of all tasks
  together with the root task are exactly the task identifiers, so every task but the root is
  consumed by exactly one other task, and the root by none.\<close>

theorem plan_tasks_consumed_once:
  assumes "derive_tree_plan sha row manifest = Inr plan"
  shows "mset (concat (map dependencies (plan_tasks plan))) + {#root_task_id plan#}
    = mset (map task_id (plan_tasks plan))"
proof -
  obtain rt nodes where tree: "plan_tree (plan_groups plan) rt nodes"
    and tasks: "plan_tasks plan = plan_task_list (plan_groups plan) rt nodes"
    and rt: "root_task_id plan = node_task rt"
    using plan_task_listE [OF assms] by blast
  show ?thesis unfolding tasks rt by (rule plan_consumed_once [OF tree])
qed

theorem plan_tasks_consumed_once_witness:
  "mset (concat (map dependencies (plan_tasks sample_plan))) + {#''t0-0''#}
    = mset (map task_id (plan_tasks sample_plan))"
  using plan_tasks_consumed_once [OF sample_plan_derived] by (simp add: sample_plan_def)

text \<open>C9. Every participant contributes its key share exactly once: the senders of the start and
  add tasks, in plan order, are the shuffled participants.\<close>

theorem plan_contributes_once:
  assumes "derive_tree_plan sha row manifest = Inr plan"
  shows "map sender (filter (\<lambda>t. action t \<in> {GROUP_START, GROUP_ADD}) (plan_tasks plan))
      = plan_participants plan \<and> mset (plan_participants plan) = mset (map client_id manifest)"
proof -
  obtain rt nodes where tree: "plan_tree (plan_groups plan) rt nodes"
    and tasks: "plan_tasks plan = plan_task_list (plan_groups plan) rt nodes"
    and parts: "concat (map members (plan_groups plan)) = plan_participants plan"
    using plan_task_listE [OF assms] by blast
  show ?thesis unfolding tasks plan_contributions [OF tree] parts
    using derive_tree_plan_cases [OF assms] by blast
qed

theorem plan_contributes_once_witness:
  "map sender (filter (\<lambda>t. action t \<in> {GROUP_START, GROUP_ADD}) (plan_tasks sample_plan))
    = [''g'', ''e'', ''f'', ''d'', ''c'', ''b'', ''a'']"
  using plan_contributes_once [OF sample_plan_derived] by (simp add: sample_plan_def)

text \<open>C10. The reduction ends at the root: the root task is one of the plan, is run by the root
  client and sent to the root client itself, who coordinates the first group; and
  the levels of the tree tasks are exactly those below the announced number of levels.\<close>

theorem plan_reduces_to_root:
  assumes "derive_tree_plan sha row manifest = Inr plan"
  shows "(\<exists>t\<in>set (plan_tasks plan). task_id t = root_task_id plan \<and>
      sender t = root_client_id plan \<and> receiver t = root_client_id plan) \<and>
    root_client_id plan = coordinator (hd (plan_groups plan)) \<and>
    level ` {t \<in> set (plan_tasks plan). stage t = TREE} = int ` {0..<tree_levels plan}"
proof -
  obtain rt nodes where tree: "plan_tree (plan_groups plan) rt nodes"
    and tasks: "plan_tasks plan = plan_task_list (plan_groups plan) rt nodes"
    and rt: "root_client_id plan = operator rt" "root_task_id plan = node_task rt"
    and levels: "tree_levels plan = ceillog2 (length (plan_groups plan))"
    using plan_task_listE [OF assms] by blast
  show ?thesis unfolding tasks rt levels
    using plan_root_task [OF tree] plan_levels [OF tree] plan_tree_operator [OF tree] by blast
qed

theorem plan_reduces_to_root_witness:
  "level ` {t \<in> set (plan_tasks sample_plan). stage t = TREE} = int ` {0..<tree_levels sample_plan}"
  using plan_reduces_to_root [OF sample_plan_derived] by (elim conjE)

section \<open>Hashed and signed bytes\<close>

definition nul_free :: "'a round_context_scheme \<Rightarrow> bool" where
  "nul_free row \<longleftrightarrow> (\<forall>s\<in>{protocol_version row, federation_id row, round_id row,
     model_schema_hash row, participant_manifest_hash row, aggregation_policy row}. CHR 0x00 \<notin> set s)"

lemma domain_fields_split:
  "domain_fields row purpose = take 7 (domain_fields row purpose) @ [str_int (precision_bits row)]"
  by (simp add: domain_fields_def)

lemma nul_free_fields:
  "nul_free row \<Longrightarrow> CHR 0x00 \<notin> set purpose \<Longrightarrow>
   \<forall>s\<in>set (take 7 (domain_fields row purpose)). CHR 0x00 \<notin> set s"
  by (simp add: domain_fields_def nul_free_def)

text \<open>What follows a domain is a JSON object where it is signed and a JSON list where it is hashed.\<close>

fun structured :: "json \<Rightarrow> bool" where
  "structured (JObj kvs) = True"
| "structured (JList vs) = True"
| "structured _ = False"

lemma structured_head:
  assumes "structured v"
  shows "\<exists>c cs. canonical_json v = c # cs \<and> \<not> is_digit c"
  using assms by (cases v) (auto simp: canonical_json_def is_digit_def)

lemma domain_bytes_inj:
  assumes "nul_free row" "nul_free row'" "CHR 0x00 \<notin> set purpose" "CHR 0x00 \<notin> set purpose'"
    and "structured v" "structured v'"
  shows "domain_bytes row purpose @ encode (canonical_json v) = domain_bytes row' purpose' @ encode (canonical_json v')
    \<longleftrightarrow> domain_fields row purpose = domain_fields row' purpose' \<and> sort_keys v = sort_keys v'"
proof
  assume same: "domain_bytes row purpose @ encode (canonical_json v) = domain_bytes row' purpose' @ encode (canonical_json v')"
  let ?v = "canonical_json v" and ?v' = "canonical_json v'"
  let ?fs = "take 7 (domain_fields row purpose)" and ?fs' = "take 7 (domain_fields row' purpose')"
  have len: "length ?fs = length ?fs'" by (simp add: domain_fields_def)
  have nul: "\<forall>s\<in>set ?fs \<union> set ?fs'. CHR 0x00 \<notin> set s"
    using nul_free_fields [OF assms(1,3)] nul_free_fields [OF assms(2,4)] by blast
  have "join [CHR 0x00] (domain_fields row purpose) @ ?v = join [CHR 0x00] (domain_fields row' purpose') @ ?v'"
    using same by (simp add: domain_bytes_def encode_inj flip: encode_append)
  then have "join [CHR 0x00] (?fs @ [str_int (precision_bits row)]) @ ?v
      = join [CHR 0x00] (?fs' @ [str_int (precision_bits row')]) @ ?v'"
    by (simp only: flip: domain_fields_split)
  then have eqs: "?fs = ?fs' \<and> str_int (precision_bits row) @ ?v = str_int (precision_bits row') @ ?v'"
    by (rule join_sep_inj [OF len nul])
  then have ints: "precision_bits row = precision_bits row' \<and> ?v = ?v'"
    using structured_head [OF assms(5)] structured_head [OF assms(6)] by (intro str_int_inj) auto
  with canonical_json_append_inj [of v "[]" v' "[]"] eqs
    domain_fields_split [of row purpose] domain_fields_split [of row' purpose']
  show "domain_fields row purpose = domain_fields row' purpose' \<and> sort_keys v = sort_keys v'"
    by (metis append_Nil2 closing_simps(1))
qed (simp add: domain_bytes_def canonical_json_def)

lemma action_value_inj: "action_value a = action_value b \<longleftrightarrow> a = b"
  by (cases a; cases b) simp_all

lemma stage_value_inj: "stage_value a = stage_value b \<longleftrightarrow> a = b"
  by (cases a; cases b) simp_all

lemma task_json_inj: "sort_keys (task_json t) = sort_keys (task_json (u :: task)) \<Longrightarrow> t = u"
proof -
  assume eq: "sort_keys (task_json t) = sort_keys (task_json u)"
  have "distinct [''task_id'', ''action'', ''stage'', ''level'', ''sender'', ''receiver'', ''dependencies'']"
    by simp
  from sort_keys_fields [OF this, of
      "[JStr (task_id t), JStr (action_value (action t)), JStr (stage_value (stage t)), JInt (level t),
        JStr (sender t), JStr (receiver t), JList (map JStr (dependencies t))]"
      "[JStr (task_id u), JStr (action_value (action u)), JStr (stage_value (stage u)), JInt (level u),
        JStr (sender u), JStr (receiver u), JList (map JStr (dependencies u))]"] eq
  have "task_id t = task_id u" "action_value (action t) = action_value (action u)"
    "stage_value (stage t) = stage_value (stage u)" "level t = level u" "sender t = sender u"
    "receiver t = receiver u" "dependencies t = dependencies u"
    by (simp_all add: task_json_def comp_def inj_map_eq_map inj_def)
  then show ?thesis by (simp add: action_value_inj stage_value_inj)
qed

lemma group_json_inj: "sort_keys (group_json g) = sort_keys (group_json h) \<Longrightarrow> g = h"
proof -
  assume eq: "sort_keys (group_json g) = sort_keys (group_json h)"
  have "distinct [''group_id'', ''members'', ''coordinator'']" by simp
  from sort_keys_fields [OF this, of
      "[JInt (int (group_id g)), JList (map JStr (members g)), JStr (coordinator g)]"
      "[JInt (int (group_id h)), JList (map JStr (members h)), JStr (coordinator h)]"] eq
  show ?thesis by (simp add: group_json_def comp_def inj_map_eq_map inj_def)
qed

lemma plan_json_inj: "sort_keys (plan_json p) = sort_keys (plan_json q) \<Longrightarrow> p = q"
proof -
  assume eq: "sort_keys (plan_json p) = sort_keys (plan_json q)"
  have "distinct [''protocol_version'', ''participants'', ''groups'', ''tasks'', ''root_client_id'',
      ''root_task_id'', ''tree_levels'']" by simp
  from sort_keys_fields [OF this, of
      "[JStr (plan_protocol_version p), JList (map JStr (plan_participants p)),
        JList (map group_json (plan_groups p)), JList (map task_json (plan_tasks p)),
        JStr (root_client_id p), JStr (root_task_id p), JInt (int (tree_levels p))]"
      "[JStr (plan_protocol_version q), JList (map JStr (plan_participants q)),
        JList (map group_json (plan_groups q)), JList (map task_json (plan_tasks q)),
        JStr (root_client_id q), JStr (root_task_id q), JInt (int (tree_levels q))]"] eq
  have "plan_protocol_version p = plan_protocol_version q" "plan_participants p = plan_participants q"
    "map (\<lambda>g. sort_keys (group_json g)) (plan_groups p) = map (\<lambda>g. sort_keys (group_json g)) (plan_groups q)"
    "map (\<lambda>t. sort_keys (task_json t)) (plan_tasks p) = map (\<lambda>t. sort_keys (task_json t)) (plan_tasks q)"
    "root_client_id p = root_client_id q" "root_task_id p = root_task_id q" "tree_levels p = tree_levels q"
    by (simp_all add: plan_json_def comp_def inj_map_eq_map inj_def)
  moreover have "inj (\<lambda>g. sort_keys (group_json g))" "inj (\<lambda>t :: task. sort_keys (task_json t))"
    using group_json_inj task_json_inj by (auto simp: inj_def)
  ultimately show ?thesis by (simp add: inj_map_eq_map)
qed

text \<open>C31. The hash of a plan commits to the plan: two plans with the same hash are equal, unless
  their canonical texts are a collision of the hash function.\<close>

theorem tree_plan_hash_commits:
  assumes "tree_plan_hash sha p = tree_plan_hash sha q"
  shows "p = q \<or> (\<exists>x y. x \<noteq> y \<and> sha x = sha y \<and>
    x = encode (canonical_json (plan_json p)) \<and> y = encode (canonical_json (plan_json q)))"
proof -
  let ?x = "encode (canonical_json (plan_json p))" and ?y = "encode (canonical_json (plan_json q))"
  have sha: "sha ?x = sha ?y" using assms by (auto simp: tree_plan_hash_def hexdigest_def dest: hex_inj)
  show ?thesis
  proof (cases "?x = ?y")
    case True
    then have "canonical_json (plan_json p) @ [] = canonical_json (plan_json q) @ []"
      by (simp add: encode_inj)
    from canonical_json_append_inj [OF this] plan_json_inj show ?thesis by simp
  next
    case False
    with sha show ?thesis by blast
  qed
qed

theorem tree_plan_hash_commits_witness:
  "\<exists>x y. x \<noteq> y \<and> sample_digest x = sample_digest y \<and> x = encode (canonical_json (plan_json sample_plan))"
proof -
  have "sample_digest (encode (canonical_json (plan_json p))) = replicate 31 0 @ [125]" for p
    by (simp add: canonical_json_def plan_json_def sample_digest_def encode_def)
  then have "tree_plan_hash sample_digest sample_plan
      = tree_plan_hash sample_digest (sample_plan\<lparr>tree_levels := 2\<rparr>)"
    by (simp add: tree_plan_hash_def hexdigest_def)
  from tree_plan_hash_commits [OF this] show ?thesis by (auto simp: sample_plan_def)
qed

end
