(* ===== verification/Round_States.thy ===== *)
theory Round_States
  imports Prelude
begin

text \<open>
  \<open>app/domain/states.py\<close>: the round states, their stored text and the transition table.
  The lemmas show that the table is a strict progress order whose terminal states have no
  way out, so that the life of a round has a bounded number of transitions.
\<close>

section \<open>The states\<close>

datatype round_state =
    CREATED | REGISTRATION_OPEN | KEY_SETUP | KEY_AGGREGATION | UPDATE_COLLECTION
  | AGGREGATING | RESULT_READY | COMPLETED | FAILED | ABORTED | EXPIRED

fun state_value :: "round_state \<Rightarrow> string" where
  "state_value CREATED = ''CREATED''"
| "state_value REGISTRATION_OPEN = ''REGISTRATION_OPEN''"
| "state_value KEY_SETUP = ''KEY_SETUP''"
| "state_value KEY_AGGREGATION = ''KEY_AGGREGATION''"
| "state_value UPDATE_COLLECTION = ''UPDATE_COLLECTION''"
| "state_value AGGREGATING = ''AGGREGATING''"
| "state_value RESULT_READY = ''RESULT_READY''"
| "state_value COMPLETED = ''COMPLETED''"
| "state_value FAILED = ''FAILED''"
| "state_value ABORTED = ''ABORTED''"
| "state_value EXPIRED = ''EXPIRED''"

definition all_states :: "round_state list" where
  "all_states = [CREATED, REGISTRATION_OPEN, KEY_SETUP, KEY_AGGREGATION, UPDATE_COLLECTION,
     AGGREGATING, RESULT_READY, COMPLETED, FAILED, ABORTED, EXPIRED]"

definition TERMINAL_STATES :: "round_state set" where
  "TERMINAL_STATES = {COMPLETED, FAILED, ABORTED, EXPIRED}"

definition ACTIVE_STATES :: "round_state set" where
  "ACTIVE_STATES = set all_states - TERMINAL_STATES"

text \<open>\<open>ALLOWED_TRANSITIONS.get(source, set())\<close>: a missing key gives the empty set.\<close>

fun ALLOWED_TRANSITIONS :: "round_state \<Rightarrow> round_state set" where
  "ALLOWED_TRANSITIONS CREATED = {REGISTRATION_OPEN}"
| "ALLOWED_TRANSITIONS REGISTRATION_OPEN = {KEY_SETUP}"
| "ALLOWED_TRANSITIONS KEY_SETUP = {KEY_AGGREGATION, UPDATE_COLLECTION}"
| "ALLOWED_TRANSITIONS KEY_AGGREGATION = {UPDATE_COLLECTION}"
| "ALLOWED_TRANSITIONS UPDATE_COLLECTION = {AGGREGATING}"
| "ALLOWED_TRANSITIONS AGGREGATING = {RESULT_READY}"
| "ALLOWED_TRANSITIONS RESULT_READY = {COMPLETED}"
| "ALLOWED_TRANSITIONS _ = {}"

definition transition_allowed :: "round_state \<Rightarrow> round_state \<Rightarrow> bool" where
  "transition_allowed source target \<longleftrightarrow>
     target \<in> ALLOWED_TRANSITIONS source \<or>
     (source \<in> ACTIVE_STATES \<and> target \<in> {FAILED, ABORTED, EXPIRED})"

section \<open>Progress\<close>

text \<open>
  The position of a state along the life of a round. Every terminal state has the last
  position.
\<close>

fun stage_rank :: "round_state \<Rightarrow> nat" where
  "stage_rank CREATED = 0"
| "stage_rank REGISTRATION_OPEN = 1"
| "stage_rank KEY_SETUP = 2"
| "stage_rank KEY_AGGREGATION = 3"
| "stage_rank UPDATE_COLLECTION = 4"
| "stage_rank AGGREGATING = 5"
| "stage_rank RESULT_READY = 6"
| "stage_rank _ = 7"

lemma all_states_UNIV: "set all_states = UNIV"
proof -
  have "s \<in> set all_states" for s by (cases s) (simp_all add: all_states_def)
  then show ?thesis by auto
qed

lemma in_ACTIVE [simp]: "s \<in> ACTIVE_STATES \<longleftrightarrow> s \<notin> TERMINAL_STATES"
  by (simp add: ACTIVE_STATES_def all_states_UNIV)

lemma in_TERMINAL [simp]:
  "s \<in> TERMINAL_STATES \<longleftrightarrow> s = COMPLETED \<or> s = FAILED \<or> s = ABORTED \<or> s = EXPIRED"
  by (auto simp: TERMINAL_STATES_def)

lemma rank_le_7: "stage_rank s \<le> 7"
  by (cases s) auto

lemma rank_terminal: "stage_rank s = 7 \<longleftrightarrow> s \<in> TERMINAL_STATES"
  by (cases s) auto

lemma allowed_rank: "transition_allowed s t \<Longrightarrow> stage_rank s < stage_rank t"
  by (cases s; cases t) (simp_all add: transition_allowed_def)

lemma allowed_source_active: "transition_allowed s t \<Longrightarrow> s \<notin> TERMINAL_STATES"
  by (cases s) (auto simp: transition_allowed_def)

lemma allowed_neq: "transition_allowed s t \<Longrightarrow> s \<noteq> t"
  by (auto dest: allowed_rank)

lemma state_value_inj: "state_value s = state_value t \<longleftrightarrow> s = t"
  by (cases s; cases t) simp_all

text \<open>A life of a round: consecutive states are joined by allowed transitions.\<close>

fun lifecycle :: "round_state list \<Rightarrow> bool" where
  "lifecycle [] = True"
| "lifecycle [s] = True"
| "lifecycle (s # t # ss) = (transition_allowed s t \<and> lifecycle (t # ss))"

lemma lifecycle_rank: "lifecycle (s # ss) \<Longrightarrow> stage_rank s + length ss \<le> 7"
proof (induction ss arbitrary: s)
  case Nil
  then show ?case using rank_le_7 by simp
next
  case (Cons t ss)
  then have "stage_rank s < stage_rank t" "stage_rank t + length ss \<le> 7"
    by (auto intro: allowed_rank)
  then show ?case by simp
qed

lemma lifecycle_append: "lifecycle (ss @ [t, u]) \<longleftrightarrow> lifecycle (ss @ [t]) \<and> transition_allowed t u"
proof (induction ss)
  case (Cons a ss)
  then show ?case by (cases ss) auto
qed simp

end
