(* ===== verification/Models.thy ===== *)
theory Models
  imports Topology
begin

text \<open>
  \<open>app/domain/models.py\<close>: the request bodies and their validation, and the JSON dumps of the
  bodies that the server hashes. A body is accepted by the framework exactly when its \<open>valid_\<close>
  predicate holds. Also the Python text operations that count code points: a \<open>string\<close> holds UTF-8
  bytes, so the code points of a text are its bytes that do not continue another one.
\<close>

section \<open>Text measured in code points\<close>

definition continuation :: "char \<Rightarrow> bool" where
  "continuation c \<longleftrightarrow> (of_char c :: nat) div 64 = 2"

text \<open>\<open>len(s)\<close> and \<open>s[:n]\<close>.\<close>

definition text_length :: "string \<Rightarrow> nat" where
  "text_length s = length (filter (\<lambda>c. \<not> continuation c) s)"

fun text_take :: "nat \<Rightarrow> string \<Rightarrow> string" where
  "text_take n [] = []"
| "text_take n (c # cs) =
     (if continuation c then c # text_take n cs
      else case n of 0 \<Rightarrow> [] | Suc m \<Rightarrow> c # text_take m cs)"

lemma text_take_length: "text_length (text_take n s) \<le> n"
  by (induction n s rule: text_take.induct) (auto simp: text_length_def split: nat.splits)

lemma text_take_short: "text_length s \<le> n \<Longrightarrow> text_take n s = s"
  by (induction n s rule: text_take.induct) (auto simp: text_length_def split: nat.splits if_splits)

definition starts_with :: "string \<Rightarrow> string \<Rightarrow> bool" where
  "starts_with p s \<longleftrightarrow> take (length p) s = p"

definition text_between :: "nat \<Rightarrow> nat \<Rightarrow> string \<Rightarrow> bool" where
  "text_between lo hi s \<longleftrightarrow> lo \<le> text_length s \<and> text_length s \<le> hi"

definition lower_hex :: "char \<Rightarrow> bool" where
  "lower_hex c \<longleftrightarrow> c \<in> set ''0123456789abcdef''"

text \<open>The pattern of digests, 64 lower-case hexadecimal digits.\<close>

definition digest_pattern :: "string \<Rightarrow> bool" where
  "digest_pattern s \<longleftrightarrow> length s = 64 \<and> list_all lower_hex s"

section \<open>The model schema\<close>

datatype tensor_policy = Mean_Policy | Sum_Policy | Keep_Local

record tensor_schema =
  tensor_name :: string
  shape :: "int list"
  dtype :: string
  policy :: tensor_policy

record model_schema =
  schema_aggregation_policy :: string
  entries :: "tensor_schema list"
  schema_precision_bits :: int

definition SUPPORTED_DTYPES :: "string list" where
  "SUPPORTED_DTYPES = [''float16'', ''bfloat16'', ''float32'', ''float64'', ''uint8'', ''int8'',
     ''int16'', ''int32'', ''int64'']"

definition RESERVED_PREFIX :: string where
  "RESERVED_PREFIX = ''__deki_''"

definition uploaded :: "tensor_schema \<Rightarrow> bool" where
  "uploaded entry \<longleftrightarrow> policy entry \<in> {Mean_Policy, Sum_Policy}"

text \<open>\<open>TensorSchema\<close>: the field constraints, then \<open>validate_tensor\<close>.\<close>

definition valid_tensor :: "tensor_schema \<Rightarrow> bool" where
  "valid_tensor t \<longleftrightarrow>
     text_between 1 1024 (tensor_name t) \<and>
     length (shape t) \<le> 8 \<and> list_all (\<lambda>d. 0 \<le> d \<and> d \<le> 1000000000) (shape t) \<and>
     dtype t \<in> set SUPPORTED_DTYPES \<and>
     \<not> (starts_with RESERVED_PREFIX (tensor_name t) \<or> CHR 0x00 \<in> set (tensor_name t)) \<and>
     \<not> (uploaded t \<and> \<not> (starts_with ''float'' (dtype t) \<or> starts_with ''bfloat'' (dtype t)))"

text \<open>\<open>ModelSchema\<close>: the field constraints, then \<open>validate_entries\<close>.\<close>

definition valid_schema :: "model_schema \<Rightarrow> bool" where
  "valid_schema m \<longleftrightarrow>
     schema_aggregation_policy m = ''EQUAL_WEIGHTED'' \<and>
     list_all valid_tensor (entries m) \<and>
     1 \<le> length (entries m) \<and> length (entries m) \<le> 4096 \<and>
     0 \<le> schema_precision_bits m \<and> schema_precision_bits m \<le> 52 \<and>
     (let names = map tensor_name (entries m) in
      \<not> (names \<noteq> sort names \<or> length (remdups names) \<noteq> length names)) \<and>
     list_ex uploaded (entries m)"

section \<open>Requests\<close>

record create_round_request =
  request_protocol_version :: string
  request_schema :: model_schema
  request_schema_hash :: string
  request_participants :: "string list"
  request_deadline_seconds :: "int option"

definition client_head :: "char \<Rightarrow> bool" where
  "client_head c \<longleftrightarrow> c \<in> set ''ABCDEFGHIJKLMNOPQRSTUVWXYZabcdefghijklmnopqrstuvwxyz0123456789''"

text \<open>The pattern of participant identifiers.\<close>

fun client_pattern :: "string \<Rightarrow> bool" where
  "client_pattern [] = False"
| "client_pattern (c # cs) \<longleftrightarrow>
     client_head c \<and> length cs \<le> 127 \<and> list_all (\<lambda>d. client_head d \<or> d \<in> set ''._-'') cs"

definition valid_create_request :: "create_round_request \<Rightarrow> bool" where
  "valid_create_request b \<longleftrightarrow>
     valid_schema (request_schema b) \<and> digest_pattern (request_schema_hash b) \<and>
     list_all client_pattern (request_participants b) \<and> 3 \<le> length (request_participants b) \<and>
     (case request_deadline_seconds b of None \<Rightarrow> True | Some d \<Rightarrow> 5 \<le> d \<and> d \<le> 86400)"

record public_key_artifact =
  key_text :: string
  key_signature :: string

definition valid_public_key :: "public_key_artifact \<Rightarrow> bool" where
  "valid_public_key b \<longleftrightarrow> text_between 40 64 (key_text b) \<and> text_between 80 128 (key_signature b)"

record key_envelope =
  envelope_nonce :: string
  envelope_ciphertext :: string

definition valid_envelope :: "key_envelope \<Rightarrow> bool" where
  "valid_envelope e \<longleftrightarrow>
     text_between 16 24 (envelope_nonce e) \<and> text_between 1 4096 (envelope_ciphertext e)"

text \<open>The message dictionary as the list of its items; its keys are distinct.\<close>

record key_bundle_artifact =
  messages :: "(string \<times> key_envelope) list"
  bundle_signature :: string

definition valid_key_bundle :: "key_bundle_artifact \<Rightarrow> bool" where
  "valid_key_bundle b \<longleftrightarrow> distinct (map fst (messages b)) \<and> 2 \<le> length (messages b) \<and>
     list_all (\<lambda>(_, e). valid_envelope e) (messages b) \<and> text_between 80 128 (bundle_signature b)"

definition valid_key_complete :: "string \<Rightarrow> bool" where
  "valid_key_complete context_commitment \<longleftrightarrow> digest_pattern context_commitment"

definition valid_abort :: "string \<Rightarrow> bool" where
  "valid_abort reason \<longleftrightarrow> text_between 1 128 reason"

definition valid_receipt :: "string \<Rightarrow> bool" where
  "valid_receipt artifact_digest \<longleftrightarrow> digest_pattern artifact_digest"

section \<open>JSON dumps\<close>

fun policy_value :: "tensor_policy \<Rightarrow> string" where
  "policy_value Mean_Policy = ''MEAN''"
| "policy_value Sum_Policy = ''SUM''"
| "policy_value Keep_Local = ''KEEP_LOCAL''"

definition tensor_json :: "tensor_schema \<Rightarrow> json" where
  "tensor_json t = JObj [(''name'', JStr (tensor_name t)), (''shape'', JList (map JInt (shape t))),
     (''dtype'', JStr (dtype t)), (''policy'', JStr (policy_value (policy t)))]"

definition schema_json :: "model_schema \<Rightarrow> json" where
  "schema_json m = JObj [(''aggregation_policy'', JStr (schema_aggregation_policy m)),
     (''entries'', JList (map tensor_json (entries m))),
     (''precision_bits'', JInt (schema_precision_bits m))]"

definition create_request_json :: "create_round_request \<Rightarrow> json" where
  "create_request_json b = JObj [(''protocol_version'', JStr (request_protocol_version b)),
     (''model_schema'', schema_json (request_schema b)),
     (''model_schema_hash'', JStr (request_schema_hash b)),
     (''participants'', JList (map JStr (request_participants b))),
     (''deadline_seconds'', case request_deadline_seconds b of None \<Rightarrow> JNull | Some d \<Rightarrow> JInt d)]"

definition public_key_json :: "public_key_artifact \<Rightarrow> json" where
  "public_key_json b = JObj [(''public_key'', JStr (key_text b)), (''signature'', JStr (key_signature b))]"

definition envelope_json :: "key_envelope \<Rightarrow> json" where
  "envelope_json e = JObj [(''nonce'', JStr (envelope_nonce e)), (''ciphertext'', JStr (envelope_ciphertext e))]"

definition messages_json :: "(string \<times> key_envelope) list \<Rightarrow> json" where
  "messages_json ms = JObj (map (\<lambda>(c, e). (c, envelope_json e)) ms)"

definition key_bundle_json :: "key_bundle_artifact \<Rightarrow> json" where
  "key_bundle_json b = JObj [(''messages'', messages_json (messages b)), (''signature'', JStr (bundle_signature b))]"

end
