(* ===== verification/Tables.thy ===== *)
theory Tables
  imports Round_States Models
begin

text \<open>
  The store of \<open>app/persistence/database.py\<close>: one record per table row, the database as the
  list of the rows of each table in rowid order, the SQL statements with the constraints of
  \<open>SCHEMA\<close> (primary keys, \<open>UNIQUE\<close> and foreign keys, checked at the end of the statement), and
  \<open>transaction\<close>, which rolls back when its body raises. Columns that hold canonical JSON hold
  the value; two such texts are equal exactly when the canonical texts of the values are.
  The event numbers of the audit log are read by nobody and are left out.
\<close>

section \<open>Rows\<close>

record member_row =
  m_federation :: string
  m_client :: string
  m_token_hash :: string
  m_signing_key :: string
  m_role :: string
  m_revoked :: bool

record round_row = round_context +
  model_schema_json :: model_schema
  participants_json :: "string list"
  expected_count :: nat
  status :: round_state
  state_version :: nat
  created_at :: real
  deadline_at :: real
  completed_at :: "real option"
  retention_at :: real
  failure_code :: "string option"
  failure_detail :: "string option"

datatype participant_state =
    AWAITING_PUBLIC_KEY | PUBLIC_KEY_SUBMITTED | KEY_BUNDLE_SUBMITTED | READY_FOR_UPDATE
  | UPDATE_SUBMITTED | PARTICIPANT_COMPLETED

record participant_row =
  p_round :: string
  p_client :: string
  p_state :: participant_state
  p_public_key :: "public_key_artifact option"
  p_key_bundle :: "key_bundle_artifact option"
  p_commitment :: "string option"
  p_update_artifact :: "string option"
  p_update_digest :: "string option"
  p_integrity_tag :: "string option"
  p_completed :: bool
  p_last_seen :: real

record artifact_row =
  a_id :: string
  a_round :: string
  a_client :: "string option"
  a_type :: string
  a_path :: string
  a_digest :: string
  a_size :: nat
  a_created :: real

text \<open>The responses that the idempotency table stores.\<close>

record round_created = round_context +
  response_state :: round_state
  response_version :: nat
  response_expected :: nat
  response_deadline :: real

datatype response =
    RoundCreated round_created
  | SlotAccepted string
  | ArtifactAccepted string string nat
  | Accepted

record idempotency_row =
  i_client :: string
  i_round :: string
  i_operation :: string
  i_key :: string
  i_digest :: string
  i_response :: response
  i_created :: real

datatype job_state = JOB_READY | CLAIMED | JOB_COMPLETED | JOB_FAILED

record job_row =
  j_id :: string
  j_round :: string
  j_state :: job_state
  j_attempts :: nat
  j_max_attempts :: nat
  j_claimed_at :: "real option"
  j_lease_until :: "real option"
  j_claim_token :: "string option"
  j_result_tag :: "string option"
  j_last_error :: "string option"

record audit_row =
  e_round :: "string option"
  e_actor :: string
  e_event :: string
  e_version :: "nat option"
  e_created :: real
  e_detail :: "string option"

record plan_row =
  tp_round :: string
  tp_hash :: string
  tp_plan :: tree_plan
  tp_manifest :: "manifest_entry list"
  tp_created :: real

datatype task_state = WAITING | READY | ARTIFACT_UPLOADED | TASK_COMPLETED

record key_task_row = task +
  t_round :: string
  t_state :: task_state
  t_artifact :: "string option"
  t_ciphertext_digest :: "string option"
  t_nonce :: "string option"
  t_signature :: "string option"
  t_completed_at :: "real option"

record dependency_row =
  d_round :: string
  d_task :: string
  d_dependency :: string

record task_receipt_row =
  tr_round :: string
  tr_task :: string
  tr_actor :: string
  tr_digest :: string
  tr_created :: real

record final_key_row =
  fk_round :: string
  fk_artifact :: string
  fk_digest :: string
  fk_nonce :: string
  fk_signature :: string
  fk_sender :: string
  fk_created :: real

record final_receipt_row =
  fr_round :: string
  fr_client :: string
  fr_digest :: string
  fr_created :: real

section \<open>The database\<close>

record db =
  members_of :: "member_row list"
  rounds :: "round_row list"
  participants :: "participant_row list"
  artifacts :: "artifact_row list"
  idempotency :: "idempotency_row list"
  jobs :: "job_row list"
  audit_events :: "audit_row list"
  tree_plans :: "plan_row list"
  key_tasks :: "key_task_row list"
  task_dependencies :: "dependency_row list"
  task_receipts :: "task_receipt_row list"
  final_keys :: "final_key_row list"
  final_key_receipts :: "final_receipt_row list"

definition empty_db :: db where
  "empty_db = \<lparr>members_of = [], rounds = [], participants = [], artifacts = [], idempotency = [],
     jobs = [], audit_events = [], tree_plans = [], key_tasks = [], task_dependencies = [],
     task_receipts = [], final_keys = [], final_key_receipts = []\<rparr>"

section \<open>Statements\<close>

definition checked :: "(db \<Rightarrow> bool) \<Rightarrow> (db \<Rightarrow> db) \<Rightarrow> db stmt" where
  "checked ok f = (\<lambda>s. if ok s then Inr (f s) else Inl IntegrityError)"

text \<open>\<open>executemany\<close>.\<close>

fun exec_many :: "('r \<Rightarrow> 's stmt) \<Rightarrow> 'r list \<Rightarrow> 's stmt" where
  "exec_many f [] s = Inr s"
| "exec_many f (x # xs) s = (case f x s of Inl e \<Rightarrow> Inl e | Inr s' \<Rightarrow> exec_many f xs s')"

definition round_exists :: "string \<Rightarrow> db \<Rightarrow> bool" where
  "round_exists rid s \<longleftrightarrow> list_ex (\<lambda>r. round_id r = rid) (rounds s)"

definition artifact_exists :: "string \<Rightarrow> db \<Rightarrow> bool" where
  "artifact_exists aid s \<longleftrightarrow> list_ex (\<lambda>a. a_id a = aid) (artifacts s)"

definition task_exists :: "string \<Rightarrow> string \<Rightarrow> db \<Rightarrow> bool" where
  "task_exists rid tid s \<longleftrightarrow> list_ex (\<lambda>t. t_round t = rid \<and> task_id t = tid) (key_tasks s)"

definition insert_round :: "round_row \<Rightarrow> db stmt" where
  "insert_round r = checked (\<lambda>s. \<not> round_exists (round_id r) s) (rounds_update (\<lambda>rs. rs @ [r]))"

definition insert_participant :: "participant_row \<Rightarrow> db stmt" where
  "insert_participant p = checked
     (\<lambda>s. \<not> list_ex (\<lambda>q. p_round q = p_round p \<and> p_client q = p_client p) (participants s) \<and>
       round_exists (p_round p) s)
     (participants_update (\<lambda>ps. ps @ [p]))"

text \<open>Rows whose client is \<open>NULL\<close> are distinct for \<open>UNIQUE(round_id, client_id, artifact_type)\<close>.\<close>

definition insert_artifact :: "artifact_row \<Rightarrow> db stmt" where
  "insert_artifact a = checked
     (\<lambda>s. \<not> list_ex (\<lambda>b. a_id b = a_id a \<or> a_path b = a_path a \<or>
         a_client a \<noteq> None \<and> a_client b = a_client a \<and> a_round b = a_round a \<and> a_type b = a_type a)
         (artifacts s) \<and> round_exists (a_round a) s)
     (artifacts_update (\<lambda>as. as @ [a]))"

definition insert_idempotency :: "idempotency_row \<Rightarrow> db stmt" where
  "insert_idempotency i = checked
     (\<lambda>s. \<not> list_ex (\<lambda>k. i_client k = i_client i \<and> i_round k = i_round i \<and>
         i_operation k = i_operation i \<and> i_key k = i_key i) (idempotency s))
     (idempotency_update (\<lambda>is. is @ [i]))"

definition insert_job :: "job_row \<Rightarrow> db stmt" where
  "insert_job j = checked
     (\<lambda>s. \<not> list_ex (\<lambda>k. j_id k = j_id j \<or> j_round k = j_round j) (jobs s) \<and> round_exists (j_round j) s)
     (jobs_update (\<lambda>js. js @ [j]))"

definition insert_audit :: "audit_row \<Rightarrow> db stmt" where
  "insert_audit e = always (audit_events_update (\<lambda>es. es @ [e]))"

definition insert_plan :: "plan_row \<Rightarrow> db stmt" where
  "insert_plan p = checked
     (\<lambda>s. \<not> list_ex (\<lambda>q. tp_round q = tp_round p) (tree_plans s) \<and> round_exists (tp_round p) s)
     (tree_plans_update (\<lambda>ps. ps @ [p]))"

definition insert_task :: "key_task_row \<Rightarrow> db stmt" where
  "insert_task t = checked
     (\<lambda>s. \<not> task_exists (t_round t) (task_id t) s \<and> round_exists (t_round t) s \<and>
       (case t_artifact t of None \<Rightarrow> True | Some aid \<Rightarrow> artifact_exists aid s))
     (key_tasks_update (\<lambda>ts. ts @ [t]))"

definition insert_dependency :: "dependency_row \<Rightarrow> db stmt" where
  "insert_dependency d = checked
     (\<lambda>s. \<not> list_ex (\<lambda>e. d_round e = d_round d \<and> d_task e = d_task d \<and> d_dependency e = d_dependency d)
         (task_dependencies s) \<and>
       task_exists (d_round d) (d_task d) s \<and> task_exists (d_round d) (d_dependency d) s)
     (task_dependencies_update (\<lambda>ds. ds @ [d]))"

definition insert_task_receipt :: "task_receipt_row \<Rightarrow> db stmt" where
  "insert_task_receipt r = checked
     (\<lambda>s. \<not> list_ex (\<lambda>q. tr_round q = tr_round r \<and> tr_task q = tr_task r) (task_receipts s) \<and>
       task_exists (tr_round r) (tr_task r) s)
     (task_receipts_update (\<lambda>rs. rs @ [r]))"

definition insert_final_key :: "final_key_row \<Rightarrow> db stmt" where
  "insert_final_key k = checked
     (\<lambda>s. \<not> list_ex (\<lambda>q. fk_round q = fk_round k) (final_keys s) \<and>
       round_exists (fk_round k) s \<and> artifact_exists (fk_artifact k) s)
     (final_keys_update (\<lambda>ks. ks @ [k]))"

definition insert_final_receipt :: "final_receipt_row \<Rightarrow> db stmt" where
  "insert_final_receipt r = checked
     (\<lambda>s. \<not> list_ex (\<lambda>q. fr_round q = fr_round r \<and> fr_client q = fr_client r) (final_key_receipts s) \<and>
       round_exists (fr_round r) s)
     (final_key_receipts_update (\<lambda>rs. rs @ [r]))"

text \<open>The artifact reference of \<open>key_tasks\<close> is checked when the column is written.\<close>

definition update_task_artifact ::
    "(key_task_row \<Rightarrow> bool) \<Rightarrow> (key_task_row \<Rightarrow> key_task_row) \<Rightarrow> string \<Rightarrow> db stmt" where
  "update_task_artifact P f aid = checked
     (\<lambda>s. artifact_exists aid s \<or> \<not> list_ex P (key_tasks s)) (key_tasks_update (update_where P f))"

definition audit :: "string \<Rightarrow> string \<Rightarrow> string \<Rightarrow> nat option \<Rightarrow> real \<Rightarrow> string option \<Rightarrow> db stmt" where
  "audit rid actor event version now detail = insert_audit \<lparr>e_round = Some rid, e_actor = actor,
     e_event = event, e_version = version, e_created = now, e_detail = detail\<rparr>"

definition remember :: "string \<Rightarrow> string \<Rightarrow> string \<Rightarrow> string \<Rightarrow> string \<Rightarrow> response \<Rightarrow> real \<Rightarrow> db stmt" where
  "remember client rid operation idem_key digest resp now = insert_idempotency
     \<lparr>i_client = client, i_round = rid, i_operation = operation, i_key = idem_key,
      i_digest = digest, i_response = resp, i_created = now\<rparr>"

section \<open>Transactions\<close>

text \<open>
  \<open>with self.transaction()\<close>: what the body did is committed when it returns and undone
  when it raises. \<open>BEGIN IMMEDIATE\<close> takes the write lock, so transactions do not interleave.
\<close>

definition transaction :: "(db, 'a) tx \<Rightarrow> (db, 'a) tx" where
  "transaction body s = (case body s of (Inl e, s') \<Rightarrow> (Inl e, s) | (Inr x, s') \<Rightarrow> (Inr x, s'))"

lemma transaction_Inl: "transaction body s = (Inl e, s') \<Longrightarrow> s' = s"
  by (auto simp: transaction_def split: prod.splits sum.splits)

lemma transaction_Inr [tx_simps]: "transaction body s = (Inr x, s') \<longleftrightarrow> body s = (Inr x, s')"
  by (auto simp: transaction_def split: prod.splits sum.splits)

lemma transaction_ret [tx_simps]: "body s = (Inr x, s') \<Longrightarrow> transaction body s = (Inr x, s')"
  by (simp add: transaction_def)

lemma transaction_throw [tx_simps]: "body s = (Inl e, s') \<Longrightarrow> transaction body s = (Inl e, s)"
  by (simp add: transaction_def)

section \<open>Idempotency\<close>

text \<open>
  The block that opens every recorded operation: a known key either replays the stored
  response or, with another digest, is refused.
\<close>

definition prior_response :: "string \<Rightarrow> string \<Rightarrow> string \<Rightarrow> string \<Rightarrow> db \<Rightarrow> idempotency_row option" where
  "prior_response client rid operation idem_key s = fetchone (\<lambda>i. i_client i = client \<and> i_round i = rid \<and>
     i_operation i = operation \<and> i_key i = idem_key) (idempotency s)"

definition idempotent :: "string \<Rightarrow> string \<Rightarrow> string \<Rightarrow> string \<Rightarrow> string
    \<Rightarrow> (response \<Rightarrow> (db, 'a) tx) \<Rightarrow> (db, 'a) tx \<Rightarrow> (db, 'a) tx" where
  "idempotent client rid operation idem_key digest replay body =
     read (prior_response client rid operation idem_key) (\<lambda>prior.
       case prior of
         Some p \<Rightarrow> if i_digest p \<noteq> digest then throw (ValueError ''IDEMPOTENCY_CONFLICT'')
                   else replay (i_response p)
       | None \<Rightarrow> body)"

section \<open>Lookups\<close>

definition round_of :: "string \<Rightarrow> db \<Rightarrow> round_row option" where
  "round_of rid s = fetchone (\<lambda>r. round_id r = rid) (rounds s)"

definition participant_of :: "string \<Rightarrow> string \<Rightarrow> db \<Rightarrow> participant_row option" where
  "participant_of rid client s = fetchone (\<lambda>p. p_round p = rid \<and> p_client p = client) (participants s)"

definition participants_of :: "string \<Rightarrow> db \<Rightarrow> participant_row list" where
  "participants_of rid s = filter (\<lambda>p. p_round p = rid) (participants s)"

definition task_of :: "string \<Rightarrow> string \<Rightarrow> db \<Rightarrow> key_task_row option" where
  "task_of rid tid s = fetchone (\<lambda>t. t_round t = rid \<and> task_id t = tid) (key_tasks s)"

definition plan_of :: "string \<Rightarrow> db \<Rightarrow> plan_row option" where
  "plan_of rid s = fetchone (\<lambda>p. tp_round p = rid) (tree_plans s)"

definition final_of :: "string \<Rightarrow> db \<Rightarrow> final_key_row option" where
  "final_of rid s = fetchone (\<lambda>k. fk_round k = rid) (final_keys s)"

definition artifact_of :: "string \<Rightarrow> db \<Rightarrow> artifact_row option" where
  "artifact_of aid s = fetchone (\<lambda>a. a_id a = aid) (artifacts s)"

lemma round_of_id: "round_of rid s = Some r \<Longrightarrow> round_id r = rid"
  unfolding round_of_def by (rule find_SomeD1)

lemma round_of_in: "round_of rid s = Some r \<Longrightarrow> r \<in> set (rounds s)"
  unfolding round_of_def by (rule find_Some_mem)

lemma participant_of_keys: "participant_of rid c s = Some p \<Longrightarrow> p_round p = rid \<and> p_client p = c"
  unfolding participant_of_def by (rule find_SomeD1)

lemma participant_of_in: "participant_of rid c s = Some p \<Longrightarrow> p \<in> set (participants s)"
  unfolding participant_of_def by (rule find_Some_mem)

lemma task_of_keys: "task_of rid tid s = Some t \<Longrightarrow> t_round t = rid \<and> task_id t = tid"
  unfolding task_of_def by (rule find_SomeD1)

lemma task_of_in: "task_of rid tid s = Some t \<Longrightarrow> t \<in> set (key_tasks s)"
  unfolding task_of_def by (rule find_Some_mem)

lemma plan_of_in: "plan_of rid s = Some p \<Longrightarrow> p \<in> set (tree_plans s) \<and> tp_round p = rid"
  unfolding plan_of_def by (drule find_SomeD) auto

lemma final_of_in: "final_of rid s = Some k \<Longrightarrow> k \<in> set (final_keys s) \<and> fk_round k = rid"
  unfolding final_of_def by (drule find_SomeD) auto

lemma round_exists_iff: "round_exists rid s \<longleftrightarrow> round_of rid s \<noteq> None"
  by (auto simp: round_exists_def round_of_def list_ex_iff find_None_iff)

end
