(* ===== verification/Base64.thy ===== *)
theory Base64
  imports Json
begin

text \<open>
  \<open>base64.b64decode(text, validate=True)\<close> and \<open>base64.b64encode\<close>: quads of the standard alphabet,
  with padding only in the last one; anything else raises, which is \<open>None\<close> here. Every caller
  turns any exception of the decoder into the same error.
\<close>

definition b64_value :: "char \<Rightarrow> nat option" where
  "b64_value c =
     (let n = of_char c in
      if 65 \<le> n \<and> n \<le> 90 then Some (n - 65)
      else if 97 \<le> n \<and> n \<le> 122 then Some (n - 71)
      else if 48 \<le> n \<and> n \<le> 57 then Some (n + 4)
      else if n = 43 then Some 62 else if n = 47 then Some 63 else None)"

fun b64decode :: "string \<Rightarrow> bytes option" where
  "b64decode [] = Some []"
| "b64decode (a # b # c # d # rest) =
     (case (b64_value a, b64_value b) of
        (Some x, Some y) \<Rightarrow>
          (let first = of_nat (x * 4 + y div 16) in
           if d = CHR ''='' \<and> c = CHR ''='' then (if rest = [] then Some [first] else None)
           else case b64_value c of
             None \<Rightarrow> None
           | Some z \<Rightarrow>
               (let second = of_nat (y mod 16 * 16 + z div 4) in
                if d = CHR ''='' then (if rest = [] then Some [first, second] else None)
                else case (b64_value d, b64decode rest) of
                  (Some w, Some bs) \<Rightarrow> Some (first # second # of_nat (z mod 4 * 64 + w) # bs)
                | _ \<Rightarrow> None))
      | _ \<Rightarrow> None)"
| "b64decode _ = None"

definition b64_char :: "nat \<Rightarrow> char" where
  "b64_char n = char_of
     (if n < 26 then n + 65 else if n < 52 then n + 71 else if n < 62 then n - 4
      else if n = 62 then 43 else 47)"

fun b64encode :: "bytes \<Rightarrow> string" where
  "b64encode [] = []"
| "b64encode [x] = [b64_char (unat x div 4), b64_char (unat x mod 4 * 16), CHR ''='', CHR ''='']"
| "b64encode [x, y] =
     [b64_char (unat x div 4), b64_char (unat x mod 4 * 16 + unat y div 16),
      b64_char (unat y mod 16 * 4), CHR ''='']"
| "b64encode (x # y # z # rest) =
     b64_char (unat x div 4) # b64_char (unat x mod 4 * 16 + unat y div 16)
     # b64_char (unat y mod 16 * 4 + unat z div 64) # b64_char (unat z mod 64) # b64encode rest"

section \<open>Decoding inverts encoding\<close>

lemma b64_char_value: "n < 64 \<Longrightarrow> b64_value (b64_char n) = Some n"
  by (auto simp: b64_char_def b64_value_def Let_def)

lemma b64_char_not_pad: "n < 64 \<Longrightarrow> b64_char n \<noteq> CHR ''=''"
proof
  assume "n < 64" "b64_char n = CHR ''=''"
  moreover have "b64_value (CHR ''='') = None" by (simp add: b64_value_def)
  ultimately show False using b64_char_value [of n] by simp
qed

lemma unat_byte: "unat (x :: 8 word) < 256"
  using unsigned_less [of x, where ?'a = nat] by simp

lemma byte_parts:
  fixes x y z :: nat
  assumes "x < 256" "y < 256" "z < 256"
  shows "x div 4 < 64" "x mod 4 * 16 + y div 16 < 64" "y mod 16 * 4 + z div 64 < 64" "z mod 64 < 64"
    "x mod 4 * 16 < 64" "y mod 16 * 4 < 64"
proof -
  have "x div 4 < 64" "y div 16 < 16" "z div 64 < 4"
    using assms by (simp_all add: less_mult_imp_div_less)
  moreover have "x mod 4 < 4" "y mod 16 < 16" "z mod 64 < 64" by simp_all
  ultimately show "x div 4 < 64" "x mod 4 * 16 + y div 16 < 64" "y mod 16 * 4 + z div 64 < 64"
    "z mod 64 < 64" "x mod 4 * 16 < 64" "y mod 16 * 4 < 64" by linarith+
qed

lemma byte_join:
  fixes x y z :: nat
  assumes "x < 256" "y < 256" "z < 256"
  shows "x div 4 * 4 + (x mod 4 * 16 + y div 16) div 16 = x"
    "(x mod 4 * 16 + y div 16) mod 16 * 16 + (y mod 16 * 4 + z div 64) div 4 = y"
    "(y mod 16 * 4 + z div 64) mod 4 * 64 + z mod 64 = z"
    "x div 4 * 4 + (x mod 4 * 16) div 16 = x"
    "(x mod 4 * 16 + y div 16) mod 16 * 16 + (y mod 16 * 4) div 4 = y"
proof -
  have lt: "y div 16 < 16" "z div 64 < 4"
    using assms by (simp_all add: less_mult_imp_div_less)
  have "(x mod 4 * 16 + y div 16) div 16 = x mod 4" "(x mod 4 * 16 + y div 16) mod 16 = y div 16"
    "(y mod 16 * 4 + z div 64) div 4 = y mod 16" "(y mod 16 * 4 + z div 64) mod 4 = z div 64"
    using lt by simp_all
  then show "x div 4 * 4 + (x mod 4 * 16 + y div 16) div 16 = x"
    "(x mod 4 * 16 + y div 16) mod 16 * 16 + (y mod 16 * 4 + z div 64) div 4 = y"
    "(y mod 16 * 4 + z div 64) mod 4 * 64 + z mod 64 = z"
    "x div 4 * 4 + (x mod 4 * 16) div 16 = x"
    "(x mod 4 * 16 + y div 16) mod 16 * 16 + (y mod 16 * 4) div 4 = y" by simp_all
qed

lemma b64_decode_encode: "b64decode (b64encode bs) = Some bs"
proof (induction bs rule: b64encode.induct)
  case (2 x)
  from byte_parts [of "unat x" 0 0] byte_join [of "unat x" 0 0] show ?case
    by (simp add: unat_byte b64_char_value)
next
  case (3 x y)
  from byte_parts [of "unat x" "unat y" 0] byte_join [of "unat x" "unat y" 0] show ?case
    by (simp add: unat_byte b64_char_value b64_char_not_pad Let_def del: of_nat_add of_nat_mult)
next
  case (4 x y z rest)
  from byte_parts [of "unat x" "unat y" "unat z"] byte_join [of "unat x" "unat y" "unat z"] 4 show ?case
    by (simp add: unat_byte b64_char_value b64_char_not_pad Let_def del: of_nat_add of_nat_mult)
qed simp

end
