(* ===== verification/Round_Store.thy ===== *)
theory Round_Store
  imports Tables Base64
begin

text \<open>
  The methods of \<open>Database\<close> that concern members and the life of a round: enrolment, creation,
  the guarded transition, lazy and periodic expiry, failure, abortion, retention and purge. Every
  reading of the clock and every \<open>uuid4\<close> is an argument.
\<close>

section \<open>Members\<close>

text \<open>\<open>config.get(key, default)\<close>.\<close>

definition get_or :: "(string \<times> string) list \<Rightarrow> string \<Rightarrow> string \<Rightarrow> string" where
  "get_or config key dflt = (case map_of config key of None \<Rightarrow> dflt | Some v \<Rightarrow> v)"

text \<open>\<open>INSERT ... ON CONFLICT(federation_id,client_id) DO UPDATE\<close>, which leaves \<open>revoked\<close> alone.\<close>

definition upsert_member :: "member_row \<Rightarrow> db stmt" where
  "upsert_member m =
     (let same = (\<lambda>n. m_federation n = m_federation m \<and> m_client n = m_client m) in
      checked (\<lambda>s. \<not> list_ex (\<lambda>n. \<not> same n \<and> m_token_hash n = m_token_hash m) (members_of s))
        (members_of_update (\<lambda>ms.
           if list_ex same ms
           then update_where same (\<lambda>n. n\<lparr>m_token_hash := m_token_hash m,
                  m_signing_key := m_signing_key m, m_role := m_role m\<rparr>) ms
           else ms @ [m])))"

text \<open>One pass of the inner loop of \<open>_initialize_once\<close>; statements commit one by one.\<close>

definition enrol :: "(bytes \<Rightarrow> bytes) \<Rightarrow> string \<Rightarrow> string \<Rightarrow> (string \<times> string) list \<Rightarrow> (db, unit) tx" where
  "enrol sha federation client config =
     (let token = get_or config ''token'' ''''; signing_key = get_or config ''signing_public_key'' '''' in
      case b64decode signing_key of
        None \<Rightarrow> throw (RuntimeError ''member signing_public_key is invalid'')
      | Some key_bytes \<Rightarrow>
          if text_length token < 32 \<or> length key_bytes \<noteq> 32
          then throw (RuntimeError
            ''every configured member needs a high-entropy token and raw Ed25519 public key'')
          else exec (upsert_member \<lparr>m_federation = federation, m_client = client,
                 m_token_hash = hexdigest sha (encode token), m_signing_key = signing_key,
                 m_role = get_or config ''role'' ''participant'', m_revoked = False\<rparr>) (ret ()))"

fun initialize_once :: "(bytes \<Rightarrow> bytes) \<Rightarrow> (string \<times> string \<times> (string \<times> string) list) list \<Rightarrow> (db, unit) tx" where
  "initialize_once sha [] = ret ()"
| "initialize_once sha ((federation, client, config) # rest) =
     call (enrol sha federation client config) (\<lambda>_. initialize_once sha rest)"

definition member_for_token :: "(bytes \<Rightarrow> bytes) \<Rightarrow> string \<Rightarrow> db \<Rightarrow> member_row option" where
  "member_for_token sha token s =
     (let digest = hexdigest sha (encode token) in
      fetchone (\<lambda>m. m_token_hash m = digest \<and> \<not> m_revoked m) (members_of s))"

definition member :: "string \<Rightarrow> string \<Rightarrow> db \<Rightarrow> member_row option" where
  "member federation client s =
     fetchone (\<lambda>m. m_federation m = federation \<and> m_client m = client \<and> \<not> m_revoked m) (members_of s)"

section \<open>Creation\<close>

definition new_participant :: "string \<Rightarrow> real \<Rightarrow> string \<Rightarrow> participant_row" where
  "new_participant rid now client = \<lparr>p_round = rid, p_client = client, p_state = AWAITING_PUBLIC_KEY,
     p_public_key = None, p_key_bundle = None, p_commitment = None, p_update_artifact = None,
     p_update_digest = None, p_integrity_tag = None, p_completed = False, p_last_seen = now\<rparr>"

definition new_round :: "real \<Rightarrow> string \<Rightarrow> string \<Rightarrow> string \<Rightarrow> model_schema \<Rightarrow> string \<Rightarrow> string list
    \<Rightarrow> string \<Rightarrow> int \<Rightarrow> int \<Rightarrow> round_row" where
  "new_round now rid federation version schema schema_hash clients manifest_hash ttl retention =
     \<lparr>protocol_version = version, federation_id = federation, round_id = rid,
      model_schema_hash = schema_hash, participant_manifest_hash = manifest_hash,
      aggregation_policy = schema_aggregation_policy schema,
      precision_bits = schema_precision_bits schema,
      model_schema_json = schema, participants_json = clients, expected_count = length clients,
      status = REGISTRATION_OPEN, state_version = 1, created_at = now,
      deadline_at = now + of_int ttl, completed_at = None, retention_at = now + of_int retention,
      failure_code = None, failure_detail = None\<rparr>"

definition created_response :: "round_row \<Rightarrow> round_created" where
  "created_response r = \<lparr>protocol_version = protocol_version r, federation_id = federation_id r,
     round_id = round_id r, model_schema_hash = model_schema_hash r,
     participant_manifest_hash = participant_manifest_hash r,
     aggregation_policy = aggregation_policy r, precision_bits = precision_bits r,
     response_state = REGISTRATION_OPEN, response_version = 1,
     response_expected = expected_count r, response_deadline = deadline_at r\<rparr>"

definition create_round :: "real \<Rightarrow> string \<Rightarrow> string \<Rightarrow> string \<Rightarrow> model_schema \<Rightarrow> string \<Rightarrow> string list
    \<Rightarrow> string \<Rightarrow> int \<Rightarrow> int \<Rightarrow> string \<Rightarrow> string \<Rightarrow> string \<Rightarrow> (db, response \<times> bool) tx" where
  "create_round now rid federation version schema schema_hash clients manifest_hash ttl retention
     actor idem_key request_digest =
   transaction (
     idempotent actor federation ''create'' idem_key request_digest (\<lambda>resp. ret (resp, True)) (
     let row = new_round now rid federation version schema schema_hash clients manifest_hash ttl retention;
         resp = RoundCreated (created_response row) in
     exec (insert_round row) (
     exec (exec_many insert_participant (map (new_participant rid now) clients)) (
     exec (audit rid actor ''ROUND_CREATED'' (Some 1) now None) (
     exec (remember actor federation ''create'' idem_key request_digest resp now) (
     ret (resp, False)))))))"

section \<open>Transitions\<close>

text \<open>The \<open>UPDATE\<close> of \<open>_transition\<close>, as it acts on the matching row.\<close>

definition advance :: "real \<Rightarrow> round_state \<Rightarrow> string \<Rightarrow> string option \<Rightarrow> round_row \<Rightarrow> round_row" where
  "advance now target event detail r = r\<lparr>
     status := target,
     state_version := state_version r + 1,
     completed_at := (if target \<in> {COMPLETED, FAILED, ABORTED, EXPIRED} then Some now else completed_at r),
     retention_at := (if target \<in> {COMPLETED, FAILED, ABORTED, EXPIRED}
        then now + (retention_at r - created_at r) else retention_at r),
     failure_code := (if target \<in> {FAILED, ABORTED, EXPIRED} then Some event else failure_code r),
     failure_detail := (if target \<in> {FAILED, ABORTED, EXPIRED} then detail else failure_detail r)\<rparr>"

definition transition :: "real \<Rightarrow> string \<Rightarrow> round_state \<Rightarrow> round_state \<Rightarrow> string \<Rightarrow> string \<Rightarrow> string option
    \<Rightarrow> (db, unit) tx" where
  "transition now rid source target actor event detail =
     (if \<not> transition_allowed source target
      then throw (ValueError (''ILLEGAL_TRANSITION:'' @ state_value source @ '':'' @ state_value target))
      else
        let matching = (\<lambda>r. round_id r = rid \<and> status r = source) in
        read (\<lambda>s. count_where matching (rounds s)) (\<lambda>rowcount.
        exec (always (rounds_update (update_where matching (advance now target event detail)))) (
        if rowcount \<noteq> 1 then throw (ValueError ''ROUND_CONFLICT'')
        else read (round_of rid) (\<lambda>row.
          case row of None \<Rightarrow> throw TypeError
          | Some r \<Rightarrow> exec (audit rid actor event (Some (state_version r)) now detail) (ret ())))))"

section \<open>Reading and expiring\<close>

definition participant :: "string \<Rightarrow> string \<Rightarrow> db \<Rightarrow> participant_row option" where
  "participant rid client s = participant_of rid client s"

text \<open>The transaction that \<open>get_round\<close> opens when the round looked overdue.\<close>

definition reconcile :: "real \<Rightarrow> real \<Rightarrow> string \<Rightarrow> (db, round_row option) tx" where
  "reconcile now tnow rid =
     transaction (
     read (round_of rid) (\<lambda>current.
       case current of None \<Rightarrow> ret None
       | Some r \<Rightarrow>
           let reread = read (round_of rid) (\<lambda>row.
                 case row of None \<Rightarrow> throw TypeError | Some r' \<Rightarrow> ret (Some r')) in
           if status r \<notin> {COMPLETED, FAILED, ABORTED, EXPIRED} \<and> deadline_at r < now
           then call (transition tnow rid (status r) EXPIRED ''reconciler'' ''ROUND_DEADLINE_EXCEEDED'' None)
                  (\<lambda>_. reread)
           else reread))"

definition get_round :: "bool \<Rightarrow> real \<Rightarrow> real \<Rightarrow> real \<Rightarrow> string \<Rightarrow> (db, round_row option) tx" where
  "get_round expire now now' tnow rid =
     read (round_of rid) (\<lambda>row.
       case row of None \<Rightarrow> ret None
       | Some r \<Rightarrow>
           if \<not> expire \<or> status r \<in> {COMPLETED, FAILED, ABORTED, EXPIRED} \<or> now \<le> deadline_at r
           then ret (Some r) else reconcile now' tnow rid)"

text \<open>The loop of \<open>expire_rounds\<close>; the clock that each transition reads is indexed by its round.\<close>

fun expire_loop :: "(string \<Rightarrow> real) \<Rightarrow> (string \<times> round_state) list \<Rightarrow> nat \<Rightarrow> (db, nat) tx" where
  "expire_loop tnow [] expired_count = ret expired_count"
| "expire_loop tnow ((rid, state) # rows) expired_count =
     (if state \<in> {COMPLETED, FAILED, ABORTED, EXPIRED} then expire_loop tnow rows expired_count
      else
        call (transition (tnow rid) rid state EXPIRED ''reconciler'' ''ROUND_DEADLINE_EXCEEDED'' None) (\<lambda>_.
        exec (always (jobs_update (update_where
            (\<lambda>j. j_round j = rid \<and> j_state j \<in> {JOB_READY, CLAIMED})
            (\<lambda>j. j\<lparr>j_state := JOB_FAILED, j_lease_until := None, j_claim_token := None,
               j_last_error := Some ''round deadline exceeded''\<rparr>)))) (
        expire_loop tnow rows (expired_count + 1))))"

definition expire_rounds :: "real \<Rightarrow> real option \<Rightarrow> (string \<Rightarrow> real) \<Rightarrow> (db, nat) tx" where
  "expire_rounds clock now tnow =
     (let timestamp = (case now of None \<Rightarrow> clock | Some t \<Rightarrow> t) in
      transaction (
      read (\<lambda>s. map (\<lambda>r. (round_id r, status r)) (filter (\<lambda>r. deadline_at r < timestamp) (rounds s))) (\<lambda>rows.
      expire_loop tnow rows 0)))"

section \<open>Failure and abortion\<close>

definition fail_round :: "real \<Rightarrow> string \<Rightarrow> string \<Rightarrow> string \<Rightarrow> string \<Rightarrow> (db, unit) tx" where
  "fail_round tnow rid actor code detail =
     transaction (
     read (round_of rid) (\<lambda>row.
       case row of None \<Rightarrow> ret ()
       | Some r \<Rightarrow>
           if status r \<in> {COMPLETED, FAILED, ABORTED, EXPIRED} then ret ()
           else transition tnow rid (status r) FAILED actor code (Some (text_take 256 detail))))"

definition abort :: "real \<Rightarrow> real \<Rightarrow> string \<Rightarrow> string \<Rightarrow> string \<Rightarrow> string \<Rightarrow> string \<Rightarrow> (db, response \<times> bool) tx" where
  "abort tnow now rid actor reason idem_key digest =
     transaction (
     idempotent actor rid ''abort'' idem_key digest (\<lambda>resp. ret (resp, True)) (
     read (round_of rid) (\<lambda>row.
       case row of None \<Rightarrow> throw (ValueError ''ROUND_NOT_FOUND'')
       | Some r \<Rightarrow>
           if status r \<in> {COMPLETED, FAILED, ABORTED, EXPIRED} then throw (ValueError ''ROUND_CONFLICT'')
           else
             call (transition tnow rid (status r) ABORTED actor ''OPERATOR_ABORT'' (Some reason)) (\<lambda>_.
             exec (remember actor rid ''abort'' idem_key digest Accepted now) (
             ret (Accepted, False))))))"

section \<open>Retention\<close>

definition retention_candidates :: "real \<Rightarrow> real option \<Rightarrow> db \<Rightarrow> (string \<times> string list) list" where
  "retention_candidates clock now s =
     (let timestamp = (case now of None \<Rightarrow> clock | Some t \<Rightarrow> t);
          expired = filter (\<lambda>r. retention_at r \<le> timestamp \<and>
            status r \<in> {COMPLETED, FAILED, ABORTED, EXPIRED}) (rounds s)
      in map (\<lambda>r. (round_id r, map a_path (filter (\<lambda>a. a_round a = round_id r) (artifacts s)))) expired)"

text \<open>The deletions of \<open>purge_round\<close>, each refused while a row that stays refers to a deleted one.\<close>

definition delete_key_tasks :: "string \<Rightarrow> db stmt" where
  "delete_key_tasks rid = checked
     (\<lambda>s. \<not> list_ex (\<lambda>t. t_round t = rid \<and>
        (list_ex (\<lambda>d. d_round d = rid \<and> (d_task d = task_id t \<or> d_dependency d = task_id t)) (task_dependencies s)
         \<or> list_ex (\<lambda>r. tr_round r = rid \<and> tr_task r = task_id t) (task_receipts s))) (key_tasks s))
     (key_tasks_update (delete_where (\<lambda>t. t_round t = rid)))"

definition delete_artifacts :: "string \<Rightarrow> db stmt" where
  "delete_artifacts rid = checked
     (\<lambda>s. \<not> list_ex (\<lambda>a. a_round a = rid \<and>
        (list_ex (\<lambda>t. t_artifact t = Some (a_id a)) (key_tasks s)
         \<or> list_ex (\<lambda>k. fk_artifact k = a_id a) (final_keys s))) (artifacts s))
     (artifacts_update (delete_where (\<lambda>a. a_round a = rid)))"

definition round_referenced :: "string \<Rightarrow> db \<Rightarrow> bool" where
  "round_referenced rid s \<longleftrightarrow>
     list_ex (\<lambda>p. p_round p = rid) (participants s) \<or> list_ex (\<lambda>a. a_round a = rid) (artifacts s) \<or>
     list_ex (\<lambda>j. j_round j = rid) (jobs s) \<or> list_ex (\<lambda>p. tp_round p = rid) (tree_plans s) \<or>
     list_ex (\<lambda>t. t_round t = rid) (key_tasks s) \<or> list_ex (\<lambda>k. fk_round k = rid) (final_keys s) \<or>
     list_ex (\<lambda>r. fr_round r = rid) (final_key_receipts s)"

definition delete_round :: "string \<Rightarrow> db stmt" where
  "delete_round rid = checked (\<lambda>s. \<not> (round_exists rid s \<and> round_referenced rid s))
     (rounds_update (delete_where (\<lambda>r. round_id r = rid)))"

definition creation_of :: "string \<Rightarrow> idempotency_row \<Rightarrow> bool" where
  "creation_of rid i \<longleftrightarrow> i_operation i = ''create'' \<and>
     (case i_response i of RoundCreated c \<Rightarrow> round_id c = rid | _ \<Rightarrow> False)"

definition purge_round :: "real \<Rightarrow> string \<Rightarrow> (db, unit) tx" where
  "purge_round now rid =
     transaction (
     read (round_of rid) (\<lambda>row.
       case row of None \<Rightarrow> ret ()
       | Some r \<Rightarrow>
           if status r \<notin> {COMPLETED, FAILED, ABORTED, EXPIRED} \<or> now < retention_at r
           then throw (ValueError ''ROUND_CONFLICT'')
           else
             exec (always (jobs_update (delete_where (\<lambda>j. j_round j = rid)))) (
             exec (always (final_key_receipts_update (delete_where (\<lambda>r. fr_round r = rid)))) (
             exec (always (final_keys_update (delete_where (\<lambda>k. fk_round k = rid)))) (
             exec (always (task_receipts_update (delete_where (\<lambda>r. tr_round r = rid)))) (
             exec (always (task_dependencies_update (delete_where (\<lambda>d. d_round d = rid)))) (
             exec (delete_key_tasks rid) (
             exec (always (tree_plans_update (delete_where (\<lambda>p. tp_round p = rid)))) (
             exec (delete_artifacts rid) (
             exec (always (participants_update (delete_where (\<lambda>p. p_round p = rid)))) (
             exec (always (audit_events_update (delete_where (\<lambda>e. e_round e = Some rid)))) (
             exec (always (idempotency_update (delete_where (\<lambda>i. i_round i = rid)))) (
             exec (always (idempotency_update (delete_where (creation_of rid)))) (
             exec (delete_round rid) (ret ())))))))))))))))"

end
