(* ===== verification/Key_Setup.thy ===== *)
theory Key_Setup
  imports Round_Store
begin

text \<open>
  The key-setup methods of \<open>Database\<close>: the two JSON slots of a participant, their listings, the
  commitment barrier of \<open>key_complete\<close> and the tree plan that it commits.
\<close>

section \<open>Slots\<close>

text \<open>The two slots with the body that belongs to each.\<close>

datatype slot_body =
    PublicKeyBody public_key_artifact
  | KeyBundleBody key_bundle_artifact

fun slot_name :: "slot_body \<Rightarrow> string" where
  "slot_name (PublicKeyBody _) = ''public_key''"
| "slot_name (KeyBundleBody _) = ''key_bundle''"

fun slot_event :: "slot_body \<Rightarrow> string" where
  "slot_event (PublicKeyBody _) = ''PUBLIC_KEY_ACCEPTED''"
| "slot_event (KeyBundleBody _) = ''KEY_BUNDLE_ACCEPTED''"

fun slot_json :: "slot_body \<Rightarrow> json" where
  "slot_json (PublicKeyBody b) = public_key_json b"
| "slot_json (KeyBundleBody b) = key_bundle_json b"

text \<open>The column of the slot of a body, in a participant row.\<close>

fun column :: "slot_body \<Rightarrow> participant_row \<Rightarrow> slot_body option" where
  "column (PublicKeyBody _) p = map_option PublicKeyBody (p_public_key p)"
| "column (KeyBundleBody _) p = map_option KeyBundleBody (p_key_bundle p)"

fun fill_slot :: "real \<Rightarrow> slot_body \<Rightarrow> participant_row \<Rightarrow> participant_row" where
  "fill_slot now (PublicKeyBody b) p =
     p\<lparr>p_public_key := Some b, p_state := PUBLIC_KEY_SUBMITTED, p_last_seen := now\<rparr>"
| "fill_slot now (KeyBundleBody b) p =
     p\<lparr>p_key_bundle := Some b, p_state := KEY_BUNDLE_SUBMITTED, p_last_seen := now\<rparr>"

text \<open>\<open>participant[column] and participant[column] != encoded\<close>.\<close>

definition slot_taken :: "slot_body \<Rightarrow> participant_row \<Rightarrow> bool" where
  "slot_taken body p \<longleftrightarrow> (case column body p of None \<Rightarrow> False
     | Some old \<Rightarrow> canonical_json (slot_json old) \<noteq> canonical_json (slot_json body))"

fun slot_states :: "slot_body \<Rightarrow> round_state set" where
  "slot_states (PublicKeyBody _) = {REGISTRATION_OPEN, KEY_SETUP}"
| "slot_states (KeyBundleBody _) = {KEY_SETUP}"

definition is_public_key :: "slot_body \<Rightarrow> bool" where
  "is_public_key b \<longleftrightarrow> slot_name b = ''public_key''"

definition record_json_slot :: "real \<Rightarrow> real \<Rightarrow> string \<Rightarrow> string \<Rightarrow> slot_body \<Rightarrow> string \<Rightarrow> string
    \<Rightarrow> (db, response \<times> bool) tx" where
  "record_json_slot now tnow rid client body idem_key content_digest =
     transaction (
     idempotent client rid (slot_name body) idem_key content_digest (\<lambda>resp. ret (resp, True)) (
     read (round_of rid) (\<lambda>row.
       case row of None \<Rightarrow> throw (ValueError ''ROUND_NOT_FOUND'')
       | Some r \<Rightarrow>
         if status r \<notin> slot_states body then throw (ValueError ''ROUND_CONFLICT'')
         else read (participant_of rid client) (\<lambda>part.
           case part of None \<Rightarrow> throw TypeError
           | Some p \<Rightarrow>
             if slot_taken body p then throw (ValueError ''ROUND_CONFLICT'')
             else
               exec (always (participants_update (update_where
                 (\<lambda>p. p_round p = rid \<and> p_client p = client) (fill_slot now body)))) (
               let resp = SlotAccepted content_digest in
               exec (remember client rid (slot_name body) idem_key content_digest resp now) (
               read (\<lambda>s. count_where (\<lambda>p. p_round p = rid \<and> column body p \<noteq> None) (participants s)) (\<lambda>count.
               let finish = exec (audit rid client (slot_event body) None now None) (ret (resp, False)) in
               if is_public_key body \<and> count = expected_count r \<and> status r = REGISTRATION_OPEN
               then call (transition tnow rid REGISTRATION_OPEN KEY_SETUP client ''PUBLIC_KEY_BARRIER'' None)
                      (\<lambda>_. finish)
               else finish)))))))"

definition public_keys :: "string \<Rightarrow> db \<Rightarrow> exn + (string \<times> public_key_artifact) list" where
  "public_keys rid s =
     (let rows = participants_of rid s in
      if rows = [] \<or> list_ex (\<lambda>p. p_public_key p = None) rows then Inl (ValueError ''NOT_READY'')
      else Inr (map (\<lambda>p. (p_client p, the (p_public_key p))) rows))"

text \<open>The loop of \<open>incoming_bundles\<close>, over rows whose bundle column is not \<open>NULL\<close>.\<close>

fun collect_bundles :: "string \<Rightarrow> (string \<times> key_bundle_artifact) list
    \<Rightarrow> exn + (string \<times> key_bundle_artifact) list" where
  "collect_bundles recipient [] = Inr []"
| "collect_bundles recipient ((client, bundle) # rows) =
     (if client = recipient then collect_bundles recipient rows
      else if recipient \<notin> set (map fst (messages bundle)) then Inl (ValueError ''KEY_BUNDLE_INVALID'')
      else attempt (collect_bundles recipient rows) (\<lambda>result. Inr ((client, bundle) # result)))"

definition incoming_bundles ::
    "string \<Rightarrow> string \<Rightarrow> db \<Rightarrow> exn + (string \<times> key_bundle_artifact) list option" where
  "incoming_bundles rid recipient s =
     (let rows = participants_of rid s in
      if rows = [] \<or> list_ex (\<lambda>p. p_key_bundle p = None) rows then Inr None
      else attempt (collect_bundles recipient (map (\<lambda>p. (p_client p, the (p_key_bundle p))) rows))
        (\<lambda>result. Inr (Some result)))"

section \<open>The tree plan\<close>

definition manifest_of :: "participant_row list \<Rightarrow> manifest_entry list" where
  "manifest_of records = map (\<lambda>p. \<lparr>client_id = p_client p,
     public_key = key_text (the (p_public_key p)), signature = key_signature (the (p_public_key p))\<rparr>) records"

definition task_row :: "string \<Rightarrow> task \<Rightarrow> key_task_row" where
  "task_row rid t = \<lparr>task_id = task_id t, action = action t, stage = stage t, level = level t,
     sender = sender t, receiver = receiver t, dependencies = dependencies t, t_round = rid,
     t_state = (if dependencies t = [] then READY else WAITING), t_artifact = None,
     t_ciphertext_digest = None, t_nonce = None, t_signature = None, t_completed_at = None\<rparr>"

definition dependency_rows :: "string \<Rightarrow> task \<Rightarrow> dependency_row list" where
  "dependency_rows rid t =
     map (\<lambda>d. \<lparr>d_round = rid, d_task = task_id t, d_dependency = d\<rparr>) (dependencies t)"

definition create_tree_plan :: "(bytes \<Rightarrow> bytes) \<Rightarrow> round_row \<Rightarrow> real \<Rightarrow> (db, unit) tx" where
  "create_tree_plan sha row now =
     read (\<lambda>s. sort_key p_client (participants_of (round_id row) s)) (\<lambda>records.
       if records = [] \<or> list_ex (\<lambda>p. p_public_key p = None) records
       then throw (ValueError ''NOT_READY'')
       else let manifest = manifest_of records in
         case derive_tree_plan sha row manifest of
           Inl e \<Rightarrow> throw e
         | Inr plan \<Rightarrow>
             let digest = tree_plan_hash sha plan in
             exec (insert_plan \<lparr>tp_round = round_id row, tp_hash = digest, tp_plan = plan,
               tp_manifest = manifest, tp_created = now\<rparr>) (
             exec (exec_many insert_task (map (task_row (round_id row)) (plan_tasks plan))) (
             exec (exec_many insert_dependency
               (concat (map (dependency_rows (round_id row)) (plan_tasks plan)))) (
             exec (audit (round_id row) ''coordinator'' ''TREE_PLAN_COMMITTED'' None now (Some digest)) (
             ret ())))))"

text \<open>What \<open>tree_plan\<close> returns: the hash, the plan and the manifest of ephemeral keys.\<close>

definition tree_plan_record ::
    "string \<Rightarrow> db \<Rightarrow> (string \<times> tree_plan \<times> manifest_entry list) option" where
  "tree_plan_record rid s =
     (case plan_of rid s of None \<Rightarrow> None | Some p \<Rightarrow> Some (tp_hash p, tp_plan p, tp_manifest p))"

section \<open>The commitment barrier\<close>

text \<open>A text column counts as present when it is neither \<open>NULL\<close> nor empty.\<close>

definition truthy :: "string option \<Rightarrow> bool" where
  "truthy v \<longleftrightarrow> v \<noteq> None \<and> v \<noteq> Some ''''"

definition commit_context :: "real \<Rightarrow> string \<Rightarrow> participant_row \<Rightarrow> participant_row" where
  "commit_context now commitment p =
     p\<lparr>p_commitment := Some commitment, p_state := READY_FOR_UPDATE, p_last_seen := now\<rparr>"

text \<open>The transaction of \<open>key_complete\<close>; its flag is \<open>mismatch\<close>.\<close>

definition key_commit :: "(bytes \<Rightarrow> bytes) \<Rightarrow> real \<Rightarrow> real \<Rightarrow> string \<Rightarrow> string \<Rightarrow> string \<Rightarrow> string \<Rightarrow> string
    \<Rightarrow> (db, response \<times> bool) tx" where
  "key_commit sha now tnow rid client commitment idem_key digest =
     transaction (
       idempotent client rid ''key_complete'' idem_key digest (\<lambda>resp. ret (resp, False)) (
       read (round_of rid) (\<lambda>row.
         if (case row of None \<Rightarrow> True
             | Some r \<Rightarrow> status r \<notin> {KEY_SETUP, KEY_AGGREGATION, UPDATE_COLLECTION})
         then throw (ValueError ''ROUND_CONFLICT'')
         else let r = the row in
         read (participant_of rid client) (\<lambda>part.
         case part of None \<Rightarrow> throw TypeError
         | Some p \<Rightarrow>
           if truthy (p_commitment p) \<and> p_commitment p \<noteq> Some commitment
           then throw (ValueError ''ROUND_CONFLICT'')
           else
             exec (always (participants_update (update_where
               (\<lambda>p. p_round p = rid \<and> p_client p = client) (commit_context now commitment)))) (
             exec (remember client rid ''key_complete'' idem_key digest Accepted now) (
             exec (audit rid client ''KEY_CONTEXT_ACCEPTED'' None now None) (
             read (\<lambda>s. map p_commitment (participants_of rid s)) (\<lambda>rows.
             if list_all truthy rows then
               if length (remdups rows) \<noteq> 1 then
                 call (transition tnow rid KEY_SETUP FAILED client ''KEY_CONTEXT_MISMATCH'' None)
                   (\<lambda>_. ret (Accepted, True))
               else if status r = KEY_SETUP then
                 if protocol_version r = ''1.1'' then
                   call (create_tree_plan sha r now) (\<lambda>_.
                   call (transition tnow rid KEY_SETUP KEY_AGGREGATION client ''KEY_SETUP_BARRIER'' None)
                     (\<lambda>_. ret (Accepted, False)))
                 else
                   call (transition tnow rid KEY_SETUP UPDATE_COLLECTION client ''KEY_SETUP_BARRIER'' None)
                     (\<lambda>_. ret (Accepted, False))
               else ret (Accepted, False)
             else ret (Accepted, False)))))))))"

text \<open>The error of a mismatch is raised after the transaction has committed the failed round.\<close>

definition key_complete :: "(bytes \<Rightarrow> bytes) \<Rightarrow> real \<Rightarrow> real \<Rightarrow> string \<Rightarrow> string \<Rightarrow> string \<Rightarrow> string \<Rightarrow> string
    \<Rightarrow> (db, response) tx" where
  "key_complete sha now tnow rid client commitment idem_key digest =
     call (key_commit sha now tnow rid client commitment idem_key digest) (\<lambda>(resp, mismatch).
     if mismatch then throw (ValueError ''KEY_CONTEXT_MISMATCH'') else ret resp)"

end
