(* ===== verification/Key_Tasks.thy ===== *)
theory Key_Tasks
  imports Key_Setup
begin

text \<open>
  The key-aggregation methods of \<open>Database\<close>: what a participant has to do next, the upload and
  the acknowledgement of a task artifact, which unlocks the tasks that waited for it, and the
  publication and acknowledgement of the final key.
\<close>

section \<open>Stored objects\<close>

text \<open>\<open>StoredObject\<close> of \<open>app/storage/filesystem.py\<close>.\<close>

record stored_object =
  object_id :: string
  stored_path :: string
  stored_digest :: string
  stored_size :: nat

definition artifact_for :: "stored_object \<Rightarrow> string \<Rightarrow> string option \<Rightarrow> string \<Rightarrow> real \<Rightarrow> artifact_row" where
  "artifact_for stored rid client kind now = \<lparr>a_id = object_id stored, a_round = rid, a_client = client,
     a_type = kind, a_path = stored_path stored, a_digest = stored_digest stored,
     a_size = stored_size stored, a_created = now\<rparr>"

section \<open>The next action\<close>

text \<open>The answer of \<open>next_key_action\<close>: a task of the plan, one of the two final actions, or done.\<close>

datatype key_action =
    Run_Task task string
  | Publish_Final string string string
  | Ack_Final string string string
  | Key_Aggregation_Complete

definition task_metadata :: "key_task_row \<Rightarrow> task" where
  "task_metadata t = \<lparr>task_id = task_id t, action = action t, stage = stage t, level = level t,
     sender = sender t, receiver = receiver t, dependencies = dependencies t\<rparr>"

definition task_order :: "key_task_row \<Rightarrow> nat \<times> int \<times> string" where
  "task_order t = (if stage t = GROUP then 0 else 1, level t, task_id t)"

definition next_ready :: "string \<Rightarrow> string \<Rightarrow> db \<Rightarrow> key_task_row option" where
  "next_ready rid client s =
     (case sort_key task_order
         (filter (\<lambda>t. t_round t = rid \<and> sender t = client \<and> t_state t = READY) (key_tasks s)) of
        [] \<Rightarrow> None | t # _ \<Rightarrow> Some t)"

definition incomplete_tasks :: "string \<Rightarrow> db \<Rightarrow> nat" where
  "incomplete_tasks rid s = count_where (\<lambda>t. t_round t = rid \<and> t_state t \<noteq> TASK_COMPLETED) (key_tasks s)"

definition next_key_action :: "string \<Rightarrow> string \<Rightarrow> db \<Rightarrow> exn + key_action option" where
  "next_key_action rid client s =
     (case round_of rid s of
        None \<Rightarrow> Inl (ValueError ''ROUND_CONFLICT'')
      | Some r \<Rightarrow>
          if protocol_version r \<noteq> ''1.1'' then Inl (ValueError ''ROUND_CONFLICT'')
          else if status r = UPDATE_COLLECTION then Inr (Some Key_Aggregation_Complete)
          else if status r \<noteq> KEY_AGGREGATION then Inl (ValueError ''ROUND_CONFLICT'')
          else case plan_of rid s of
            None \<Rightarrow> Inl (ValueError ''NOT_READY'')
          | Some plan \<Rightarrow>
              (case next_ready rid client s of
                 Some t \<Rightarrow> Inr (Some (Run_Task (task_metadata t) (tp_hash plan)))
               | None \<Rightarrow>
                   let final = final_of rid s in
                   if incomplete_tasks rid s = 0 \<and> final = None \<and> client = root_client_id (tp_plan plan)
                   then Inr (Some (Publish_Final client (root_task_id (tp_plan plan)) (tp_hash plan)))
                   else case final of
                     None \<Rightarrow> Inr None
                   | Some k \<Rightarrow>
                       if list_ex (\<lambda>f. fr_round f = rid \<and> fr_client f = client) (final_key_receipts s)
                       then Inr None
                       else Inr (Some (Ack_Final (fk_sender k) client (tp_hash plan)))))"

section \<open>Task artifacts\<close>

definition upload_task :: "stored_object \<Rightarrow> string \<Rightarrow> string \<Rightarrow> string \<Rightarrow> key_task_row \<Rightarrow> key_task_row" where
  "upload_task stored digest nonce sig t = t\<lparr>t_state := ARTIFACT_UPLOADED,
     t_artifact := Some (object_id stored), t_ciphertext_digest := Some digest,
     t_nonce := Some nonce, t_signature := Some sig\<rparr>"

definition record_task_artifact :: "real \<Rightarrow> string \<Rightarrow> string \<Rightarrow> string \<Rightarrow> stored_object \<Rightarrow> string \<Rightarrow> string
    \<Rightarrow> string \<Rightarrow> string \<Rightarrow> string \<Rightarrow> (db, response \<times> bool) tx" where
  "record_task_artifact now rid client tid stored ciphertext_digest nonce sig idem_key request_digest =
     (let operation = ''key_task_artifact:'' @ tid in
      transaction (
      idempotent client rid operation idem_key request_digest (\<lambda>resp. ret (resp, True)) (
      read (round_of rid) (\<lambda>row.
      read (task_of rid tid) (\<lambda>tk.
        if (case (row, tk) of
              (Some r, Some t) \<Rightarrow> status r \<noteq> KEY_AGGREGATION \<or> sender t \<noteq> client \<or> t_state t \<noteq> READY
            | _ \<Rightarrow> True)
        then throw (ValueError ''ROUND_CONFLICT'')
        else
          exec (insert_artifact (artifact_for stored rid (Some client) (''key_task:'' @ tid) now)) (
          exec (update_task_artifact (\<lambda>t. t_round t = rid \<and> task_id t = tid \<and> t_state t = READY)
            (upload_task stored ciphertext_digest nonce sig) (object_id stored)) (
          let resp = ArtifactAccepted (object_id stored) ciphertext_digest (stored_size stored) in
          exec (remember client rid operation idem_key request_digest resp now) (
          exec (audit rid client ''TREE_ARTIFACT_ACCEPTED'' None now (Some tid)) (
          ret (resp, False))))))))))"

text \<open>What a receiver gets: the artifact and the metadata of the task that made it.\<close>

record artifact_metadata = task +
  meta_schema_hash :: string
  meta_nonce :: "string option"
  meta_digest :: "string option"
  meta_size :: nat
  meta_signature :: "string option"
  meta_plan_hash :: string

definition task_artifact :: "string \<Rightarrow> string \<Rightarrow> string \<Rightarrow> db \<Rightarrow> exn + artifact_row \<times> artifact_metadata" where
  "task_artifact rid tid client s =
     (case task_of rid tid s of
        None \<Rightarrow> Inl (ValueError ''ROUND_CONFLICT'')
      | Some t \<Rightarrow>
          if receiver t \<noteq> client \<or> t_state t \<noteq> TASK_COMPLETED then Inl (ValueError ''ROUND_CONFLICT'')
          else case (case t_artifact t of None \<Rightarrow> None | Some aid \<Rightarrow> artifact_of aid s) of
            None \<Rightarrow> Inl (ValueError ''NOT_READY'')
          | Some a \<Rightarrow>
              (case (round_of rid s, plan_of rid s) of
                 (Some r, Some plan) \<Rightarrow> Inr (a,
                   \<lparr>task_id = task_id t, action = action t, stage = stage t, level = level t,
                    sender = sender t, receiver = receiver t, dependencies = dependencies t,
                    meta_schema_hash = model_schema_hash r, meta_nonce = t_nonce t,
                    meta_digest = t_ciphertext_digest t, meta_size = a_size a,
                    meta_signature = t_signature t, meta_plan_hash = tp_hash plan\<rparr>)
               | _ \<Rightarrow> Inl TypeError))"

text \<open>The correlated \<open>UPDATE\<close> that makes tasks ready; it reads the table as it was before it.\<close>

definition blocked :: "db \<Rightarrow> key_task_row \<Rightarrow> bool" where
  "blocked s t \<longleftrightarrow> list_ex (\<lambda>d. d_round d = t_round t \<and> d_task d = task_id t \<and>
     list_ex (\<lambda>source. t_round source = d_round d \<and> task_id source = d_dependency d \<and>
       t_state source \<noteq> TASK_COMPLETED) (key_tasks s)) (task_dependencies s)"

definition release_tasks :: "string \<Rightarrow> db \<Rightarrow> db" where
  "release_tasks rid s = s\<lparr>key_tasks := update_where
     (\<lambda>t. t_round t = rid \<and> t_state t = WAITING \<and> \<not> blocked s t) (\<lambda>t. t\<lparr>t_state := READY\<rparr>) (key_tasks s)\<rparr>"

definition acknowledge_task :: "real \<Rightarrow> string \<Rightarrow> string \<Rightarrow> string \<Rightarrow> string \<Rightarrow> string \<Rightarrow> string
    \<Rightarrow> (db, response) tx" where
  "acknowledge_task now rid client tid artifact_digest idem_key digest =
     (let operation = ''key_task_ack:'' @ tid in
      transaction (
      idempotent client rid operation idem_key digest ret (
      read (task_of rid tid) (\<lambda>tk.
      read (round_of rid) (\<lambda>row.
        if (case (tk, row) of
              (Some t, Some r) \<Rightarrow> status r \<noteq> KEY_AGGREGATION \<or> sender t \<noteq> client \<or>
                 t_state t \<noteq> ARTIFACT_UPLOADED \<or> t_ciphertext_digest t \<noteq> Some artifact_digest
            | _ \<Rightarrow> True)
        then throw (ValueError ''ROUND_CONFLICT'')
        else
          exec (always (key_tasks_update (update_where (\<lambda>t. t_round t = rid \<and> task_id t = tid)
            (\<lambda>t. t\<lparr>t_state := TASK_COMPLETED, t_completed_at := Some now\<rparr>)))) (
          exec (insert_task_receipt \<lparr>tr_round = rid, tr_task = tid, tr_actor = client,
            tr_digest = artifact_digest, tr_created = now\<rparr>) (
          exec (always (release_tasks rid)) (
          exec (remember client rid operation idem_key digest Accepted now) (
          exec (audit rid client ''TREE_TASK_COMPLETED'' None now (Some tid)) (
          ret Accepted))))))))))"

section \<open>The final key\<close>

definition record_final_key :: "real \<Rightarrow> string \<Rightarrow> string \<Rightarrow> stored_object \<Rightarrow> string \<Rightarrow> string \<Rightarrow> string
    \<Rightarrow> string \<Rightarrow> string \<Rightarrow> (db, response \<times> bool) tx" where
  "record_final_key now rid client stored ciphertext_digest nonce sig idem_key request_digest =
     transaction (
     idempotent client rid ''final_key'' idem_key request_digest (\<lambda>resp. ret (resp, True)) (
     read (plan_of rid) (\<lambda>plan_row.
     read (round_of rid) (\<lambda>row.
     read (incomplete_tasks rid) (\<lambda>incomplete.
       if (case (plan_row, row) of
             (Some plan, Some r) \<Rightarrow> status r \<noteq> KEY_AGGREGATION \<or>
                root_client_id (tp_plan plan) \<noteq> client \<or> incomplete \<noteq> 0
           | _ \<Rightarrow> True)
       then throw (ValueError ''ROUND_CONFLICT'')
       else
         exec (insert_artifact (artifact_for stored rid (Some client) ''final_key'' now)) (
         exec (insert_final_key \<lparr>fk_round = rid, fk_artifact = object_id stored,
           fk_digest = ciphertext_digest, fk_nonce = nonce, fk_signature = sig, fk_sender = client,
           fk_created = now\<rparr>) (
         let resp = ArtifactAccepted (object_id stored) ciphertext_digest (stored_size stored) in
         exec (remember client rid ''final_key'' idem_key request_digest resp now) (
         exec (audit rid client ''FINAL_KEY_PUBLISHED'' None now None) (
         ret (resp, False))))))))))"

record final_metadata =
  final_nonce :: string
  final_digest :: string
  final_size :: nat
  final_signature :: string
  final_sender :: string
  final_plan_hash :: string

definition final_key :: "string \<Rightarrow> db \<Rightarrow> (artifact_row \<times> final_metadata) option" where
  "final_key rid s =
     (case final_of rid s of
        None \<Rightarrow> None
      | Some k \<Rightarrow>
          (case (artifact_of (fk_artifact k) s, plan_of rid s) of
             (Some a, Some plan) \<Rightarrow> Some (a,
               \<lparr>final_nonce = fk_nonce k, final_digest = fk_digest k, final_size = a_size a,
                final_signature = fk_signature k, final_sender = fk_sender k,
                final_plan_hash = tp_hash plan\<rparr>)
           | _ \<Rightarrow> None))"

definition acknowledge_final_key :: "real \<Rightarrow> real \<Rightarrow> string \<Rightarrow> string \<Rightarrow> string \<Rightarrow> string \<Rightarrow> string
    \<Rightarrow> (db, response) tx" where
  "acknowledge_final_key now tnow rid client artifact_digest idem_key digest =
     transaction (
     idempotent client rid ''final_key_ack'' idem_key digest ret (
     read (round_of rid) (\<lambda>row.
     read (final_of rid) (\<lambda>final.
       if (case (row, final) of
             (Some r, Some k) \<Rightarrow> status r \<noteq> KEY_AGGREGATION \<or> fk_digest k \<noteq> artifact_digest
           | _ \<Rightarrow> True)
       then throw (ValueError ''ROUND_CONFLICT'')
       else
         exec (insert_final_receipt \<lparr>fr_round = rid, fr_client = client,
           fr_digest = artifact_digest, fr_created = now\<rparr>) (
         exec (remember client rid ''final_key_ack'' idem_key digest Accepted now) (
         exec (audit rid client ''FINAL_KEY_ACKNOWLEDGED'' None now None) (
         read (\<lambda>s. count_where (\<lambda>f. fr_round f = rid) (final_key_receipts s)) (\<lambda>count.
         if count = expected_count (the row)
         then call (transition tnow rid KEY_AGGREGATION UPDATE_COLLECTION client ''FINAL_KEY_BARRIER'' None)
                (\<lambda>_. ret Accepted)
         else ret Accepted))))))))"

end
