(* ===== verification/Update_Jobs.thy ===== *)
theory Update_Jobs
  imports Key_Tasks
begin

text \<open>
  The second half of a round in \<open>Database\<close>: collecting the masked updates, the aggregation job
  with its leases and attempts, the result, and the completion barrier.
\<close>

section \<open>Updates\<close>

definition submit_update :: "real \<Rightarrow> stored_object \<Rightarrow> string \<Rightarrow> participant_row \<Rightarrow> participant_row" where
  "submit_update now stored tag p = p\<lparr>p_update_artifact := Some (object_id stored),
     p_update_digest := Some (stored_digest stored), p_integrity_tag := Some tag,
     p_state := UPDATE_SUBMITTED, p_last_seen := now\<rparr>"

definition new_job :: "string \<Rightarrow> string \<Rightarrow> job_row" where
  "new_job job_id rid = \<lparr>j_id = job_id, j_round = rid, j_state = JOB_READY, j_attempts = 0,
     j_max_attempts = 3, j_claimed_at = None, j_lease_until = None, j_claim_token = None,
     j_result_tag = None, j_last_error = None\<rparr>"

definition stored_response :: "stored_object \<Rightarrow> response" where
  "stored_response stored = ArtifactAccepted (object_id stored) (stored_digest stored) (stored_size stored)"

definition record_update :: "real \<Rightarrow> real \<Rightarrow> string \<Rightarrow> string \<Rightarrow> string \<Rightarrow> stored_object \<Rightarrow> string \<Rightarrow> string
    \<Rightarrow> string \<Rightarrow> (db, response \<times> bool) tx" where
  "record_update now tnow job_id rid client stored tag idem_key request_digest =
     transaction (
     idempotent client rid ''update'' idem_key request_digest (\<lambda>resp. ret (resp, True)) (
     read (round_of rid) (\<lambda>row.
       if (case row of None \<Rightarrow> True | Some r \<Rightarrow> status r \<notin> {UPDATE_COLLECTION, AGGREGATING})
       then throw (ValueError ''ROUND_CONFLICT'')
       else let r = the row in
       read (participant_of rid client) (\<lambda>part.
       case part of None \<Rightarrow> throw TypeError
       | Some p \<Rightarrow>
         if truthy (p_update_digest p) then
           if p_update_digest p \<noteq> Some (stored_digest stored) \<or> p_integrity_tag p \<noteq> Some tag
           then throw (ValueError ''ROUND_CONFLICT'')
           else read (\<lambda>s. fetchone (\<lambda>a. a_round a = rid \<and> a_client a = Some client \<and>
               a_type a = ''update'') (artifacts s)) (\<lambda>artifact.
             case artifact of None \<Rightarrow> throw TypeError
             | Some a \<Rightarrow>
                 let resp = ArtifactAccepted (a_id a) (a_digest a) (a_size a) in
                 exec (remember client rid ''update'' idem_key request_digest resp now) (ret (resp, True)))
         else
           exec (insert_artifact (artifact_for stored rid (Some client) ''update'' now)) (
           exec (always (participants_update (update_where
             (\<lambda>p. p_round p = rid \<and> p_client p = client) (submit_update now stored tag)))) (
           exec (remember client rid ''update'' idem_key request_digest (stored_response stored) now) (
           exec (audit rid client ''UPDATE_ACCEPTED'' None now None) (
           read (\<lambda>s. count_where (\<lambda>p. p_round p = rid \<and> p_update_artifact p \<noteq> None) (participants s)) (\<lambda>count.
           if count = expected_count r \<and> status r = UPDATE_COLLECTION then
             call (transition tnow rid UPDATE_COLLECTION AGGREGATING client ''UPDATE_BARRIER'' None) (\<lambda>_.
             exec (insert_job (new_job job_id rid)) (
             ret (stored_response stored, False)))
           else ret (stored_response stored, False))))))))))"

section \<open>Claims\<close>

definition stale :: "real \<Rightarrow> real \<Rightarrow> job_row \<Rightarrow> bool" where
  "stale now lease_seconds j \<longleftrightarrow> j_state j = CLAIMED \<and>
     (case j_lease_until j of
        Some t \<Rightarrow> t \<le> now
      | None \<Rightarrow> (case j_claimed_at j of None \<Rightarrow> False | Some t \<Rightarrow> t \<le> now - lease_seconds))"

definition requeue :: "string \<Rightarrow> job_row \<Rightarrow> job_row" where
  "requeue error j = j\<lparr>j_state := JOB_READY, j_claimed_at := None, j_lease_until := None,
     j_claim_token := None, j_last_error := Some error\<rparr>"

definition give_up :: "string \<Rightarrow> job_row \<Rightarrow> job_row" where
  "give_up error j = j\<lparr>j_state := JOB_FAILED, j_lease_until := None, j_claim_token := None,
     j_last_error := Some error\<rparr>"

text \<open>\<open>for expired in stale\<close>; the clock that a transition reads is indexed by its round.\<close>

fun release_stale :: "real \<Rightarrow> (string \<Rightarrow> real) \<Rightarrow> job_row list \<Rightarrow> (db, unit) tx" where
  "release_stale now tnow [] = ret ()"
| "release_stale now tnow (expired # rest) =
     (let mine = (\<lambda>j. j_id j = j_id expired \<and> j_state j = CLAIMED) in
      if j_attempts expired < j_max_attempts expired then
        exec (always (jobs_update (update_where mine (requeue ''worker lease expired'')))) (
        exec (audit (j_round expired) ''worker'' ''AGGREGATION_LEASE_EXPIRED'' None now
          (Some ''job returned to ready queue'')) (
        release_stale now tnow rest))
      else
        exec (always (jobs_update (update_where mine
          (give_up ''worker lease expired after maximum attempts'')))) (
        read (round_of (j_round expired)) (\<lambda>row.
          case row of None \<Rightarrow> throw TypeError
          | Some r \<Rightarrow>
              if status r = AGGREGATING then
                call (transition (tnow (j_round expired)) (j_round expired) AGGREGATING FAILED ''worker''
                  ''AGGREGATION_LEASE_EXHAUSTED'' (Some ''worker lease expired after maximum attempts''))
                  (\<lambda>_. release_stale now tnow rest)
              else release_stale now tnow rest)))"

text \<open>The join of a job with its round in the claim query.\<close>

definition claimable :: "real \<Rightarrow> db \<Rightarrow> job_row \<Rightarrow> bool" where
  "claimable now s j \<longleftrightarrow> j_state j = JOB_READY \<and> j_attempts j < j_max_attempts j \<and>
     list_ex (\<lambda>r. round_id r = j_round j \<and> status r = AGGREGATING \<and> now < deadline_at r) (rounds s)"

definition take_claim :: "real \<Rightarrow> real \<Rightarrow> string \<Rightarrow> job_row \<Rightarrow> job_row" where
  "take_claim now lease_seconds token j = j\<lparr>j_state := CLAIMED, j_attempts := j_attempts j + 1,
     j_claimed_at := Some now, j_lease_until := Some (now + lease_seconds), j_claim_token := Some token\<rparr>"

text \<open>The second half of the transaction of \<open>claim_job\<close>: the first job that is ready is taken.\<close>

definition claim_ready :: "real \<Rightarrow> string \<Rightarrow> real \<Rightarrow> (db, job_row option) tx" where
  "claim_ready now token lease_seconds =
     read (\<lambda>s. fetchone (claimable now s) (jobs s)) (\<lambda>row.
       case row of None \<Rightarrow> ret None
       | Some j \<Rightarrow>
           let mine = (\<lambda>k. j_id k = j_id j \<and> j_state k = JOB_READY) in
           read (\<lambda>s. count_where mine (jobs s)) (\<lambda>rowcount.
           exec (always (jobs_update (update_where mine (take_claim now lease_seconds token)))) (
           if rowcount \<noteq> 1 then ret None
           else read (\<lambda>s. fetchone (\<lambda>k. j_id k = j_id j) (jobs s)) ret)))"

definition claim_job :: "real \<Rightarrow> (string \<Rightarrow> real) \<Rightarrow> string \<Rightarrow> real \<Rightarrow> (db, job_row option) tx" where
  "claim_job now tnow token lease_seconds =
     (if lease_seconds \<le> 0 then throw (ValueError ''worker lease must be positive'')
      else transaction (
        read (\<lambda>s. filter (stale now lease_seconds) (jobs s)) (\<lambda>expired.
        call (release_stale now tnow expired) (\<lambda>_.
        claim_ready now token lease_seconds))))"

definition owned :: "string \<Rightarrow> string \<Rightarrow> job_row \<Rightarrow> bool" where
  "owned job_id token j \<longleftrightarrow> j_id j = job_id \<and> j_state j = CLAIMED \<and> j_claim_token j = Some token"

definition renew_job :: "real \<Rightarrow> string \<Rightarrow> string \<Rightarrow> real \<Rightarrow> (db, unit) tx" where
  "renew_job now job_id token lease_seconds =
     (if lease_seconds \<le> 0 then throw (ValueError ''worker lease must be positive'')
      else transaction (
        read (\<lambda>s. count_where (owned job_id token) (jobs s)) (\<lambda>rowcount.
        exec (always (jobs_update (update_where (owned job_id token)
          (\<lambda>j. j\<lparr>j_lease_until := Some (now + lease_seconds)\<rparr>)))) (
        if rowcount \<noteq> 1 then throw (ValueError ''WORKER_CLAIM_LOST'') else ret ()))))"

section \<open>Inputs and results\<close>

text \<open>
  The join of \<open>job_inputs\<close>: update artifacts with the tag of their participant, by client. An
  update artifact has a client, and a round a participant row per client.
\<close>

definition job_inputs :: "string \<Rightarrow> db \<Rightarrow> exn + round_row \<times> (artifact_row \<times> string option) list" where
  "job_inputs rid s =
     (case round_of rid s of
        None \<Rightarrow> Inl TypeError
      | Some r \<Rightarrow> Inr (r, sort_key (\<lambda>(a, tag). the (a_client a)) (concat (map (\<lambda>a.
          map (\<lambda>p. (a, p_integrity_tag p))
            (filter (\<lambda>p. p_round p = a_round a \<and> a_client a = Some (p_client p)) (participants s)))
          (filter (\<lambda>a. a_round a = rid \<and> a_type a = ''update'') (artifacts s))))))"

definition complete_job :: "real \<Rightarrow> real \<Rightarrow> string \<Rightarrow> string \<Rightarrow> string \<Rightarrow> stored_object \<Rightarrow> string
    \<Rightarrow> (db, unit) tx" where
  "complete_job now tnow job_id rid token stored tag =
     transaction (
     read (\<lambda>s. list_ex (\<lambda>j. owned job_id token j \<and> j_round j = rid) (jobs s)) (\<lambda>mine.
     if \<not> mine then throw (ValueError ''WORKER_CLAIM_LOST'')
     else read (\<lambda>s. fetchone (\<lambda>a. a_round a = rid \<and> a_type a = ''result'') (artifacts s)) (\<lambda>existing.
       let finish =
         read (round_of rid) (\<lambda>row.
           case row of None \<Rightarrow> throw TypeError
           | Some r \<Rightarrow>
               if status r \<noteq> AGGREGATING then throw (ValueError ''WORKER_CLAIM_LOST'')
               else
                 call (transition tnow rid AGGREGATING RESULT_READY ''worker'' ''AGGREGATION_COMPLETED'' None) (\<lambda>_.
                 exec (always (jobs_update (update_where
                   (\<lambda>j. j_id j = job_id \<and> j_claim_token j = Some token)
                   (\<lambda>j. j\<lparr>j_state := JOB_COMPLETED, j_lease_until := None, j_claim_token := None,
                      j_result_tag := Some tag, j_last_error := None\<rparr>)))) (
                 ret ()))) in
       case existing of
         Some a \<Rightarrow> if a_digest a \<noteq> stored_digest stored then throw (ValueError ''WORKER_RESULT_CONFLICT'')
                   else finish
       | None \<Rightarrow> exec (insert_artifact (artifact_for stored rid None ''result'' now)) finish)))"

definition fail_job :: "real \<Rightarrow> string \<Rightarrow> string \<Rightarrow> string \<Rightarrow> string \<Rightarrow> bool \<Rightarrow> (db, bool) tx" where
  "fail_job tnow job_id rid token detail retryable =
     transaction (
     read (\<lambda>s. fetchone (\<lambda>j. owned job_id token j \<and> j_round j = rid) (jobs s)) (\<lambda>job.
       case job of None \<Rightarrow> ret False
       | Some j \<Rightarrow>
           let mine = (\<lambda>k. j_id k = job_id \<and> j_claim_token k = Some token) in
           if retryable \<and> j_attempts j < j_max_attempts j then
             exec (always (jobs_update (update_where mine (requeue (text_take 256 detail))))) (ret True)
           else
             exec (always (jobs_update (update_where mine (give_up (text_take 256 detail))))) (
             read (round_of rid) (\<lambda>row.
               case row of None \<Rightarrow> throw TypeError
               | Some r \<Rightarrow>
                   if status r = AGGREGATING then
                     call (transition tnow rid AGGREGATING FAILED ''worker'' ''AGGREGATION_FAILED''
                       (Some (text_take 256 detail))) (\<lambda>_. ret True)
                   else ret True))))"

definition result :: "string \<Rightarrow> db \<Rightarrow> (artifact_row \<times> string) option" where
  "result rid s =
     (case (fetchone (\<lambda>a. a_round a = rid \<and> a_type a = ''result'') (artifacts s),
            fetchone (\<lambda>j. j_round j = rid \<and> j_state j = JOB_COMPLETED) (jobs s)) of
        (Some a, Some j) \<Rightarrow> Some (a, case j_result_tag j of None \<Rightarrow> ''None'' | Some tag \<Rightarrow> tag)
      | _ \<Rightarrow> None)"

section \<open>Completion\<close>

definition complete_participant :: "real \<Rightarrow> real \<Rightarrow> string \<Rightarrow> string \<Rightarrow> string \<Rightarrow> string \<Rightarrow> (db, response) tx" where
  "complete_participant now tnow rid client idem_key digest =
     transaction (
     read (round_of rid) (\<lambda>row.
       if (case row of None \<Rightarrow> True | Some r \<Rightarrow> status r \<notin> {RESULT_READY, COMPLETED})
       then throw (ValueError ''ROUND_CONFLICT'')
       else let r = the row in
       idempotent client rid ''complete'' idem_key digest ret (
       exec (always (participants_update (update_where (\<lambda>p. p_round p = rid \<and> p_client p = client)
         (\<lambda>p. p\<lparr>p_completed := True, p_state := PARTICIPANT_COMPLETED, p_last_seen := now\<rparr>)))) (
       exec (remember client rid ''complete'' idem_key digest Accepted now) (
       exec (audit rid client ''PARTICIPANT_COMPLETED'' None now None) (
       read (\<lambda>s. count_where (\<lambda>p. p_round p = rid \<and> p_completed p) (participants s)) (\<lambda>count.
       if count = expected_count r \<and> status r = RESULT_READY then
         call (transition tnow rid RESULT_READY COMPLETED client ''COMPLETION_BARRIER'' None)
           (\<lambda>_. ret Accepted)
       else ret Accepted)))))))"

end
