(* ===== verification/Job_Machine.thy ===== *)
theory Job_Machine
  imports Update_Jobs
begin

text \<open>
  The abstract machine of an aggregation job: what one method call may do to a job row. The
  contracts of \<open>Contracts\<close> ask every update of the job table to follow it.
\<close>

section \<open>Well-formed jobs\<close>

definition job_ok :: "job_row \<Rightarrow> bool" where
  "job_ok j \<longleftrightarrow> (j_claim_token j \<noteq> None \<longleftrightarrow> j_state j = CLAIMED) \<and> (j_lease_until j \<noteq> None \<longleftrightarrow> j_state j = CLAIMED) \<and>
     (j_state j = CLAIMED \<longrightarrow> j_claimed_at j \<noteq> None \<and> 0 < j_attempts j) \<and> j_attempts j \<le> j_max_attempts j \<and>
     (j_result_tag j \<noteq> None \<longleftrightarrow> j_state j = JOB_COMPLETED)"

section \<open>Steps\<close>

inductive job_step :: "job_row \<Rightarrow> job_row \<Rightarrow> bool" where
  claim: "j_state j = JOB_READY \<Longrightarrow> j_attempts j < j_max_attempts j \<Longrightarrow> job_step j (take_claim now lease token j)"
| renew: "j_state j = CLAIMED \<Longrightarrow> job_step j (j\<lparr>j_lease_until := Some t\<rparr>)"
| requeue: "j_state j = CLAIMED \<Longrightarrow> job_step j (requeue error j)"
| give_up: "j_state j = JOB_READY \<or> j_state j = CLAIMED \<Longrightarrow> job_step j (give_up error j)"
| complete: "j_state j = CLAIMED \<Longrightarrow> job_step j (j\<lparr>j_state := JOB_COMPLETED, j_lease_until := None,
     j_claim_token := None, j_result_tag := Some tag, j_last_error := None\<rparr>)"

inductive_cases job_stepE: "job_step j j'"

lemma job_step_keys: "job_step j j' \<Longrightarrow> j_id j' = j_id j \<and> j_round j' = j_round j \<and> j_max_attempts j' = j_max_attempts j"
  by (erule job_stepE) (auto simp: take_claim_def requeue_def give_up_def)

lemma job_step_ok: "job_step j j' \<Longrightarrow> job_ok j \<Longrightarrow> job_ok j'"
  by (erule job_stepE) (auto simp: job_ok_def take_claim_def requeue_def give_up_def)

lemma job_step_attempts: "job_step j j' \<Longrightarrow> j_attempts j \<le> j_attempts j'"
  by (erule job_stepE) (auto simp: take_claim_def requeue_def give_up_def)

text \<open>Finished jobs stay as they are.\<close>

lemma job_step_final: "job_step j j' \<Longrightarrow> j_state j \<noteq> JOB_COMPLETED \<and> j_state j \<noteq> JOB_FAILED"
  by (erule job_stepE) auto

lemma job_steps_ok: "job_step\<^sup>*\<^sup>* j j' \<Longrightarrow> job_ok j \<Longrightarrow> job_ok j'"
  by (induction rule: rtranclp_induct) (auto intro: job_step_ok)

lemma job_steps_keys:
  "job_step\<^sup>*\<^sup>* j j' \<Longrightarrow> j_id j' = j_id j \<and> j_round j' = j_round j \<and> j_max_attempts j' = j_max_attempts j"
  by (induction rule: rtranclp_induct) (auto dest: job_step_keys)

lemma job_steps_attempts: "job_step\<^sup>*\<^sup>* j j' \<Longrightarrow> j_attempts j \<le> j_attempts j'"
  by (induction rule: rtranclp_induct) (auto dest: job_step_attempts)

lemma job_steps_final: "job_step\<^sup>*\<^sup>* j j' \<Longrightarrow> j_state j \<in> {JOB_COMPLETED, JOB_FAILED} \<Longrightarrow> j' = j"
  by (erule converse_rtranclpE) (auto dest: job_step_final)

section \<open>Lawful updates\<close>

definition job_lawful :: "(job_row \<Rightarrow> bool) \<Rightarrow> (job_row \<Rightarrow> job_row) \<Rightarrow> bool" where
  "job_lawful P h \<longleftrightarrow> (\<forall>j. j_id (h j) = j_id j \<and> j_round (h j) = j_round j) \<and> (\<forall>j. job_ok j \<longrightarrow> P j \<longrightarrow> job_step j (h j))"

lemma job_ok_token: "job_ok j \<Longrightarrow> j_claim_token j = Some token \<Longrightarrow> j_state j = CLAIMED"
  by (auto simp: job_ok_def)

lemma lawful_requeue:
  "(\<And>j. job_ok j \<Longrightarrow> P j \<Longrightarrow> j_state j = CLAIMED) \<Longrightarrow> job_lawful P (requeue error)"
  by (auto simp: job_lawful_def requeue_def [of error] intro: job_step.requeue [of _ error, unfolded requeue_def])

lemma lawful_give_up:
  "(\<And>j. job_ok j \<Longrightarrow> P j \<Longrightarrow> j_state j = JOB_READY \<or> j_state j = CLAIMED) \<Longrightarrow> job_lawful P (give_up error)"
  by (auto simp: job_lawful_def give_up_def [of error] intro: job_step.give_up [of _ error, unfolded give_up_def])

lemma lawful_renew:
  "(\<And>j. job_ok j \<Longrightarrow> P j \<Longrightarrow> j_state j = CLAIMED) \<Longrightarrow> job_lawful P (\<lambda>j. j\<lparr>j_lease_until := Some t\<rparr>)"
  by (auto simp: job_lawful_def intro: job_step.renew)

lemma lawful_complete:
  "(\<And>j. job_ok j \<Longrightarrow> P j \<Longrightarrow> j_state j = CLAIMED) \<Longrightarrow>
   job_lawful P (\<lambda>j. j\<lparr>j_state := JOB_COMPLETED, j_lease_until := None, j_claim_token := None,
     j_result_tag := Some tag, j_last_error := None\<rparr>)"
  by (auto simp: job_lawful_def intro: job_step.complete)

text \<open>The update of \<open>expire_rounds\<close> gives the job up, too.\<close>

lemma lawful_expire:
  "job_lawful (\<lambda>j. j_round j = rid \<and> j_state j \<in> {JOB_READY, CLAIMED})
     (\<lambda>j. j\<lparr>j_state := JOB_FAILED, j_lease_until := None, j_claim_token := None,
        j_last_error := Some ''round deadline exceeded''\<rparr>)"
  by (auto simp: job_lawful_def intro: job_step.give_up [of _ "''round deadline exceeded''", unfolded give_up_def])

lemmas lawful_rules = lawful_requeue lawful_give_up lawful_renew lawful_complete

end
