(* ===== verification/Contracts.thy ===== *)
theory Contracts
  imports Job_Machine
begin

text \<open>
  Contracts over the methods of \<open>Database\<close>. An effect is a reflexive and transitive relation
  between the database before and after; \<open>effect_contract\<close> lifts it through the control flow of
  store-passing code, and \<open>statement_contract\<close> asks for it of every SQL statement and derives it for
  every method. The interpretations in \<open>Integrity\<close> give each method its laws.
\<close>

section \<open>Effects\<close>

definition guarantees :: "('s \<Rightarrow> 's \<Rightarrow> bool) \<Rightarrow> ('s, 'a) tx \<Rightarrow> bool" where
  "guarantees R m \<longleftrightarrow> (\<forall>s. R s (snd (m s)))"

definition stmt_guarantees :: "('s \<Rightarrow> 's \<Rightarrow> bool) \<Rightarrow> 's stmt \<Rightarrow> bool" where
  "stmt_guarantees R st \<longleftrightarrow> (\<forall>s s'. st s = Inr s' \<longrightarrow> R s s')"

lemma guaranteesD: "guarantees R m \<Longrightarrow> m s = (x, s') \<Longrightarrow> R s s'"
  unfolding guarantees_def by (metis snd_conv)

lemma stmt_guarantees_checked:
  "stmt_guarantees R (checked ok f) \<longleftrightarrow> (\<forall>s. ok s \<longrightarrow> R s (f s))"
  by (auto simp: stmt_guarantees_def checked_def)

lemma stmt_guarantees_always: "stmt_guarantees R (always f) \<longleftrightarrow> (\<forall>s. R s (f s))"
  by (auto simp: stmt_guarantees_def always_def)

locale effect_contract =
  fixes R :: "'s \<Rightarrow> 's \<Rightarrow> bool"
  assumes refl: "R s s"
    and trans: "R s t \<Longrightarrow> R t u \<Longrightarrow> R s u"
begin

lemma g_ret: "guarantees R (ret x)"
  by (simp add: guarantees_def refl)

lemma g_throw: "guarantees R (throw e)"
  by (simp add: guarantees_def refl)

lemma g_read: "(\<And>x. guarantees R (k x)) \<Longrightarrow> guarantees R (read q k)"
  by (simp add: guarantees_def)

lemma g_read_range: "(\<And>x. x \<in> range q \<Longrightarrow> guarantees R (k x)) \<Longrightarrow> guarantees R (read q k)"
  by (simp add: guarantees_def)

lemma g_exec: "stmt_guarantees R st \<Longrightarrow> guarantees R k \<Longrightarrow> guarantees R (exec st k)"
  by (auto simp: guarantees_def stmt_guarantees_def exec_def refl intro: trans split: sum.split)

lemma g_call: "guarantees R m \<Longrightarrow> (\<And>x. guarantees R (k x)) \<Longrightarrow> guarantees R (call m k)"
  unfolding guarantees_def call_def
  by (auto split: prod.split sum.split) (metis snd_conv, metis snd_conv trans)

lemma g_if: "(b \<Longrightarrow> guarantees R m) \<Longrightarrow> (\<not> b \<Longrightarrow> guarantees R n) \<Longrightarrow> guarantees R (if b then m else n)"
  by simp

lemma g_option:
  "guarantees R m \<Longrightarrow> (\<And>x. guarantees R (k x)) \<Longrightarrow> guarantees R (case v of None \<Rightarrow> m | Some x \<Rightarrow> k x)"
  by (simp split: option.split)

lemma g_sum:
  "(\<And>e. guarantees R (m e)) \<Longrightarrow> (\<And>x. guarantees R (k x)) \<Longrightarrow>
   guarantees R (case v of Inl e \<Rightarrow> m e | Inr x \<Rightarrow> k x)"
  by (simp split: sum.split)

lemma g_prod: "(\<And>x y. guarantees R (k x y)) \<Longrightarrow> guarantees R (case v of (x, y) \<Rightarrow> k x y)"
  by (simp split: prod.split)

lemma stmt_many: "(\<And>x. x \<in> set xs \<Longrightarrow> stmt_guarantees R (f x)) \<Longrightarrow> stmt_guarantees R (exec_many f xs)"
  unfolding stmt_guarantees_def
proof (induction xs)
  case (Cons x xs)
  show ?case
  proof (intro allI impI)
    fix s s' assume "exec_many f (x # xs) s = Inr s'"
    then obtain t where "f x s = Inr t" "exec_many f xs t = Inr s'" by (auto split: sum.splits)
    with Cons show "R s s'" by (metis list.set_intros trans)
  qed
qed (simp add: refl)

lemmas flow = g_ret g_throw g_read g_exec g_call g_if g_option g_sum g_prod

end

section \<open>Methods from statements\<close>

text \<open>
  \<open>scope\<close> holds of the rounds whose rows the statements may write; \<open>\<lambda>_. True\<close> for the effects that
  hold of every statement. \<open>ledger_contract\<close> has the statements of the methods that store no artifact and
  update no job. \<open>working_contract\<close> adds the updates of jobs, which find their row by the identifier of the job and
  not by its round, \<open>storing_contract\<close> the storing of artifacts, and \<open>statement_contract\<close> is both.
\<close>

text \<open>The round that a recorded answer is about: a creation is recorded under its federation.\<close>

fun answers_about :: "string \<Rightarrow> response \<Rightarrow> string" where
  "answers_about rid (RoundCreated c) = round_id c"
| "answers_about rid _ = rid"

definition answer_round :: "idempotency_row \<Rightarrow> string" where
  "answer_round i = answers_about (i_round i) (i_response i)"

locale ledger_contract = effect_contract R for R :: "db \<Rightarrow> db \<Rightarrow> bool" +
  fixes scope :: "string \<Rightarrow> bool"
  assumes st_round: "scope (round_id r) \<Longrightarrow> stmt_guarantees R (insert_round r)"
    and st_participant: "scope (p_round p) \<Longrightarrow> p_integrity_tag p = None \<Longrightarrow> stmt_guarantees R (insert_participant p)"
    and st_idempotency: "scope (answer_round i) \<Longrightarrow> stmt_guarantees R (insert_idempotency i)"
    and st_job: "scope rid \<Longrightarrow> stmt_guarantees R (insert_job (new_job job_id rid))"
    and st_audit: "e_round e = Some rid \<Longrightarrow> scope rid \<Longrightarrow> stmt_guarantees R (insert_audit e)"
    and st_plan: "scope (tp_round pl) \<Longrightarrow> stmt_guarantees R (insert_plan pl)"
    and st_task: "scope (t_round t) \<Longrightarrow> stmt_guarantees R (insert_task t)"
    and st_dependency: "scope (d_round d) \<Longrightarrow> stmt_guarantees R (insert_dependency d)"
    and st_task_receipt: "scope (tr_round tr) \<Longrightarrow> stmt_guarantees R (insert_task_receipt tr)"
    and st_final_key: "scope (fk_round k) \<Longrightarrow> stmt_guarantees R (insert_final_key k)"
    and st_final_receipt: "scope (fr_round fr) \<Longrightarrow> stmt_guarantees R (insert_final_receipt fr)"
    and st_upload: "scope rid \<Longrightarrow> stmt_guarantees R (update_task_artifact
      (\<lambda>t. t_round t = rid \<and> task_id t = tid \<and> t_state t = READY) (upload_task stored dg nonce sig) (object_id stored))"
    and st_task_done: "scope rid \<Longrightarrow> stmt_guarantees R (always (key_tasks_update (update_where
      (\<lambda>t. t_round t = rid \<and> task_id t = tid)
      (\<lambda>t. t\<lparr>t_state := TASK_COMPLETED, t_completed_at := Some now\<rparr>))))"
    and st_release: "scope rid \<Longrightarrow> stmt_guarantees R (always (release_tasks rid))"
    and st_slots: "scope rid \<Longrightarrow>
      (\<And>p. p_round (f p) = p_round p \<and> p_client (f p) = p_client p \<and> p_integrity_tag (f p) = p_integrity_tag p) \<Longrightarrow>
      stmt_guarantees R (always (participants_update (update_where (\<lambda>p. p_round p = rid \<and> p_client p = client) f)))"
    and st_transition: "scope rid \<Longrightarrow> guarantees R (transition now rid source target actor event detail)"
begin

lemma g_transaction: "guarantees R body \<Longrightarrow> guarantees R (transaction body)"
  by (auto simp: guarantees_def transaction_def refl split: prod.split sum.split) (metis snd_conv)

lemma g_idempotent:
  "(\<And>r. guarantees R (replay r)) \<Longrightarrow> guarantees R body \<Longrightarrow>
   guarantees R (idempotent client rid operation idem_key digest replay body)"
  unfolding idempotent_def by (intro flow) auto

lemma st_remember:
  "scope (answers_about rid resp) \<Longrightarrow> stmt_guarantees R (remember client rid operation idem_key digest resp now)"
  unfolding remember_def by (rule st_idempotency) (simp add: answer_round_def)

lemma st_event: "scope rid \<Longrightarrow> stmt_guarantees R (audit rid actor event version now detail)"
  unfolding audit_def by (rule st_audit) auto

lemma fill_slot_keys: "p_round (fill_slot now body p) = p_round p \<and> p_client (fill_slot now body p) = p_client p \<and>
    p_integrity_tag (fill_slot now body p) = p_integrity_tag p"
  by (cases body) auto

lemmas body_rules = flow g_transaction g_idempotent st_remember st_event st_job
  st_plan st_task st_dependency st_task_receipt st_final_key st_final_receipt st_upload st_task_done
  st_release st_slots st_transition

lemma g_create_round:
  "scope rid \<Longrightarrow> guarantees R (create_round now rid federation version schema schema_hash clients manifest_hash
     ttl retention actor idem_key digest)"
  unfolding create_round_def Let_def
  by (intro body_rules st_round stmt_many) (auto simp: new_round_def new_participant_def created_response_def intro: st_participant)

lemma g_fail_round: "scope rid \<Longrightarrow> guarantees R (fail_round tnow rid actor code detail)"
  unfolding fail_round_def by (intro body_rules) auto

lemma g_abort: "scope rid \<Longrightarrow> guarantees R (abort tnow now rid actor reason idem_key digest)"
  unfolding abort_def by (intro body_rules) auto

lemma g_reconcile: "scope rid \<Longrightarrow> guarantees R (reconcile now tnow rid)"
  unfolding reconcile_def Let_def by (intro body_rules) auto

lemma g_get_round: "scope rid \<Longrightarrow> guarantees R (get_round expire now now' tnow rid)"
  unfolding get_round_def by (intro body_rules g_reconcile) auto

lemma g_record_json_slot:
  "scope rid \<Longrightarrow> guarantees R (record_json_slot now tnow rid client body idem_key digest)"
  unfolding record_json_slot_def Let_def
  by (intro body_rules) (auto simp: fill_slot_keys)

lemma g_create_tree_plan: "scope (round_id row) \<Longrightarrow> guarantees R (create_tree_plan sha row now)"
  unfolding create_tree_plan_def Let_def
  by (intro body_rules stmt_many) (auto simp: task_row_def dependency_rows_def)

lemma g_key_commit:
  assumes "scope rid"
  shows "guarantees R (key_commit sha now tnow rid client commitment idem_key digest)"
  unfolding key_commit_def Let_def
  by (rule g_transaction, rule g_idempotent, rule g_ret, rule g_read_range, rule g_if, rule g_throw,
      intro body_rules g_create_tree_plan)
    (use assms in \<open>auto simp: commit_context_def dest: round_of_id [OF sym] split: option.splits\<close>)

lemma g_key_complete:
  "scope rid \<Longrightarrow> guarantees R (key_complete sha now tnow rid client commitment idem_key digest)"
  unfolding key_complete_def by (intro body_rules g_key_commit)

lemma g_acknowledge_task:
  "scope rid \<Longrightarrow> guarantees R (acknowledge_task now rid client tid artifact_digest idem_key digest)"
  unfolding acknowledge_task_def Let_def by (intro body_rules) auto

lemma g_acknowledge_final_key:
  "scope rid \<Longrightarrow> guarantees R (acknowledge_final_key now tnow rid client artifact_digest idem_key digest)"
  unfolding acknowledge_final_key_def Let_def by (intro body_rules) auto

lemma g_complete_participant:
  "scope rid \<Longrightarrow> guarantees R (complete_participant now tnow rid client idem_key digest)"
  unfolding complete_participant_def Let_def by (intro body_rules) auto

end

locale working_contract = ledger_contract +
  assumes st_jobs: "job_lawful P h \<Longrightarrow> stmt_guarantees R (always (jobs_update (update_where P h)))"
    and st_claim: "guarantees R (claim_ready now token lease_seconds)"
begin

lemmas working_rules = body_rules st_jobs st_claim

lemma g_expire_loop: "(\<And>rid. scope rid) \<Longrightarrow> guarantees R (expire_loop tnow rows n)"
  by (induction tnow rows n rule: expire_loop.induct)
    (auto intro!: working_rules lawful_expire [simplified] simp del: ret_apply)

lemma g_expire_rounds: "(\<And>rid. scope rid) \<Longrightarrow> guarantees R (expire_rounds clock now tnow)"
  unfolding expire_rounds_def Let_def by (intro working_rules g_expire_loop) auto

lemma g_release_stale: "(\<And>rid. scope rid) \<Longrightarrow> guarantees R (release_stale now tnow expired)"
  by (induction expired) (auto simp: Let_def simp del: ret_apply intro!: working_rules lawful_rules)

lemma g_claim_job: "(\<And>rid. scope rid) \<Longrightarrow> guarantees R (claim_job now tnow token lease_seconds)"
  unfolding claim_job_def by (intro working_rules g_release_stale)

lemma g_renew_job: "guarantees R (renew_job now job_id token lease_seconds)"
  unfolding renew_job_def by (intro working_rules lawful_renew) (auto simp: owned_def)

lemma g_fail_job: "scope rid \<Longrightarrow> guarantees R (fail_job tnow job_id rid token detail retryable)"
  unfolding fail_job_def Let_def by (intro working_rules lawful_rules) (auto dest: job_ok_token)

end

locale storing_contract = ledger_contract +
  assumes st_artifact: "scope (a_round a) \<Longrightarrow> stmt_guarantees R (insert_artifact a)"
    and st_submission: "scope rid \<Longrightarrow> stmt_guarantees R (always (participants_update (update_where
      (\<lambda>p. p_round p = rid \<and> p_client p = client) (submit_update now stored tag))))"
begin

lemmas storing_rules = body_rules st_artifact st_submission

lemma g_record_task_artifact:
  "scope rid \<Longrightarrow> guarantees R (record_task_artifact now rid client tid stored dg nonce sig idem_key digest)"
  unfolding record_task_artifact_def Let_def by (intro storing_rules) (auto simp: artifact_for_def)

lemma g_record_final_key:
  "scope rid \<Longrightarrow> guarantees R (record_final_key now rid client stored dg nonce sig idem_key digest)"
  unfolding record_final_key_def Let_def by (intro storing_rules) (auto simp: artifact_for_def)

lemma g_record_update:
  "scope rid \<Longrightarrow> guarantees R (record_update now tnow job_id rid client stored tag idem_key digest)"
  unfolding record_update_def Let_def
  by (intro storing_rules) (auto simp: artifact_for_def stored_response_def)

end

locale statement_contract = working_contract R scope + storing_contract R scope
  for R :: "db \<Rightarrow> db \<Rightarrow> bool" and scope :: "string \<Rightarrow> bool"
begin

lemma g_complete_job: "scope rid \<Longrightarrow> guarantees R (complete_job now tnow job_id rid token stored tag)"
  unfolding complete_job_def Let_def
  by (intro storing_rules st_jobs lawful_complete) (auto simp: artifact_for_def dest: job_ok_token)

end

end
