(* ===== verification/Integrity.thy ===== *)
theory Integrity
  imports Contracts "HOL-Library.Sublist"
begin

text \<open>
  The interpretations of the statement contract: primary keys and \<open>UNIQUE\<close> constraints, foreign
  keys, the refinement of the round life cycle, the append-only tables, and the isolation of rounds
  from each other. Each gives one law for every method of \<open>Database\<close> that is not a purge; the jobs of other
  rounds have one for the methods that update no job, and \<open>System\<close> adds the rest.
\<close>

section \<open>Constraints of the schema\<close>

definition keys_ok :: "db \<Rightarrow> bool" where
  "keys_ok s \<longleftrightarrow>
     distinct (map round_id (rounds s)) \<and>
     distinct (map (\<lambda>p. (p_round p, p_client p)) (participants s)) \<and>
     distinct (map a_id (artifacts s)) \<and> distinct (map a_path (artifacts s)) \<and>
     distinct (map (\<lambda>i. (i_client i, i_round i, i_operation i, i_key i)) (idempotency s)) \<and>
     distinct (map j_id (jobs s)) \<and> distinct (map j_round (jobs s)) \<and>
     distinct (map tp_round (tree_plans s)) \<and>
     distinct (map (\<lambda>t. (t_round t, task_id t)) (key_tasks s)) \<and>
     distinct (map (\<lambda>d. (d_round d, d_task d, d_dependency d)) (task_dependencies s)) \<and>
     distinct (map (\<lambda>r. (tr_round r, tr_task r)) (task_receipts s)) \<and>
     distinct (map fk_round (final_keys s)) \<and>
     distinct (map (\<lambda>f. (fr_round f, fr_client f)) (final_key_receipts s)) \<and>
     distinct (map (\<lambda>a. (a_round a, a_client a, a_type a)) (filter (\<lambda>a. a_client a \<noteq> None) (artifacts s)))"

definition refs_ok :: "db \<Rightarrow> bool" where
  "refs_ok s \<longleftrightarrow>
     list_all (\<lambda>p. round_exists (p_round p) s) (participants s) \<and>
     list_all (\<lambda>a. round_exists (a_round a) s) (artifacts s) \<and>
     list_all (\<lambda>j. round_exists (j_round j) s) (jobs s) \<and>
     list_all (\<lambda>p. round_exists (tp_round p) s) (tree_plans s) \<and>
     list_all (\<lambda>t. round_exists (t_round t) s \<and>
       (case t_artifact t of None \<Rightarrow> True | Some aid \<Rightarrow> artifact_exists aid s)) (key_tasks s) \<and>
     list_all (\<lambda>d. task_exists (d_round d) (d_task d) s \<and> task_exists (d_round d) (d_dependency d) s)
       (task_dependencies s) \<and>
     list_all (\<lambda>r. task_exists (tr_round r) (tr_task r) s) (task_receipts s) \<and>
     list_all (\<lambda>k. round_exists (fk_round k) s \<and> artifact_exists (fk_artifact k) s) (final_keys s) \<and>
     list_all (\<lambda>f. round_exists (fr_round f) s) (final_key_receipts s)"

text \<open>A transition rewrites matching round rows and, when it succeeds, adds one event.\<close>

abbreviation moved :: "real \<Rightarrow> string \<Rightarrow> round_state \<Rightarrow> round_state \<Rightarrow> string \<Rightarrow> string option \<Rightarrow> db \<Rightarrow> db" where
  "moved now rid source target event detail s \<equiv>
     rounds_update (update_where (\<lambda>r. round_id r = rid \<and> status r = source) (advance now target event detail)) s"

abbreviation logged :: "audit_row list \<Rightarrow> db \<Rightarrow> db" where
  "logged new s \<equiv> audit_events_update (\<lambda>es. es @ new) s"

lemma logged_Nil: "logged [] s = s"
  by (cases s) simp

lemma transition_shape:
  assumes "transition now rid source target actor event detail s = (res, s')"
  shows "s' = s \<or> transition_allowed source target \<and>
    (\<exists>es. (\<forall>e\<in>set es. e_round e = Some rid) \<and> s' = logged es (moved now rid source target event detail s))"
proof (cases "transition_allowed source target")
  case False
  with assms show ?thesis by (simp add: transition_def)
next
  case True
  let ?u = "moved now rid source target event detail s"
  let ?entry = "\<lambda>v. \<lparr>e_round = Some rid, e_actor = actor, e_event = event, e_version = Some v,
    e_created = now, e_detail = detail\<rparr>"
  have "s' = ?u \<or> (\<exists>v. s' = logged [?entry v] ?u)"
    using assms True
    by (auto simp: transition_def Let_def audit_def insert_audit_def split: if_splits option.splits)
  then have "\<exists>es. (\<forall>e\<in>set es. e_round e = Some rid) \<and> s' = logged es ?u"
  proof (elim disjE exE conjE)
    assume "s' = ?u"
    then have "s' = logged [] ?u" by (simp only: logged_Nil)
    then show ?thesis by (intro exI [of _ "[]"]) simp
  next
    fix v assume "s' = logged [?entry v] ?u"
    then show ?thesis by (intro exI [of _ "[?entry v]"]) simp
  qed
  with True show ?thesis by blast
qed

lemma advance_keys [simp]:
  "round_id (advance now target event detail r) = round_id r"
  "status (advance now target event detail r) = target"
  "state_version (advance now target event detail r) = state_version r + 1"
  by (simp_all add: advance_def)

lemmas insert_defs = insert_round_def insert_participant_def insert_artifact_def
  insert_idempotency_def insert_job_def insert_audit_def insert_plan_def insert_task_def
  insert_dependency_def insert_task_receipt_def insert_final_key_def insert_final_receipt_def
  update_task_artifact_def

lemma transition_guarantees:
  assumes "\<And>s. R s s"
    and "\<And>s es. transition_allowed source target \<Longrightarrow> \<forall>e\<in>set es. e_round e = Some rid \<Longrightarrow>
      R s (logged es (moved now rid source target event detail s))"
  shows "guarantees R (transition now rid source target actor event detail)"
  unfolding guarantees_def
proof
  fix s
  obtain res s' where t: "transition now rid source target actor event detail s = (res, s')"
    by (cases "transition now rid source target actor event detail s") auto
  from transition_shape [OF t] assms show "R s (snd (transition now rid source target actor event detail s))"
    unfolding t by auto
qed

lemma claim_ready_guarantees:
  assumes "\<And>s. R s s"
    and "\<And>s j. claimable now s j \<Longrightarrow> j \<in> set (jobs s) \<Longrightarrow> R s (jobs_update (update_where
      (\<lambda>k. j_id k = j_id j \<and> j_state k = JOB_READY) (take_claim now lease_seconds token)) s)"
  shows "guarantees R (claim_ready now token lease_seconds)"
  using assms
  by (auto simp: guarantees_def claim_ready_def Let_def dest: find_SomeD split: option.split)

interpretation keys: statement_contract "\<lambda>s s'. keys_ok s \<longrightarrow> keys_ok s'" "\<lambda>_. True"
proof unfold_locales
  show "guarantees (\<lambda>s s'. keys_ok s \<longrightarrow> keys_ok s') (claim_ready now token lease_seconds)"
    for now token lease_seconds
    by (rule claim_ready_guarantees) (auto simp: keys_ok_def map_update_where take_claim_def)
  show "guarantees (\<lambda>s s'. keys_ok s \<longrightarrow> keys_ok s') (transition now rid source target actor event detail)"
    for now rid source target actor event detail
    by (rule transition_guarantees) (auto simp: keys_ok_def map_update_where)
qed (auto simp: insert_defs submit_update_def new_job_def job_lawful_def stmt_guarantees_checked stmt_guarantees_always keys_ok_def list_ex_iff
    round_exists_def task_exists_def map_update_where upload_task_def release_tasks_def image_iff)

lemma round_exists_append: "round_exists rid (rounds_update (\<lambda>rs. rs @ [r]) s) \<longleftrightarrow> round_exists rid s \<or> round_id r = rid"
  by (auto simp: round_exists_def)

lemma round_exists_same:
  "map round_id (rounds s') = map round_id (rounds s) \<Longrightarrow> round_exists rid s' = round_exists rid s"
  unfolding round_exists_def list_ex_iff by (metis (mono_tags, lifting) image_iff list.set_map)

lemma artifact_exists_same:
  "map a_id (artifacts s') = map a_id (artifacts s) \<Longrightarrow> artifact_exists aid s' = artifact_exists aid s"
  unfolding artifact_exists_def list_ex_iff by (metis (mono_tags, lifting) image_iff list.set_map)

lemma task_exists_same:
  assumes "map (\<lambda>t. (t_round t, task_id t)) (key_tasks s') = map (\<lambda>t. (t_round t, task_id t)) (key_tasks s)"
  shows "task_exists rid tid s' = task_exists rid tid s"
proof -
  have "task_exists rid tid u \<longleftrightarrow> (rid, tid) \<in> set (map (\<lambda>t. (t_round t, task_id t)) (key_tasks u))" for u
    by (auto simp: task_exists_def list_ex_iff)
  then show ?thesis by (simp only: assms)
qed

lemma exists_other_table [simp]:
  "round_exists rid (participants_update f s) = round_exists rid s"
  "round_exists rid (artifacts_update g s) = round_exists rid s"
  "round_exists rid (jobs_update h s) = round_exists rid s"
  "round_exists rid (tree_plans_update i s) = round_exists rid s"
  "round_exists rid (key_tasks_update j s) = round_exists rid s"
  "round_exists rid (task_dependencies_update k s) = round_exists rid s"
  "round_exists rid (task_receipts_update l s) = round_exists rid s"
  "round_exists rid (final_keys_update m s) = round_exists rid s"
  "round_exists rid (final_key_receipts_update n s) = round_exists rid s"
  "round_exists rid (idempotency_update p s) = round_exists rid s"
  "round_exists rid (audit_events_update q s) = round_exists rid s"
  by (simp_all add: round_exists_def)

lemma artifact_other_table [simp]:
  "artifact_exists aid (participants_update f s) = artifact_exists aid s"
  "artifact_exists aid (rounds_update g s) = artifact_exists aid s"
  "artifact_exists aid (jobs_update h s) = artifact_exists aid s"
  "artifact_exists aid (tree_plans_update i s) = artifact_exists aid s"
  "artifact_exists aid (key_tasks_update j s) = artifact_exists aid s"
  "artifact_exists aid (task_dependencies_update k s) = artifact_exists aid s"
  "artifact_exists aid (task_receipts_update l s) = artifact_exists aid s"
  "artifact_exists aid (final_keys_update m s) = artifact_exists aid s"
  "artifact_exists aid (final_key_receipts_update n s) = artifact_exists aid s"
  "artifact_exists aid (idempotency_update p s) = artifact_exists aid s"
  "artifact_exists aid (audit_events_update q s) = artifact_exists aid s"
  by (simp_all add: artifact_exists_def)

lemma task_other_table [simp]:
  "task_exists rid tid (participants_update f s) = task_exists rid tid s"
  "task_exists rid tid (rounds_update g s) = task_exists rid tid s"
  "task_exists rid tid (jobs_update h s) = task_exists rid tid s"
  "task_exists rid tid (tree_plans_update i s) = task_exists rid tid s"
  "task_exists rid tid (artifacts_update j s) = task_exists rid tid s"
  "task_exists rid tid (task_dependencies_update k s) = task_exists rid tid s"
  "task_exists rid tid (task_receipts_update l s) = task_exists rid tid s"
  "task_exists rid tid (final_keys_update m s) = task_exists rid tid s"
  "task_exists rid tid (final_key_receipts_update n s) = task_exists rid tid s"
  "task_exists rid tid (idempotency_update p s) = task_exists rid tid s"
  "task_exists rid tid (audit_events_update q s) = task_exists rid tid s"
  by (simp_all add: task_exists_def)

lemma exists_update [simp]:
  "(\<And>r. round_id (f r) = round_id r) \<Longrightarrow>
   round_exists rid (rounds_update (update_where P f) s) = round_exists rid s"
  "(\<And>t. t_round (g t) = t_round t \<and> task_id (g t) = task_id t) \<Longrightarrow>
   task_exists rid tid (key_tasks_update (update_where Q g) s) = task_exists rid tid s"
  "(\<And>t. t_round (g t) = t_round t \<and> task_id (g t) = task_id t) \<Longrightarrow>
   task_exists rid tid (s\<lparr>key_tasks := update_where Q g (key_tasks s)\<rparr>) = task_exists rid tid s"
  by (rule round_exists_same task_exists_same, simp add: map_update_where)+

lemma exists_append [simp]:
  "round_exists rid (rounds_update (\<lambda>rs. rs @ [r]) s) \<longleftrightarrow> round_exists rid s \<or> round_id r = rid"
  "artifact_exists aid (artifacts_update (\<lambda>rs. rs @ [a]) s) \<longleftrightarrow> artifact_exists aid s \<or> a_id a = aid"
  "task_exists rid tid (key_tasks_update (\<lambda>rs. rs @ [t]) s) \<longleftrightarrow>
     task_exists rid tid s \<or> t_round t = rid \<and> task_id t = tid"
  by (auto simp: round_exists_def artifact_exists_def task_exists_def)

interpretation refs: statement_contract "\<lambda>s s'. refs_ok s \<longrightarrow> refs_ok s'" "\<lambda>_. True"
proof unfold_locales
  show "guarantees (\<lambda>s s'. refs_ok s \<longrightarrow> refs_ok s') (claim_ready now token lease_seconds)"
    for now token lease_seconds
    by (rule claim_ready_guarantees)
      (auto simp: refs_ok_def list_all_iff set_update_where take_claim_def split: option.splits cong: option.case_cong)
  show "guarantees (\<lambda>s s'. refs_ok s \<longrightarrow> refs_ok s') (transition now rid source target actor event detail)"
    for now rid source target actor event detail
    by (rule transition_guarantees) (auto simp: refs_ok_def cong: option.case_cong)
qed (auto simp: insert_defs submit_update_def new_job_def job_lawful_def stmt_guarantees_checked stmt_guarantees_always refs_ok_def list_all_iff
    list_ex_iff upload_task_def set_update_where release_tasks_def split: option.splits cong: option.case_cong)

section \<open>The life of a round, refined\<close>

text \<open>
  The abstract step of a round row: an allowed transition, with the bookkeeping of \<open>advance\<close>.
  Every method acts on every existing round as some number of these steps.
\<close>

definition round_step :: "round_row \<Rightarrow> round_row \<Rightarrow> bool" where
  "round_step r r' \<longleftrightarrow> (\<exists>now target event detail.
     transition_allowed (status r) target \<and> r' = advance now target event detail r)"

definition rounds_progress :: "db \<Rightarrow> db \<Rightarrow> bool" where
  "rounds_progress s s' \<longleftrightarrow>
     (\<forall>rid r. round_of rid s = Some r \<longrightarrow> (\<exists>r'. round_of rid s' = Some r' \<and> round_step\<^sup>*\<^sup>* r r'))"

lemma rounds_progress_same: "rounds s' = rounds s \<Longrightarrow> rounds_progress s s'"
  by (auto simp: rounds_progress_def round_of_def)

lemma rounds_progress_refl: "rounds_progress s s"
  by (rule rounds_progress_same) simp

lemma rounds_progress_trans:
  "rounds_progress s t \<Longrightarrow> rounds_progress t u \<Longrightarrow> rounds_progress s u"
  unfolding rounds_progress_def by (meson rtranclp_trans)

lemma rounds_progress_insert: "rounds_progress s (rounds_update (\<lambda>rs. rs @ [r]) s)"
  by (auto simp: rounds_progress_def round_of_def find_append)

lemma rounds_progress_moved:
  assumes "transition_allowed source target"
  shows "rounds_progress s (logged es (moved now rid source target event detail s))"
proof -
  have "round_step r (advance now target event detail r)" if "status r = source" for r
    using that assms by (auto simp: round_step_def)
  then have step: "round_step\<^sup>*\<^sup>* r (advance now target event detail r)" if "status r = source" for r
    using that by blast
  show ?thesis
    unfolding rounds_progress_def
  proof (intro allI impI)
    fix q r assume "round_of q s = Some r"
    then have "round_of q (logged es (moved now rid source target event detail s))
        = Some (if round_id r = rid \<and> status r = source then advance now target event detail r else r)"
      by (simp add: round_of_def find_update_where)
    with step show "\<exists>r'. round_of q (logged es (moved now rid source target event detail s)) = Some r' \<and>
        round_step\<^sup>*\<^sup>* r r'" by auto
  qed
qed

interpretation progress: statement_contract rounds_progress "\<lambda>_. True"
proof unfold_locales
  show "guarantees rounds_progress (claim_ready now token lease_seconds)" for now token lease_seconds
    by (rule claim_ready_guarantees) (auto intro: rounds_progress_same)
  show "rounds_progress s s" for s by (rule rounds_progress_refl)
  show "rounds_progress s t \<Longrightarrow> rounds_progress t u \<Longrightarrow> rounds_progress s u" for s t u
    by (rule rounds_progress_trans)
  show "guarantees rounds_progress (transition now rid source target actor event detail)"
    for now rid source target actor event detail
    by (rule transition_guarantees) (auto intro: rounds_progress_refl rounds_progress_moved)
  show "stmt_guarantees rounds_progress (insert_round r)" for r
    by (auto simp: insert_round_def stmt_guarantees_checked intro: rounds_progress_insert)
qed (auto simp: insert_defs submit_update_def new_job_def job_lawful_def stmt_guarantees_checked stmt_guarantees_always release_tasks_def
    intro: rounds_progress_same)

text \<open>What the abstract steps preserve.\<close>

definition frozen :: "round_row \<Rightarrow> round_context \<times> model_schema \<times> string list \<times> nat \<times> real \<times> real" where
  "frozen r = (round_context.truncate r, model_schema_json r, participants_json r, expected_count r,
     created_at r, deadline_at r)"

lemma advance_frozen: "frozen (advance now target event detail r) = frozen r"
  by (simp add: frozen_def advance_def round_context.defs)

lemma round_steps_frozen: "round_step\<^sup>*\<^sup>* r r' \<Longrightarrow> frozen r' = frozen r"
  by (induction rule: rtranclp_induct) (auto simp: round_step_def advance_frozen)

lemma round_steps_path:
  "round_step\<^sup>*\<^sup>* r r' \<Longrightarrow> \<exists>path. lifecycle (path @ [status r']) \<and> hd (path @ [status r']) = status r \<and>
     state_version r' = state_version r + length path"
proof (induction rule: rtranclp_induct)
  case base
  show ?case by (intro exI [of _ "[]"]) simp
next
  case (step r' r'')
  then obtain path where path: "lifecycle (path @ [status r'])" "hd (path @ [status r']) = status r"
    "state_version r' = state_version r + length path" by blast
  from step(2) have "transition_allowed (status r') (status r'')" "state_version r'' = state_version r' + 1"
    by (auto simp: round_step_def)
  with path show ?case
    by (intro exI [of _ "path @ [status r']"]) (auto simp: lifecycle_append hd_append)
qed

lemma round_steps_terminal: "round_step\<^sup>*\<^sup>* r r' \<Longrightarrow> status r \<in> TERMINAL_STATES \<Longrightarrow> r' = r"
  by (induction rule: rtranclp_induct) (auto simp: round_step_def dest: allowed_source_active)

section \<open>Append-only tables\<close>

definition extended :: "db \<Rightarrow> db \<Rightarrow> bool" where
  "extended s s' \<longleftrightarrow>
     prefix (artifacts s) (artifacts s') \<and> prefix (idempotency s) (idempotency s') \<and>
     prefix (audit_events s) (audit_events s') \<and> prefix (tree_plans s) (tree_plans s') \<and>
     prefix (task_dependencies s) (task_dependencies s') \<and>
     prefix (task_receipts s) (task_receipts s') \<and> prefix (final_keys s) (final_keys s') \<and>
     prefix (final_key_receipts s) (final_key_receipts s')"

interpretation append: statement_contract extended "\<lambda>_. True"
proof unfold_locales
  show "guarantees extended (claim_ready now token lease_seconds)" for now token lease_seconds
    by (rule claim_ready_guarantees) (auto simp: extended_def)
  show "extended s t \<Longrightarrow> extended t u \<Longrightarrow> extended s u" for s t u
    unfolding extended_def by (meson prefix_order.trans)
  show "guarantees extended (transition now rid source target actor event detail)"
    for now rid source target actor event detail
    by (rule transition_guarantees) (auto simp: extended_def)
qed (auto simp: insert_defs submit_update_def new_job_def job_lawful_def stmt_guarantees_checked stmt_guarantees_always release_tasks_def extended_def)

section \<open>Isolation of rounds\<close>

text \<open>
  What one round has in the database: its rows in every table, and the recorded answers about it.
  A creation is answered under the name of the federation; such an answer falls to the purge of a round that has
  that name, so the answers recorded under the rounds \<open>gone\<close> that a call may write are left out.
\<close>

definition same_tables :: "string set \<Rightarrow> string \<Rightarrow> db \<Rightarrow> db \<Rightarrow> bool" where
  "same_tables gone q s s' \<longleftrightarrow>
     filter (\<lambda>r. round_id r = q) (rounds s') = filter (\<lambda>r. round_id r = q) (rounds s) \<and>
     filter (\<lambda>p. p_round p = q) (participants s') = filter (\<lambda>p. p_round p = q) (participants s) \<and>
     filter (\<lambda>a. a_round a = q) (artifacts s') = filter (\<lambda>a. a_round a = q) (artifacts s) \<and>
     filter (\<lambda>i. answer_round i = q \<and> i_round i \<notin> gone) (idempotency s')
       = filter (\<lambda>i. answer_round i = q \<and> i_round i \<notin> gone) (idempotency s) \<and>
     filter (\<lambda>e. e_round e = Some q) (audit_events s') = filter (\<lambda>e. e_round e = Some q) (audit_events s) \<and>
     filter (\<lambda>p. tp_round p = q) (tree_plans s') = filter (\<lambda>p. tp_round p = q) (tree_plans s) \<and>
     filter (\<lambda>t. t_round t = q) (key_tasks s') = filter (\<lambda>t. t_round t = q) (key_tasks s) \<and>
     filter (\<lambda>d. d_round d = q) (task_dependencies s') = filter (\<lambda>d. d_round d = q) (task_dependencies s) \<and>
     filter (\<lambda>r. tr_round r = q) (task_receipts s') = filter (\<lambda>r. tr_round r = q) (task_receipts s) \<and>
     filter (\<lambda>k. fk_round k = q) (final_keys s') = filter (\<lambda>k. fk_round k = q) (final_keys s) \<and>
     filter (\<lambda>f. fr_round f = q) (final_key_receipts s') = filter (\<lambda>f. fr_round f = q) (final_key_receipts s)"

definition same_jobs :: "string \<Rightarrow> db \<Rightarrow> db \<Rightarrow> bool" where
  "same_jobs q s s' \<longleftrightarrow> filter (\<lambda>j. j_round j = q) (jobs s') = filter (\<lambda>j. j_round j = q) (jobs s)"

definition same_round :: "string set \<Rightarrow> string \<Rightarrow> db \<Rightarrow> db \<Rightarrow> bool" where
  "same_round gone q s s' \<longleftrightarrow> same_tables gone q s s' \<and> same_jobs q s s'"

definition others_same :: "string \<Rightarrow> db \<Rightarrow> db \<Rightarrow> bool" where
  "others_same rid s s' \<longleftrightarrow> (\<forall>q. q \<noteq> rid \<longrightarrow> same_tables {rid} q s s')"

definition other_jobs_same :: "string \<Rightarrow> db \<Rightarrow> db \<Rightarrow> bool" where
  "other_jobs_same rid s s' \<longleftrightarrow> (\<forall>q. q \<noteq> rid \<longrightarrow> same_jobs q s s')"

lemma same_round_gone:
  assumes "same_round gone q s s'" "gone \<subseteq> gone'"
  shows "same_round gone' q s s'"
proof -
  have "filter (\<lambda>i. answer_round i = q \<and> i_round i \<notin> gone') is
      = filter (\<lambda>i. i_round i \<notin> gone') (filter (\<lambda>i. answer_round i = q \<and> i_round i \<notin> gone) is)" for "is"
    using assms(2) by (auto intro!: filter_cong)
  moreover have "filter (\<lambda>i. answer_round i = q \<and> i_round i \<notin> gone) (idempotency s')
      = filter (\<lambda>i. answer_round i = q \<and> i_round i \<notin> gone) (idempotency s)"
    using assms(1) by (simp add: same_round_def same_tables_def)
  ultimately have "filter (\<lambda>i. answer_round i = q \<and> i_round i \<notin> gone') (idempotency s')
      = filter (\<lambda>i. answer_round i = q \<and> i_round i \<notin> gone') (idempotency s)"
    by (simp only:)
  with assms(1) show ?thesis by (simp add: same_round_def same_tables_def)
qed

lemma same_round_trans: "same_round gone q s t \<Longrightarrow> same_round gone q t u \<Longrightarrow> same_round gone q s u"
  by (simp add: same_round_def same_tables_def same_jobs_def)

lemma filter_update_other:
  "(\<And>x. P x \<Longrightarrow> key x = rid) \<Longrightarrow> (\<And>x. key (f x) = key x) \<Longrightarrow> q \<noteq> rid \<Longrightarrow>
   filter (\<lambda>x. key x = q) (update_where P f xs) = filter (\<lambda>x. key x = q) xs"
  by (rule filter_update_where_disjoint) auto

interpretation isolation: statement_contract "others_same rid" "\<lambda>q. q = rid" for rid
proof unfold_locales
  show "guarantees (others_same rid) (claim_ready now token lease_seconds)" for now token lease_seconds
    by (rule claim_ready_guarantees) (auto simp: others_same_def same_tables_def)
  show "others_same rid s t \<Longrightarrow> others_same rid t u \<Longrightarrow> others_same rid s u" for s t u
    by (simp add: others_same_def same_tables_def)
  show "q = rid \<Longrightarrow> guarantees (others_same rid) (transition now q source target actor event detail)"
    for q now source target actor event detail
    by (rule transition_guarantees)
      (auto simp: others_same_def same_tables_def filter_empty_conv intro!: filter_update_other)
qed (auto simp: insert_defs submit_update_def new_job_def job_lawful_def stmt_guarantees_checked stmt_guarantees_always release_tasks_def
    upload_task_def others_same_def same_tables_def intro!: filter_update_other)

text \<open>
  The jobs of other rounds: a method that updates no job leaves them as they are. Those that do find the job
  by its identifier, of which there is one row only.
\<close>

interpretation apart: storing_contract "other_jobs_same rid" "\<lambda>q. q = rid" for rid
proof unfold_locales
  show "other_jobs_same rid s t \<Longrightarrow> other_jobs_same rid t u \<Longrightarrow> other_jobs_same rid s u" for s t u
    by (simp add: other_jobs_same_def same_jobs_def)
  show "q = rid \<Longrightarrow> guarantees (other_jobs_same rid) (transition now q source target actor event detail)"
    for q now source target actor event detail
    by (rule transition_guarantees) (auto simp: other_jobs_same_def same_jobs_def)
qed (auto simp: insert_defs new_job_def stmt_guarantees_checked stmt_guarantees_always release_tasks_def
    other_jobs_same_def same_jobs_def)

lemma update_owned_apart:
  assumes "distinct (map j_id (jobs s))" "j \<in> set (jobs s)" "j_id j = job_id" "j_round j = rid"
    and "\<And>k. j_round (h k) = j_round k"
  shows "other_jobs_same rid s (jobs_update (update_where (\<lambda>k. j_id k = job_id \<and> P k) h) s)"
proof -
  have only: "k = j" if "k \<in> set (jobs s)" "j_id k = job_id" for k
    using distinct_key_unique [OF assms(1) that(1) assms(2)] that(2) assms(3) by simp
  have "filter (\<lambda>k. j_round k = q) (update_where (\<lambda>k. j_id k = job_id \<and> P k) h ks) = filter (\<lambda>k. j_round k = q) ks"
    if "set ks \<subseteq> set (jobs s)" "q \<noteq> rid" for ks q
    using that(1) by (induction ks) (use only assms(4,5) that(2) in \<open>auto simp: update_where_def\<close>)
  then show ?thesis by (simp add: other_jobs_same_def same_jobs_def)
qed

end
