(* ===== verification/Method_Facts.thy ===== *)
theory Method_Facts
  imports Integrity
begin

text \<open>
  What a method that succeeds has found and done: the guards that held and the database that
  it left, as explicit updates of the one it started from.
\<close>

section \<open>Building blocks\<close>

definition event :: "string \<Rightarrow> string \<Rightarrow> string \<Rightarrow> nat option \<Rightarrow> real \<Rightarrow> string option \<Rightarrow> audit_row" where
  "event rid actor ev version now detail = \<lparr>e_round = Some rid, e_actor = actor, e_event = ev,
     e_version = version, e_created = now, e_detail = detail\<rparr>"

lemma audit_always: "audit rid actor ev version now detail = always (logged [event rid actor ev version now detail])"
  by (simp add: audit_def insert_audit_def event_def)

lemma exec_audit [tx_simps]:
  "exec (audit rid actor ev version now detail) k s = k (logged [event rid actor ev version now detail] s)"
  by (simp add: audit_always)

lemma checked_Inr [tx_simps]: "checked ok f s = Inr s' \<longleftrightarrow> ok s \<and> s' = f s"
  by (auto simp: checked_def)

abbreviation remembered :: "string \<Rightarrow> string \<Rightarrow> string \<Rightarrow> string \<Rightarrow> string \<Rightarrow> response \<Rightarrow> real \<Rightarrow> db \<Rightarrow> db" where
  "remembered client rid operation idem_key digest resp now s \<equiv> idempotency_update (\<lambda>is. is @
     [\<lparr>i_client = client, i_round = rid, i_operation = operation, i_key = idem_key,
       i_digest = digest, i_response = resp, i_created = now\<rparr>]) s"

lemma remember_Inr [tx_simps]:
  "remember client rid operation idem_key digest resp now s = Inr s' \<longleftrightarrow>
     prior_response client rid operation idem_key s = None \<and>
     s' = remembered client rid operation idem_key digest resp now s"
  by (auto simp: remember_def insert_idempotency_def checked_def prior_response_def list_ex_iff find_None_iff)

lemma idempotent_Inr:
  "idempotent client rid operation idem_key digest replay body s = (Inr x, s') \<longleftrightarrow>
     (case prior_response client rid operation idem_key s of
        Some p \<Rightarrow> i_digest p = digest \<and> replay (i_response p) s = (Inr x, s')
      | None \<Rightarrow> body s = (Inr x, s'))"
  by (auto simp: idempotent_def split: option.split)

lemma throw_neq_Inr [tx_simps]: "throw e s = (Inr x, s') \<longleftrightarrow> False"
  by simp

lemma if_tx [tx_simps]: "(if b then m else n) s = (if b then m s else n s)"
  by simp

section \<open>Round rows under the primary key\<close>

lemma keys_okD:
  assumes "keys_ok s"
  shows "distinct (map round_id (rounds s))"
    "distinct (map (\<lambda>p. (p_round p, p_client p)) (participants s))"
    "distinct (map a_id (artifacts s))" "distinct (map a_path (artifacts s))"
    "distinct (map (\<lambda>i. (i_client i, i_round i, i_operation i, i_key i)) (idempotency s))"
    "distinct (map j_id (jobs s))" "distinct (map j_round (jobs s))"
    "distinct (map tp_round (tree_plans s))"
    "distinct (map (\<lambda>t. (t_round t, task_id t)) (key_tasks s))"
    "distinct (map (\<lambda>d. (d_round d, d_task d, d_dependency d)) (task_dependencies s))"
    "distinct (map (\<lambda>r. (tr_round r, tr_task r)) (task_receipts s))"
    "distinct (map fk_round (final_keys s))"
    "distinct (map (\<lambda>f. (fr_round f, fr_client f)) (final_key_receipts s))"
    "distinct (map (\<lambda>a. (a_round a, a_client a, a_type a)) (filter (\<lambda>a. a_client a \<noteq> None) (artifacts s)))"
  using assms unfolding keys_ok_def by blast+

lemma round_of_unique: "keys_ok s \<Longrightarrow> r \<in> set (rounds s) \<Longrightarrow> round_of (round_id r) s = Some r"
  unfolding round_of_def by (rule distinct_key_find [OF keys_okD(1)])

lemma round_of_iff: "keys_ok s \<Longrightarrow> round_of rid s = Some r \<longleftrightarrow> r \<in> set (rounds s) \<and> round_id r = rid"
  using round_of_unique round_of_id round_of_in by blast

lemma count_round:
  assumes "distinct (map round_id (rounds s))"
  shows "count_where (\<lambda>r. round_id r = rid \<and> status r = source) (rounds s)
    = (case round_of rid s of Some r \<Rightarrow> if status r = source then 1 else 0 | None \<Rightarrow> 0)"
proof -
  have "distinct (map round_id rs) \<Longrightarrow> count_where (\<lambda>r. round_id r = rid \<and> status r = source) rs
      = (case List.find (\<lambda>r. round_id r = rid) rs of Some r \<Rightarrow> if status r = source then 1 else 0 | None \<Rightarrow> 0)" for rs
  proof (induction rs)
    case (Cons r rs)
    show ?case
    proof (cases "round_id r = rid")
      case True
      with Cons.prems have "count_where (\<lambda>r. round_id r = rid \<and> status r = source) rs = 0"
        by (auto simp: rev_image_eqI)
      with True show ?thesis by simp
    qed (use Cons in simp)
  qed simp
  then show ?thesis unfolding round_of_def using assms .
qed

abbreviation advanced :: "real \<Rightarrow> string \<Rightarrow> round_state \<Rightarrow> string \<Rightarrow> string option \<Rightarrow> db \<Rightarrow> db" where
  "advanced now rid target ev detail s \<equiv>
     rounds_update (update_where (\<lambda>r. round_id r = rid) (advance now target ev detail)) s"

lemma moved_advanced:
  assumes "distinct (map round_id (rounds s))" "round_of rid s = Some r" "status r = source"
  shows "moved now rid source target ev detail s = advanced now rid target ev detail s"
proof -
  have "round_id q = rid \<and> status q = source \<longleftrightarrow> round_id q = rid" if "q \<in> set (rounds s)" for q
    using distinct_key_find [OF assms(1) that] assms(2,3) by (auto simp: round_of_def)
  then have "update_where (\<lambda>r. round_id r = rid \<and> status r = source) (advance now target ev detail) (rounds s)
      = update_where (\<lambda>r. round_id r = rid) (advance now target ev detail) (rounds s)"
    by (auto simp: update_where_def)
  then show ?thesis by (cases s) simp
qed

text \<open>The guarded transition, completely: when it succeeds and what it leaves.\<close>

lemma transition_ok:
  assumes "distinct (map round_id (rounds s))"
  shows "transition now rid source target actor ev detail s = (Inr u, s') \<longleftrightarrow>
    transition_allowed source target \<and>
    (\<exists>r. round_of rid s = Some r \<and> status r = source \<and>
       s' = logged [event rid actor ev (Some (state_version r + 1)) now detail]
         (advanced now rid target ev detail s))"
proof -
  have "round_of rid (moved now rid source target ev detail s)
      = map_option (\<lambda>r. if round_id r = rid \<and> status r = source then advance now target ev detail r else r)
          (round_of rid s)"
    by (simp add: round_of_def find_update_where)
  then show ?thesis
    using moved_advanced [OF assms] round_of_id [of rid s]
    by (auto simp: transition_def Let_def count_round [OF assms] tx_simps split: option.splits if_splits)
qed

section \<open>Lookups after writes to other tables\<close>

lemma round_of_other [simp]:
  "round_of rid (participants_update f1 s) = round_of rid s"
  "round_of rid (artifacts_update f2 s) = round_of rid s"
  "round_of rid (idempotency_update f3 s) = round_of rid s"
  "round_of rid (jobs_update f4 s) = round_of rid s"
  "round_of rid (audit_events_update f5 s) = round_of rid s"
  "round_of rid (tree_plans_update f6 s) = round_of rid s"
  "round_of rid (key_tasks_update f7 s) = round_of rid s"
  "round_of rid (task_dependencies_update f8 s) = round_of rid s"
  "round_of rid (task_receipts_update f9 s) = round_of rid s"
  "round_of rid (final_keys_update f10 s) = round_of rid s"
  "round_of rid (final_key_receipts_update f11 s) = round_of rid s"
  by (simp_all add: round_of_def)

lemma prior_response_other [simp]:
  "prior_response c rid oper k (participants_update f1 s) = prior_response c rid oper k s"
  "prior_response c rid oper k (artifacts_update f2 s) = prior_response c rid oper k s"
  "prior_response c rid oper k (rounds_update f3 s) = prior_response c rid oper k s"
  "prior_response c rid oper k (jobs_update f4 s) = prior_response c rid oper k s"
  "prior_response c rid oper k (audit_events_update f5 s) = prior_response c rid oper k s"
  "prior_response c rid oper k (key_tasks_update f7 s) = prior_response c rid oper k s"
  "prior_response c rid oper k (task_receipts_update f9 s) = prior_response c rid oper k s"
  "prior_response c rid oper k (final_keys_update f10 s) = prior_response c rid oper k s"
  "prior_response c rid oper k (final_key_receipts_update f11 s) = prior_response c rid oper k s"
  by (simp_all add: prior_response_def)

section \<open>Methods\<close>

lemmas method_simps = transaction_Inr idempotent_Inr tx_simps transition_ok Let_def

lemma record_json_slot_ok:
  assumes "keys_ok s" and "record_json_slot now tnow rid client body idem_key digest s = (Inr (resp, flag), s')"
  obtains (replay) "s' = s" "flag"
  | (recorded) r p s1 where "\<not> flag" "prior_response client rid (slot_name body) idem_key s = None"
      "round_of rid s = Some r" "participant_of rid client s = Some p"
      "status r \<in> slot_states body" "\<not> slot_taken body p" "resp = SlotAccepted digest"
      "s1 = remembered client rid (slot_name body) idem_key digest resp now
         (participants_update (update_where (\<lambda>p. p_round p = rid \<and> p_client p = client) (fill_slot now body)) s)"
      "\<not> (is_public_key body \<and> status r = REGISTRATION_OPEN \<and>
         count_where (\<lambda>p. p_round p = rid \<and> column body p \<noteq> None) (participants s1) = expected_count r)"
      "s' = logged [event rid client (slot_event body) None now None] s1"
  | (barrier) r p s1 where "\<not> flag" "prior_response client rid (slot_name body) idem_key s = None"
      "round_of rid s = Some r" "participant_of rid client s = Some p"
      "status r = REGISTRATION_OPEN" "is_public_key body" "\<not> slot_taken body p" "resp = SlotAccepted digest"
      "s1 = remembered client rid (slot_name body) idem_key digest resp now
         (participants_update (update_where (\<lambda>p. p_round p = rid \<and> p_client p = client) (fill_slot now body)) s)"
      "count_where (\<lambda>p. p_round p = rid \<and> column body p \<noteq> None) (participants s1) = expected_count r"
      "s' = logged [event rid client (slot_event body) None now None]
         (logged [event rid client ''PUBLIC_KEY_BARRIER'' (Some (state_version r + 1)) tnow None]
           (advanced tnow rid KEY_SETUP ''PUBLIC_KEY_BARRIER'' None s1))"
proof (cases "prior_response client rid (slot_name body) idem_key s")
  case (Some i)
  with assms(2) show thesis
    by (intro replay) (auto simp: record_json_slot_def method_simps)
next
  case None
  let ?s1 = "remembered client rid (slot_name body) idem_key digest (SlotAccepted digest) now
    (participants_update (update_where (\<lambda>p. p_round p = rid \<and> p_client p = client) (fill_slot now body)) s)"
  from assms(2) None obtain r p where
    found: "round_of rid s = Some r" "participant_of rid client s = Some p" "status r \<in> slot_states body"
      "\<not> slot_taken body p" "resp = SlotAccepted digest" "\<not> flag"
    unfolding record_json_slot_def
    by (auto simp: method_simps keys_okD(1) [OF assms(1)] split: option.splits if_splits)
  show thesis
  proof (cases "is_public_key body \<and> status r = REGISTRATION_OPEN \<and>
      count_where (\<lambda>p. p_round p = rid \<and> column body p \<noteq> None) (participants ?s1) = expected_count r")
    case True
    then show thesis
      using assms(2) None found keys_okD(1) [OF assms(1)]
      by (intro barrier [of r p ?s1]) (auto simp: record_json_slot_def method_simps)
  next
    case False
    then show thesis
      using assms(2) None found keys_okD(1) [OF assms(1)]
      by (intro recorded [of r p ?s1]) (auto simp: record_json_slot_def method_simps)
  qed
qed

text \<open>Appending a list of rows.\<close>

lemma exec_many_append:
  assumes "\<And>x t t'. f x t = Inr t' \<Longrightarrow> t' = upd (\<lambda>xs. xs @ [x]) t"
    and "\<And>t. upd (\<lambda>xs. xs @ []) t = t"
    and "\<And>g h t. upd g (upd h t) = upd (g \<circ> h) t"
    and "exec_many f xs t = Inr t'"
  shows "t' = upd (\<lambda>ys. ys @ xs) t"
  using assms(4)
proof (induction xs arbitrary: t)
  case Nil
  with assms(2) show ?case by simp
next
  case (Cons x xs)
  then obtain u where "f x t = Inr u" "exec_many f xs u = Inr t'" by (auto split: sum.splits)
  with Cons.IH assms(1) have "t' = upd (\<lambda>ys. ys @ xs) (upd (\<lambda>ys. ys @ [x]) t)" by blast
  then show ?case by (simp add: assms(3) comp_def)
qed

lemma many_participants: "exec_many insert_participant ps s = Inr s' \<Longrightarrow> s' = participants_update (\<lambda>qs. qs @ ps) s"
  by (erule exec_many_append [where upd = participants_update, rotated 3])
    (simp_all add: insert_participant_def checked_Inr comp_def)

lemma many_tasks: "exec_many insert_task ts s = Inr s' \<Longrightarrow> s' = key_tasks_update (\<lambda>us. us @ ts) s"
  by (erule exec_many_append [where upd = key_tasks_update, rotated 3])
    (simp_all add: insert_task_def checked_Inr comp_def)

lemma many_dependencies:
  "exec_many insert_dependency ds s = Inr s' \<Longrightarrow> s' = task_dependencies_update (\<lambda>es. es @ ds) s"
  by (erule exec_many_append [where upd = task_dependencies_update, rotated 3])
    (simp_all add: insert_dependency_def checked_Inr comp_def)

lemma exec_participants_distinct:
  "exec_many insert_participant ps s = Inr s' \<Longrightarrow> distinct (map (\<lambda>p. (p_round p, p_client p)) ps) \<and>
     (\<forall>p\<in>set ps. \<forall>q\<in>set (participants s). \<not> (p_round q = p_round p \<and> p_client q = p_client p))"
proof (induction ps arbitrary: s)
  case (Cons p ps)
  then obtain t where t: "insert_participant p s = Inr t" "exec_many insert_participant ps t = Inr s'"
    by (auto split: sum.splits)
  from t(1) have "t = participants_update (\<lambda>qs. qs @ [p]) s"
      "\<forall>q\<in>set (participants s). \<not> (p_round q = p_round p \<and> p_client q = p_client p)"
    by (auto simp: insert_participant_def checked_Inr list_ex_iff)
  with Cons.IH [OF t(2)] show ?case by auto
qed simp

text \<open>The database after a round was created.\<close>

lemma create_round_ok:
  assumes "create_round now rid federation version schema schema_hash clients manifest_hash ttl retention
     actor idem_key digest s = (Inr (resp, flag), s')"
  obtains (replay) "s' = s" "flag"
  | (created) r where "\<not> flag" "\<not> round_exists rid s" "prior_response actor federation ''create'' idem_key s = None"
      "r = new_round now rid federation version schema schema_hash clients manifest_hash ttl retention"
      "resp = RoundCreated (created_response r)"
      "distinct clients"
      "s' = remembered actor federation ''create'' idem_key digest resp now
        (logged [event rid actor ''ROUND_CREATED'' (Some 1) now None]
          (participants_update (\<lambda>ps. ps @ map (new_participant rid now) clients)
            (rounds_update (\<lambda>rs. rs @ [r]) s)))"
proof (cases "prior_response actor federation ''create'' idem_key s")
  case (Some i)
  with assms show thesis by (intro replay) (auto simp: create_round_def method_simps)
next
  case None
  let ?r = "new_round now rid federation version schema schema_hash clients manifest_hash ttl retention"
  let ?ps = "map (new_participant rid now) clients"
  from assms None obtain t where t: "\<not> round_exists rid s" "\<not> flag" "resp = RoundCreated (created_response ?r)"
      "exec_many insert_participant ?ps (rounds_update (\<lambda>rs. rs @ [?r]) s) = Inr t"
      "s' = remembered actor federation ''create'' idem_key digest resp now
        (logged [event rid actor ''ROUND_CREATED'' (Some 1) now None] t)"
    by (auto simp: create_round_def method_simps insert_round_def new_round_def)
  have "distinct clients" using exec_participants_distinct [OF t(4)] by (simp add: new_participant_def comp_def distinct_map)
  with t None many_participants [OF t(4)] show thesis by (intro created [of ?r]) auto
qed

lemma create_tree_plan_ok:
  assumes "create_tree_plan sha r now s = (Inr u, s')"
  obtains ps plan where "ps = sort_key p_client (participants_of (round_id r) s)"
    "ps \<noteq> []" "\<forall>p\<in>set ps. p_public_key p \<noteq> None"
    "derive_tree_plan sha r (manifest_of ps) = Inr plan"
    "s' = logged [event (round_id r) ''coordinator'' ''TREE_PLAN_COMMITTED'' None now (Some (tree_plan_hash sha plan))]
      (task_dependencies_update (\<lambda>ds. ds @ concat (map (dependency_rows (round_id r)) (plan_tasks plan)))
        (key_tasks_update (\<lambda>ts. ts @ map (task_row (round_id r)) (plan_tasks plan))
          (tree_plans_update (\<lambda>pls. pls @ [\<lparr>tp_round = round_id r, tp_hash = tree_plan_hash sha plan,
             tp_plan = plan, tp_manifest = manifest_of ps, tp_created = now\<rparr>]) s)))"
    "plan_of (round_id r) s = None"
  using assms unfolding create_tree_plan_def
  by (auto simp: method_simps insert_plan_def plan_of_def find_None_iff list_ex_iff
      dest!: many_tasks many_dependencies split: if_splits sum.splits)

lemma key_complete_ok:
  assumes "keys_ok s" and "key_complete sha now tnow rid client commitment idem_key digest s = (res, s')"
  obtains (same) "s' = s"
  | (committed) r p s1 ev where
      "prior_response client rid ''key_complete'' idem_key s = None"
      "round_of rid s = Some r" "participant_of rid client s = Some p"
      "status r \<in> {KEY_SETUP, KEY_AGGREGATION, UPDATE_COLLECTION}"
      "truthy (p_commitment p) \<longrightarrow> p_commitment p = Some commitment"
      "s1 = logged [ev] (remembered client rid ''key_complete'' idem_key digest Accepted now
         (participants_update (update_where (\<lambda>p. p_round p = rid \<and> p_client p = client)
           (commit_context now commitment)) s))"
      "s' = s1"
  | (mismatch) r p s1 ev ev' where
      "prior_response client rid ''key_complete'' idem_key s = None"
      "round_of rid s = Some r" "participant_of rid client s = Some p" "status r = KEY_SETUP"
      "truthy (p_commitment p) \<longrightarrow> p_commitment p = Some commitment"
      "s1 = logged [ev] (remembered client rid ''key_complete'' idem_key digest Accepted now
         (participants_update (update_where (\<lambda>p. p_round p = rid \<and> p_client p = client)
           (commit_context now commitment)) s))"
      "length (remdups (map p_commitment (participants_of rid s1))) \<noteq> 1"
      "s' = logged [ev'] (advanced tnow rid FAILED ''KEY_CONTEXT_MISMATCH'' None s1)"
  | (plain) r p s1 ev ev' where
      "prior_response client rid ''key_complete'' idem_key s = None"
      "round_of rid s = Some r" "participant_of rid client s = Some p" "status r = KEY_SETUP"
      "protocol_version r \<noteq> ''1.1''"
      "truthy (p_commitment p) \<longrightarrow> p_commitment p = Some commitment"
      "s1 = logged [ev] (remembered client rid ''key_complete'' idem_key digest Accepted now
         (participants_update (update_where (\<lambda>p. p_round p = rid \<and> p_client p = client)
           (commit_context now commitment)) s))"
      "list_all truthy (map p_commitment (participants_of rid s1))"
      "length (remdups (map p_commitment (participants_of rid s1))) = 1"
      "s' = logged [ev'] (advanced tnow rid UPDATE_COLLECTION ''KEY_SETUP_BARRIER'' None s1)"
  | (planned) r p s1 s2 ev ev' where
      "prior_response client rid ''key_complete'' idem_key s = None"
      "round_of rid s = Some r" "participant_of rid client s = Some p" "status r = KEY_SETUP"
      "protocol_version r = ''1.1''"
      "truthy (p_commitment p) \<longrightarrow> p_commitment p = Some commitment"
      "s1 = logged [ev] (remembered client rid ''key_complete'' idem_key digest Accepted now
         (participants_update (update_where (\<lambda>p. p_round p = rid \<and> p_client p = client)
           (commit_context now commitment)) s))"
      "list_all truthy (map p_commitment (participants_of rid s1))"
      "length (remdups (map p_commitment (participants_of rid s1))) = 1"
      "create_tree_plan sha r now s1 = (Inr (), s2)"
      "s' = logged [ev'] (advanced tnow rid KEY_AGGREGATION ''KEY_SETUP_BARRIER'' None s2)"
proof -
  let ?s1 = "logged [event rid client ''KEY_CONTEXT_ACCEPTED'' None now None]
    (remembered client rid ''key_complete'' idem_key digest Accepted now
      (participants_update (update_where (\<lambda>p. p_round p = rid \<and> p_client p = client)
        (commit_context now commitment)) s))"
  let ?rows = "map p_commitment (participants_of rid ?s1)"
  note keys = keys_okD(1) [OF assms(1)]
  from assms(2) consider e where "key_commit sha now tnow rid client commitment idem_key digest s = (Inl e, s')"
    | resp flag where "key_commit sha now tnow rid client commitment idem_key digest s = (Inr (resp, flag), s')"
    by (auto simp: key_complete_def call_def split: prod.splits sum.splits if_splits)
  then show thesis
  proof cases
    case 1
    then show thesis unfolding key_commit_def by (intro same transaction_Inl)
  next
    case 2
    show thesis
    proof (cases "prior_response client rid ''key_complete'' idem_key s")
      case (Some i)
      with 2 show thesis by (intro same) (auto simp: key_commit_def method_simps)
    next
      case None
      with 2 obtain r p where found: "round_of rid s = Some r" "participant_of rid client s = Some p"
        "status r \<in> {KEY_SETUP, KEY_AGGREGATION, UPDATE_COLLECTION}"
        "truthy (p_commitment p) \<longrightarrow> p_commitment p = Some commitment"
        unfolding key_commit_def
        by (auto simp: method_simps split: option.splits if_splits)
      note eval = 2 None found keys
      consider "\<not> list_all truthy ?rows" | "list_all truthy ?rows" "length (remdups ?rows) \<noteq> 1"
        | "list_all truthy ?rows" "length (remdups ?rows) = 1" "status r \<noteq> KEY_SETUP"
        | "list_all truthy ?rows" "length (remdups ?rows) = 1" "status r = KEY_SETUP" "protocol_version r \<noteq> ''1.1''"
        | "list_all truthy ?rows" "length (remdups ?rows) = 1" "status r = KEY_SETUP" "protocol_version r = ''1.1''"
        by blast
      then show thesis
      proof cases
        case 1
        with eval show thesis
          by (intro committed [of r p ?s1]) (auto simp: key_commit_def method_simps)
      next
        case 2
        with eval show thesis
          by (intro mismatch [of r p ?s1]) (auto simp: key_commit_def method_simps)
      next
        case 3
        with eval show thesis
          by (intro committed [of r p ?s1]) (auto simp: key_commit_def method_simps)
      next
        case 4
        with eval show thesis
          by (intro plain [of r p ?s1]) (auto simp: key_commit_def method_simps)
      next
        case 5
        with eval obtain s2 where s2: "create_tree_plan sha r now ?s1 = (Inr (), s2)"
          "transition tnow rid KEY_SETUP KEY_AGGREGATION client ''KEY_SETUP_BARRIER'' None s2 = (Inr (), s')"
          unfolding key_commit_def
          by (auto simp: transaction_Inr idempotent_Inr tx_simps Let_def)
        from s2(1) have "rounds s2 = rounds s" by (rule create_tree_plan_ok) simp
        with s2(2) keys obtain ev' where
          "s' = logged [ev'] (advanced tnow rid KEY_AGGREGATION ''KEY_SETUP_BARRIER'' None s2)"
          by (auto simp: transition_ok)
        with 5 found None s2(1) show thesis by (intro planned [of r p ?s1]) auto
      qed
    qed
  qed
qed

lemma record_task_artifact_ok:
  assumes "record_task_artifact now rid client tid stored dg nonce sig idem_key digest s = (Inr (resp, flag), s')"
  obtains (replay) "s' = s" "flag"
  | (recorded) r t ev where "\<not> flag"
      "prior_response client rid (''key_task_artifact:'' @ tid) idem_key s = None"
      "round_of rid s = Some r" "status r = KEY_AGGREGATION"
      "task_of rid tid s = Some t" "sender t = client" "t_state t = READY"
      "resp = ArtifactAccepted (object_id stored) dg (stored_size stored)"
      "s' = logged [ev] (remembered client rid (''key_task_artifact:'' @ tid) idem_key digest resp now
         (key_tasks_update (update_where (\<lambda>t. t_round t = rid \<and> task_id t = tid \<and> t_state t = READY)
            (upload_task stored dg nonce sig))
           (artifacts_update (\<lambda>as. as @ [artifact_for stored rid (Some client) (''key_task:'' @ tid) now]) s)))"
  using assms
  by (cases "prior_response client rid (''key_task_artifact:'' @ tid) idem_key s")
    (auto simp: record_task_artifact_def method_simps insert_artifact_def update_task_artifact_def
      split: option.splits if_splits)

lemma acknowledge_task_ok:
  assumes "acknowledge_task now rid client tid artifact_digest idem_key digest s = (Inr resp, s')"
  obtains (replay) "s' = s" "prior_response client rid (''key_task_ack:'' @ tid) idem_key s \<noteq> None"
  | (acknowledged) r t ev where
      "prior_response client rid (''key_task_ack:'' @ tid) idem_key s = None"
      "round_of rid s = Some r" "status r = KEY_AGGREGATION"
      "task_of rid tid s = Some t" "sender t = client" "t_state t = ARTIFACT_UPLOADED"
      "t_ciphertext_digest t = Some artifact_digest" "resp = Accepted"
      "s' = logged [ev] (remembered client rid (''key_task_ack:'' @ tid) idem_key digest resp now
         (release_tasks rid
           (task_receipts_update (\<lambda>rs. rs @ [\<lparr>tr_round = rid, tr_task = tid, tr_actor = client,
               tr_digest = artifact_digest, tr_created = now\<rparr>])
             (key_tasks_update (update_where (\<lambda>t. t_round t = rid \<and> task_id t = tid)
               (\<lambda>t. t\<lparr>t_state := TASK_COMPLETED, t_completed_at := Some now\<rparr>)) s))))"
  using assms
  by (cases "prior_response client rid (''key_task_ack:'' @ tid) idem_key s")
    (auto simp: acknowledge_task_def method_simps insert_task_receipt_def split: option.splits if_splits)

lemma record_final_key_ok:
  assumes "record_final_key now rid client stored dg nonce sig idem_key digest s = (Inr (resp, flag), s')"
  obtains (replay) "s' = s" "flag"
  | (recorded) r pl ev where "\<not> flag"
      "prior_response client rid ''final_key'' idem_key s = None"
      "round_of rid s = Some r" "status r = KEY_AGGREGATION" "plan_of rid s = Some pl"
      "root_client_id (tp_plan pl) = client" "incomplete_tasks rid s = 0" "final_of rid s = None"
      "resp = ArtifactAccepted (object_id stored) dg (stored_size stored)"
      "s' = logged [ev] (remembered client rid ''final_key'' idem_key digest resp now
         (final_keys_update (\<lambda>ks. ks @ [\<lparr>fk_round = rid, fk_artifact = object_id stored, fk_digest = dg,
              fk_nonce = nonce, fk_signature = sig, fk_sender = client, fk_created = now\<rparr>])
           (artifacts_update (\<lambda>as. as @ [artifact_for stored rid (Some client) ''final_key'' now]) s)))"
  using assms
  by (cases "prior_response client rid ''final_key'' idem_key s")
    (auto simp: record_final_key_def method_simps insert_artifact_def insert_final_key_def
      final_of_def find_None_iff list_ex_iff split: option.splits if_splits)

lemma acknowledge_final_key_ok:
  assumes "keys_ok s"
    and "acknowledge_final_key now tnow rid client artifact_digest idem_key digest s = (Inr resp, s')"
  obtains (replay) "s' = s" "prior_response client rid ''final_key_ack'' idem_key s \<noteq> None"
  | (acknowledged) r k s1 ev where
      "prior_response client rid ''final_key_ack'' idem_key s = None"
      "round_of rid s = Some r" "status r = KEY_AGGREGATION" "final_of rid s = Some k"
      "fk_digest k = artifact_digest"
      "s1 = logged [ev] (remembered client rid ''final_key_ack'' idem_key digest Accepted now
         (final_key_receipts_update (\<lambda>fs. fs @ [\<lparr>fr_round = rid, fr_client = client,
            fr_digest = artifact_digest, fr_created = now\<rparr>]) s))"
      "count_where (\<lambda>f. fr_round f = rid) (final_key_receipts s1) \<noteq> expected_count r"
      "s' = s1"
  | (barrier) r k s1 ev ev' where
      "prior_response client rid ''final_key_ack'' idem_key s = None"
      "round_of rid s = Some r" "status r = KEY_AGGREGATION" "final_of rid s = Some k"
      "fk_digest k = artifact_digest"
      "s1 = logged [ev] (remembered client rid ''final_key_ack'' idem_key digest Accepted now
         (final_key_receipts_update (\<lambda>fs. fs @ [\<lparr>fr_round = rid, fr_client = client,
            fr_digest = artifact_digest, fr_created = now\<rparr>]) s))"
      "count_where (\<lambda>f. fr_round f = rid) (final_key_receipts s1) = expected_count r"
      "s' = logged [ev'] (advanced tnow rid UPDATE_COLLECTION ''FINAL_KEY_BARRIER'' None s1)"
proof (cases "prior_response client rid ''final_key_ack'' idem_key s")
  case (Some i)
  with assms(2) show thesis by (intro replay) (auto simp: acknowledge_final_key_def method_simps)
next
  case None
  let ?s1 = "logged [event rid client ''FINAL_KEY_ACKNOWLEDGED'' None now None]
    (remembered client rid ''final_key_ack'' idem_key digest Accepted now
      (final_key_receipts_update (\<lambda>fs. fs @ [\<lparr>fr_round = rid, fr_client = client,
        fr_digest = artifact_digest, fr_created = now\<rparr>]) s))"
  note keys = keys_okD(1) [OF assms(1)]
  from assms(2) None obtain r k where found: "round_of rid s = Some r" "status r = KEY_AGGREGATION"
      "final_of rid s = Some k" "fk_digest k = artifact_digest"
    by (auto simp: acknowledge_final_key_def method_simps split: option.splits if_splits)
  show thesis
  proof (cases "count_where (\<lambda>f. fr_round f = rid) (final_key_receipts ?s1) = expected_count r")
    case True
    with assms(2) None found keys show thesis
      by (intro barrier [of r k ?s1])
        (auto simp: acknowledge_final_key_def method_simps insert_final_receipt_def)
  next
    case False
    with assms(2) None found keys show thesis
      by (intro acknowledged [of r k ?s1])
        (auto simp: acknowledge_final_key_def method_simps insert_final_receipt_def)
  qed
qed

lemma record_update_ok:
  assumes "keys_ok s"
    and "record_update now tnow job_id rid client stored tag idem_key digest s = (Inr (resp, flag), s')"
  obtains (replay) "s' = s" "flag"
  | (again) r p a where "flag" "prior_response client rid ''update'' idem_key s = None"
      "round_of rid s = Some r" "status r \<in> {UPDATE_COLLECTION, AGGREGATING}"
      "participant_of rid client s = Some p" "truthy (p_update_digest p)"
      "p_update_digest p = Some (stored_digest stored)" "p_integrity_tag p = Some tag"
      "resp = ArtifactAccepted (a_id a) (a_digest a) (a_size a)"
      "a \<in> set (artifacts s)" "a_round a = rid" "a_client a = Some client" "a_type a = ''update''"
      "s' = remembered client rid ''update'' idem_key digest resp now s"
  | (recorded) r p s1 ev where "\<not> flag" "prior_response client rid ''update'' idem_key s = None"
      "round_of rid s = Some r" "status r \<in> {UPDATE_COLLECTION, AGGREGATING}"
      "participant_of rid client s = Some p" "\<not> truthy (p_update_digest p)" "resp = stored_response stored"
      "s1 = logged [ev] (remembered client rid ''update'' idem_key digest resp now
         (participants_update (update_where (\<lambda>p. p_round p = rid \<and> p_client p = client)
            (submit_update now stored tag))
           (artifacts_update (\<lambda>as. as @ [artifact_for stored rid (Some client) ''update'' now]) s)))"
      "status r = UPDATE_COLLECTION \<Longrightarrow>
         count_where (\<lambda>p. p_round p = rid \<and> p_update_artifact p \<noteq> None) (participants s1) \<noteq> expected_count r"
      "s' = s1"
  | (barrier) r p s1 ev ev' where "\<not> flag" "prior_response client rid ''update'' idem_key s = None"
      "round_of rid s = Some r" "status r = UPDATE_COLLECTION"
      "participant_of rid client s = Some p" "\<not> truthy (p_update_digest p)" "resp = stored_response stored"
      "s1 = logged [ev] (remembered client rid ''update'' idem_key digest resp now
         (participants_update (update_where (\<lambda>p. p_round p = rid \<and> p_client p = client)
            (submit_update now stored tag))
           (artifacts_update (\<lambda>as. as @ [artifact_for stored rid (Some client) ''update'' now]) s)))"
      "count_where (\<lambda>p. p_round p = rid \<and> p_update_artifact p \<noteq> None) (participants s1) = expected_count r"
      "s' = jobs_update (\<lambda>js. js @ [new_job job_id rid])
         (logged [ev'] (advanced tnow rid AGGREGATING ''UPDATE_BARRIER'' None s1))"
proof (cases "prior_response client rid ''update'' idem_key s")
  case (Some i)
  with assms(2) show thesis by (intro replay) (auto simp: record_update_def method_simps)
next
  case None
  let ?s1 = "logged [event rid client ''UPDATE_ACCEPTED'' None now None]
    (remembered client rid ''update'' idem_key digest (stored_response stored) now
      (participants_update (update_where (\<lambda>p. p_round p = rid \<and> p_client p = client)
          (submit_update now stored tag))
        (artifacts_update (\<lambda>as. as @ [artifact_for stored rid (Some client) ''update'' now]) s)))"
  note keys = keys_okD(1) [OF assms(1)]
  from assms(2) None obtain r p where found: "round_of rid s = Some r"
      "status r \<in> {UPDATE_COLLECTION, AGGREGATING}" "participant_of rid client s = Some p"
    by (auto simp: record_update_def method_simps split: option.splits if_splits)
  show thesis
  proof (cases "truthy (p_update_digest p)")
    case True
    with assms(2) None found obtain a where a: "p_update_digest p = Some (stored_digest stored)"
        "p_integrity_tag p = Some tag" "flag"
        "fetchone (\<lambda>a. a_round a = rid \<and> a_client a = Some client \<and> a_type a = ''update'') (artifacts s) = Some a"
        "resp = ArtifactAccepted (a_id a) (a_digest a) (a_size a)"
        "s' = remembered client rid ''update'' idem_key digest resp now s"
      by (auto simp: record_update_def method_simps split: option.splits if_splits)
    with None found True find_SomeD [OF a(4)] show thesis by (intro again [of r p a]) auto
  next
    case fresh: False
    show thesis
    proof (cases "status r = UPDATE_COLLECTION \<and>
        count_where (\<lambda>p. p_round p = rid \<and> p_update_artifact p \<noteq> None) (participants ?s1) = expected_count r")
      case True
      with assms(2) None found fresh keys show thesis
        by (intro barrier [of r p ?s1])
          (auto simp: record_update_def method_simps insert_artifact_def insert_job_def)
    next
      case False
      with assms(2) None found fresh keys show thesis
        by (intro recorded [of r p ?s1])
          (auto simp: record_update_def method_simps insert_artifact_def split: if_splits)
    qed
  qed
qed

lemma complete_participant_ok:
  assumes "keys_ok s" and "complete_participant now tnow rid client idem_key digest s = (Inr resp, s')"
  obtains (replay) "s' = s"
  | (completed) r s1 ev where "prior_response client rid ''complete'' idem_key s = None"
      "round_of rid s = Some r" "status r \<in> {RESULT_READY, COMPLETED}"
      "s1 = logged [ev] (remembered client rid ''complete'' idem_key digest Accepted now
         (participants_update (update_where (\<lambda>p. p_round p = rid \<and> p_client p = client)
            (\<lambda>p. p\<lparr>p_completed := True, p_state := PARTICIPANT_COMPLETED, p_last_seen := now\<rparr>)) s))"
      "s' = s1"
  | (barrier) r s1 ev ev' where "prior_response client rid ''complete'' idem_key s = None"
      "round_of rid s = Some r" "status r = RESULT_READY"
      "s1 = logged [ev] (remembered client rid ''complete'' idem_key digest Accepted now
         (participants_update (update_where (\<lambda>p. p_round p = rid \<and> p_client p = client)
            (\<lambda>p. p\<lparr>p_completed := True, p_state := PARTICIPANT_COMPLETED, p_last_seen := now\<rparr>)) s))"
      "count_where (\<lambda>p. p_round p = rid \<and> p_completed p) (participants s1) = expected_count r"
      "s' = logged [ev'] (advanced tnow rid COMPLETED ''COMPLETION_BARRIER'' None s1)"
proof (cases "prior_response client rid ''complete'' idem_key s")
  case (Some i)
  with assms(2) show thesis
    by (intro replay) (auto simp: complete_participant_def method_simps split: option.splits if_splits)
next
  case None
  let ?s1 = "logged [event rid client ''PARTICIPANT_COMPLETED'' None now None]
    (remembered client rid ''complete'' idem_key digest Accepted now
      (participants_update (update_where (\<lambda>p. p_round p = rid \<and> p_client p = client)
        (\<lambda>p. p\<lparr>p_completed := True, p_state := PARTICIPANT_COMPLETED, p_last_seen := now\<rparr>)) s))"
  note keys = keys_okD(1) [OF assms(1)]
  from assms(2) None obtain r where found: "round_of rid s = Some r" "status r \<in> {RESULT_READY, COMPLETED}"
    by (auto simp: complete_participant_def method_simps split: option.splits if_splits)
  show thesis
  proof (cases "status r = RESULT_READY \<and>
      count_where (\<lambda>p. p_round p = rid \<and> p_completed p) (participants ?s1) = expected_count r")
    case True
    with assms(2) None found keys show thesis
      by (intro barrier [of r ?s1]) (auto simp: complete_participant_def method_simps)
  next
    case False
    with assms(2) None found keys show thesis
      by (intro completed [of r ?s1]) (auto simp: complete_participant_def method_simps split: if_splits)
  qed
qed

lemma complete_job_ok:
  assumes "keys_ok s" and "complete_job now tnow job_id rid token stored tag s = (Inr u, s')"
  obtains r s1 ev j where "round_of rid s = Some r" "status r = AGGREGATING"
    "j \<in> set (jobs s)" "owned job_id token j" "j_round j = rid"
    "(\<exists>a\<in>set (artifacts s). a_round a = rid \<and> a_type a = ''result'' \<and> a_digest a = stored_digest stored) \<and> s1 = s \<or>
     s1 = artifacts_update (\<lambda>as. as @ [artifact_for stored rid None ''result'' now]) s"
    "s' = jobs_update (update_where (\<lambda>j. j_id j = job_id \<and> j_claim_token j = Some token)
        (\<lambda>j. j\<lparr>j_state := JOB_COMPLETED, j_lease_until := None, j_claim_token := None,
           j_result_tag := Some tag, j_last_error := None\<rparr>))
      (logged [ev] (advanced tnow rid RESULT_READY ''AGGREGATION_COMPLETED'' None s1))"
proof -
  note keys = keys_okD(1) [OF assms(1)]
  let ?find = "fetchone (\<lambda>a. a_round a = rid \<and> a_type a = ''result'') (artifacts s)"
  from assms(2) obtain j where j: "j \<in> set (jobs s)" "owned job_id token j" "j_round j = rid"
    by (auto simp: complete_job_def method_simps list_ex_iff split: if_splits)
  show thesis
  proof (cases ?find)
    case None
    with assms(2) keys j show thesis
      by (auto simp: complete_job_def method_simps insert_artifact_def intro!: that [OF _ _ j]
          split: if_splits option.splits)
  next
    case (Some a)
    from Some assms(2) keys j obtain r ev where "round_of rid s = Some r" "status r = AGGREGATING"
      "a_digest a = stored_digest stored"
      "s' = jobs_update (update_where (\<lambda>j. j_id j = job_id \<and> j_claim_token j = Some token)
          (\<lambda>j. j\<lparr>j_state := JOB_COMPLETED, j_lease_until := None, j_claim_token := None,
             j_result_tag := Some tag, j_last_error := None\<rparr>))
        (logged [ev] (advanced tnow rid RESULT_READY ''AGGREGATION_COMPLETED'' None s))"
      by (auto simp: complete_job_def method_simps split: if_splits option.splits)
    with find_SomeD [OF Some] j show thesis by (intro that [of r j s ev]) auto
  qed
qed

section \<open>Errors leave no trace\<close>

lemma method_errors:
  "create_round now rid fed ver sch sh cl mh ttl rt actor k dg s = (Inl e, s') \<Longrightarrow> s' = s"
  "record_json_slot now tnow rid client body k dg s = (Inl e, s') \<Longrightarrow> s' = s"
  "record_task_artifact now rid client tid stored cd nonce sig k dg s = (Inl e, s') \<Longrightarrow> s' = s"
  "acknowledge_task now rid client tid ad k dg s = (Inl e, s') \<Longrightarrow> s' = s"
  "record_final_key now rid client stored cd nonce sig k dg s = (Inl e, s') \<Longrightarrow> s' = s"
  "acknowledge_final_key now tnow rid client ad k dg s = (Inl e, s') \<Longrightarrow> s' = s"
  "record_update now tnow jid rid client stored tag k dg s = (Inl e, s') \<Longrightarrow> s' = s"
  "complete_job now tnow jid rid token stored tag s = (Inl e, s') \<Longrightarrow> s' = s"
  "fail_job tnow jid rid token detail retryable s = (Inl e, s') \<Longrightarrow> s' = s"
  "complete_participant now tnow rid client k dg s = (Inl e, s') \<Longrightarrow> s' = s"
  "abort tnow now rid actor reason k dg s = (Inl e, s') \<Longrightarrow> s' = s"
  "fail_round tnow rid actor code detail s = (Inl e, s') \<Longrightarrow> s' = s"
  "expire_rounds clock nw etnow s = (Inl e, s') \<Longrightarrow> s' = s"
  "purge_round now rid s = (Inl e, s') \<Longrightarrow> s' = s"
  "claim_job now etnow token lease s = (Inl e, s') \<Longrightarrow> s' = s"
  "renew_job now jid token lease s = (Inl e, s') \<Longrightarrow> s' = s"
  by (auto simp: create_round_def record_json_slot_def record_task_artifact_def acknowledge_task_def
      record_final_key_def acknowledge_final_key_def record_update_def complete_job_def fail_job_def
      complete_participant_def abort_def fail_round_def expire_rounds_def purge_round_def claim_job_def
      renew_job_def Let_def dest: transaction_Inl split: if_splits)

end
