(* ===== verification/Barriers.thy ===== *)
theory Barriers
  imports Method_Facts
begin

text \<open>
  The barriers of a round: what must hold of all participants before the round may be in a
  state. Failing methods only move rounds into failure states; every other method keeps the
  barrier conditions, and the ones that advance a round have counted the participants.
\<close>

section \<open>Failing methods\<close>

abbreviation failures :: "round_state set" where
  "failures \<equiv> {FAILED, ABORTED, EXPIRED}"

definition only_fails :: "db \<Rightarrow> db \<Rightarrow> bool" where
  "only_fails s s' \<longleftrightarrow>
     participants s' = participants s \<and> artifacts s' = artifacts s \<and> tree_plans s' = tree_plans s \<and>
     key_tasks s' = key_tasks s \<and> task_dependencies s' = task_dependencies s \<and>
     task_receipts s' = task_receipts s \<and> final_keys s' = final_keys s \<and>
     final_key_receipts s' = final_key_receipts s \<and>
     (\<forall>r'\<in>set (rounds s'). \<exists>r\<in>set (rounds s).
        r' = r \<or> frozen r' = frozen r \<and> round_id r' = round_id r \<and> status r' \<in> failures)"

interpretation failing: effect_contract only_fails
  by unfold_locales (auto simp: only_fails_def, metis+)

lemma fails_transaction: "guarantees only_fails body \<Longrightarrow> guarantees only_fails (transaction body)"
  by (auto simp: guarantees_def transaction_def failing.refl split: prod.split sum.split) (metis snd_conv)

lemma fails_idempotent:
  "(\<And>r. guarantees only_fails (replay r)) \<Longrightarrow> guarantees only_fails body \<Longrightarrow>
   guarantees only_fails (idempotent client rid operation idem_key digest replay body)"
  unfolding idempotent_def by (intro failing.flow)

lemma fails_jobs: "stmt_guarantees only_fails (always (jobs_update f))"
  by (auto simp: stmt_guarantees_always only_fails_def)

lemma fails_audit: "stmt_guarantees only_fails (audit rid actor ev version now detail)"
  by (auto simp: audit_always stmt_guarantees_always only_fails_def)

lemma fails_remember: "stmt_guarantees only_fails (remember client rid operation idem_key digest resp now)"
  by (auto simp: remember_def insert_idempotency_def stmt_guarantees_checked only_fails_def)

lemma fails_transition:
  "target \<in> failures \<Longrightarrow> guarantees only_fails (transition now rid source target actor ev detail)"
  by (rule transition_guarantees)
    (auto simp: failing.refl only_fails_def set_update_where advance_frozen split: if_splits)

lemmas fail_rules = failing.flow fails_transaction fails_idempotent fails_jobs fails_audit
  fails_remember fails_transition

lemma fail_round_fails: "guarantees only_fails (fail_round tnow rid actor code detail)"
  unfolding fail_round_def by (intro fail_rules) auto

lemma abort_fails: "guarantees only_fails (abort tnow now rid actor reason idem_key digest)"
  unfolding abort_def by (intro fail_rules) auto

lemma get_round_fails: "guarantees only_fails (get_round expire now now' tnow rid)"
  unfolding get_round_def reconcile_def Let_def by (intro fail_rules) auto

lemma expire_loop_fails: "guarantees only_fails (expire_loop tnow rows n)"
  by (induction tnow rows n rule: expire_loop.induct) (auto simp del: ret_apply intro!: fail_rules)

lemma expire_rounds_fails: "guarantees only_fails (expire_rounds clock now tnow)"
  unfolding expire_rounds_def Let_def by (intro fail_rules expire_loop_fails)

lemma release_stale_fails: "guarantees only_fails (release_stale now tnow expired)"
  by (induction expired) (auto simp: Let_def simp del: ret_apply intro!: fail_rules)

lemma claim_job_fails: "guarantees only_fails (claim_job now tnow token lease_seconds)"
  unfolding claim_job_def claim_ready_def Let_def by (intro fail_rules release_stale_fails)

lemma renew_job_fails: "guarantees only_fails (renew_job now job_id token lease_seconds)"
  unfolding renew_job_def by (intro fail_rules)

lemma fail_job_fails: "guarantees only_fails (fail_job tnow job_id rid token detail retryable)"
  unfolding fail_job_def Let_def by (intro fail_rules) auto

section \<open>The barrier conditions\<close>

text \<open>The round has come at least as far as \<open>goal\<close> and did not fail.\<close>

definition reached :: "round_state \<Rightarrow> round_state \<Rightarrow> bool" where
  "reached goal st \<longleftrightarrow> stage_rank goal \<le> stage_rank st \<and> st \<notin> failures"

lemma reached_failure [simp]: "st \<in> failures \<Longrightarrow> \<not> reached goal st"
  by (simp add: reached_def)

definition receipts_of :: "string \<Rightarrow> db \<Rightarrow> final_receipt_row list" where
  "receipts_of rid s = filter (\<lambda>f. fr_round f = rid) (final_key_receipts s)"

definition barriers :: "db \<Rightarrow> round_row \<Rightarrow> bool" where
  "barriers s r \<longleftrightarrow>
     (let ps = participants_of (round_id r) s; fs = receipts_of (round_id r) s in
      map p_client ps = participants_json r \<and> expected_count r = length (participants_json r) \<and>
      list_all (\<lambda>f. fr_client f \<in> set (participants_json r)) fs \<and>
      (reached KEY_SETUP (status r) \<longrightarrow> list_all (\<lambda>p. p_public_key p \<noteq> None) ps) \<and>
      (reached KEY_AGGREGATION (status r) \<longrightarrow>
         (\<exists>c. c \<noteq> '''' \<and> list_all (\<lambda>p. p_commitment p = Some c) ps)) \<and>
      (status r = KEY_AGGREGATION \<longrightarrow> protocol_version r = ''1.1'') \<and>
      (reached UPDATE_COLLECTION (status r) \<and> protocol_version r = ''1.1'' \<longrightarrow>
         list_all (\<lambda>p. list_ex (\<lambda>f. fr_client f = p_client p) fs) ps) \<and>
      (reached AGGREGATING (status r) \<longrightarrow> list_all (\<lambda>p. p_update_artifact p \<noteq> None) ps) \<and>
      (reached COMPLETED (status r) \<longrightarrow> list_all p_completed ps))"

definition barriers_ok :: "db \<Rightarrow> bool" where
  "barriers_ok s \<longleftrightarrow> (\<forall>r\<in>set (rounds s). barriers s r)"

lemma barriers_fail:
  "barriers s r \<Longrightarrow> frozen r' = frozen r \<Longrightarrow> round_id r' = round_id r \<Longrightarrow> status r' \<in> failures \<Longrightarrow> barriers s r'"
  by (auto simp: barriers_def Let_def frozen_def)

lemma barriers_tables:
  "participants_of (round_id r) s' = participants_of (round_id r) s \<Longrightarrow>
   receipts_of (round_id r) s' = receipts_of (round_id r) s \<Longrightarrow> barriers s' r = barriers s r"
  by (simp add: barriers_def)

lemma barriers_only_fails:
  assumes "only_fails s s'" "barriers_ok s"
  shows "barriers_ok s'"
  unfolding barriers_ok_def
proof
  fix r' assume "r' \<in> set (rounds s')"
  with assms obtain r where r: "r \<in> set (rounds s)" "barriers s r"
    "r' = r \<or> frozen r' = frozen r \<and> round_id r' = round_id r \<and> status r' \<in> failures"
    unfolding only_fails_def barriers_ok_def by blast
  then have "barriers s r'" using barriers_fail by blast
  moreover have "barriers s' r' = barriers s r'"
    using assms(1) by (intro barriers_tables) (auto simp: only_fails_def participants_of_def receipts_of_def)
  ultimately show "barriers s' r'" by simp
qed

section \<open>Methods that advance a round\<close>

lemma barriers_step:
  assumes "barriers_ok s" "keys_ok s'" "others_same rid s s'"
    and "\<And>r'. round_of rid s' = Some r' \<Longrightarrow> barriers s' r'"
  shows "barriers_ok s'"
  unfolding barriers_ok_def
proof
  fix r' assume r': "r' \<in> set (rounds s')"
  show "barriers s' r'"
  proof (cases "round_id r' = rid")
    case True
    with assms(2,4) r' round_of_iff show ?thesis by blast
  next
    case False
    with assms(3) have same: "same_tables {rid} (round_id r') s s'" by (simp add: others_same_def)
    then have "filter (\<lambda>r. round_id r = round_id r') (rounds s') = filter (\<lambda>r. round_id r = round_id r') (rounds s)"
      by (simp add: same_tables_def)
    moreover have "r' \<in> set (filter (\<lambda>r. round_id r = round_id r') (rounds s'))" using r' by simp
    ultimately have "r' \<in> set (rounds s)" by simp
    then have "barriers s r'" using assms(1) by (simp add: barriers_ok_def)
    moreover have "barriers s' r' = barriers s r'"
      using same by (intro barriers_tables) (simp_all add: same_tables_def participants_of_def receipts_of_def)
    ultimately show ?thesis by simp
  qed
qed

lemma round_of_advanced [simp]:
  "round_of q (advanced now rid target ev detail s)
    = map_option (\<lambda>r. if round_id r = rid then advance now target ev detail r else r) (round_of q s)"
  by (simp add: round_of_def find_update_where)

lemma views_other [simp]:
  "participants_of q (idempotency_update f1 s) = participants_of q s"
  "participants_of q (audit_events_update f2 s) = participants_of q s"
  "participants_of q (rounds_update f3 s) = participants_of q s"
  "participants_of q (artifacts_update f4 s) = participants_of q s"
  "participants_of q (jobs_update f5 s) = participants_of q s"
  "participants_of q (tree_plans_update f6 s) = participants_of q s"
  "participants_of q (key_tasks_update f7 s) = participants_of q s"
  "participants_of q (task_dependencies_update f8 s) = participants_of q s"
  "participants_of q (task_receipts_update f9 s) = participants_of q s"
  "participants_of q (final_keys_update f10 s) = participants_of q s"
  "participants_of q (final_key_receipts_update f11 s) = participants_of q s"
  "receipts_of q (idempotency_update f1 s) = receipts_of q s"
  "receipts_of q (audit_events_update f2 s) = receipts_of q s"
  "receipts_of q (rounds_update f3 s) = receipts_of q s"
  "receipts_of q (artifacts_update f4 s) = receipts_of q s"
  "receipts_of q (jobs_update f5 s) = receipts_of q s"
  "receipts_of q (tree_plans_update f6 s) = receipts_of q s"
  "receipts_of q (key_tasks_update f7 s) = receipts_of q s"
  "receipts_of q (task_dependencies_update f8 s) = receipts_of q s"
  "receipts_of q (task_receipts_update f9 s) = receipts_of q s"
  "receipts_of q (final_keys_update f10 s) = receipts_of q s"
  "receipts_of q (participants_update f12 s) = receipts_of q s"
  by (simp_all add: participants_of_def receipts_of_def)

lemma participants_of_update:
  "(\<And>p. p_round (f p) = p_round p) \<Longrightarrow>
   participants_of rid (participants_update (update_where P f) s) = update_where P f (participants_of rid s)"
  by (simp add: participants_of_def filter_update_where)

lemma receipts_of_insert:
  "receipts_of rid (final_key_receipts_update (\<lambda>fs. fs @ [f]) s)
    = (if fr_round f = rid then receipts_of rid s @ [f] else receipts_of rid s)"
  by (simp add: receipts_of_def)

text \<open>A count that equals the number of participants leaves nobody out.\<close>

lemma count_all_participants:
  assumes "count_where (\<lambda>p. p_round p = rid \<and> Q p) (participants s) = length (participants_of rid s)"
  shows "list_all Q (participants_of rid s)"
proof -
  have "count_where (\<lambda>p. p_round p = rid \<and> Q p) (participants s) = count_where (\<lambda>p. p_round p = rid) (participants s)"
    using assms by (simp add: participants_of_def count_where_def)
  then show ?thesis
    unfolding count_where_all by (simp add: participants_of_def list_all_iff)
qed

lemma barriersD:
  assumes "barriers s r"
  shows "map p_client (participants_of (round_id r) s) = participants_json r"
    "expected_count r = length (participants_of (round_id r) s)"
    "\<forall>f\<in>set (receipts_of (round_id r) s). fr_client f \<in> set (participants_json r)"
    "reached KEY_SETUP (status r) \<Longrightarrow> \<forall>p\<in>set (participants_of (round_id r) s). p_public_key p \<noteq> None"
    "reached KEY_AGGREGATION (status r) \<Longrightarrow>
       \<exists>c. c \<noteq> '''' \<and> (\<forall>p\<in>set (participants_of (round_id r) s). p_commitment p = Some c)"
    "status r = KEY_AGGREGATION \<Longrightarrow> protocol_version r = ''1.1''"
    "reached UPDATE_COLLECTION (status r) \<Longrightarrow> protocol_version r = ''1.1'' \<Longrightarrow>
       \<forall>p\<in>set (participants_of (round_id r) s). \<exists>f\<in>set (receipts_of (round_id r) s). fr_client f = p_client p"
    "reached AGGREGATING (status r) \<Longrightarrow> \<forall>p\<in>set (participants_of (round_id r) s). p_update_artifact p \<noteq> None"
    "reached COMPLETED (status r) \<Longrightarrow> \<forall>p\<in>set (participants_of (round_id r) s). p_completed p"
proof -
  from assms have eq: "map p_client (participants_of (round_id r) s) = participants_json r"
    "expected_count r = length (participants_json r)"
    by (auto simp: barriers_def Let_def)
  then show "map p_client (participants_of (round_id r) s) = participants_json r"
    "expected_count r = length (participants_of (round_id r) s)" by (auto simp flip: eq(1))
qed (use assms in \<open>auto simp: barriers_def Let_def list_all_iff list_ex_iff\<close>)

text \<open>Rewriting participants keeps the conditions when nothing that counted is taken back.\<close>

lemma barriers_participants:
  assumes b: "barriers s r"
    and ps: "participants_of (round_id r) s' = update_where P f (participants_of (round_id r) s)"
    and fs: "receipts_of (round_id r) s' = receipts_of (round_id r) s"
    and f: "\<And>p. p \<in> set (participants_of (round_id r) s) \<Longrightarrow> P p \<Longrightarrow> p_client (f p) = p_client p \<and>
      (p_public_key p \<noteq> None \<longrightarrow> p_public_key (f p) \<noteq> None) \<and>
      (reached KEY_AGGREGATION (status r) \<longrightarrow> p_commitment (f p) = p_commitment p) \<and>
      (p_update_artifact p \<noteq> None \<longrightarrow> p_update_artifact (f p) \<noteq> None) \<and>
      (p_completed p \<longrightarrow> p_completed (f p))"
  shows "barriers s' r"
proof -
  let ?ps = "participants_of (round_id r) s"
  have clients: "map p_client (update_where P f ?ps) = map p_client ?ps"
    using f by (auto simp: update_where_def)
  have all: "list_all Q (update_where P f ?ps)"
    if "list_all Q ?ps" "\<And>p. p \<in> set ?ps \<Longrightarrow> P p \<Longrightarrow> Q p \<Longrightarrow> Q (f p)" for Q
    using that by (auto simp: list_all_iff set_update_where)
  from b have r: "map p_client ?ps = participants_json r" "expected_count r = length (participants_json r)"
    "list_all (\<lambda>g. fr_client g \<in> set (participants_json r)) (receipts_of (round_id r) s)"
    "status r = KEY_AGGREGATION \<longrightarrow> protocol_version r = ''1.1''"
    by (simp_all add: barriers_def Let_def)
  have 1: "reached KEY_SETUP (status r) \<longrightarrow> list_all (\<lambda>p. p_public_key p \<noteq> None) (update_where P f ?ps)"
    using b f by (auto simp: barriers_def Let_def intro!: all)
  have 2: "reached KEY_AGGREGATION (status r) \<longrightarrow>
      (\<exists>c. c \<noteq> '''' \<and> list_all (\<lambda>p. p_commitment p = Some c) (update_where P f ?ps))"
  proof
    assume reach: "reached KEY_AGGREGATION (status r)"
    with b obtain c where "c \<noteq> ''''" "list_all (\<lambda>p. p_commitment p = Some c) ?ps"
      by (auto simp: barriers_def Let_def)
    with f reach show "\<exists>c. c \<noteq> '''' \<and> list_all (\<lambda>p. p_commitment p = Some c) (update_where P f ?ps)"
      by (intro exI [of _ c] conjI all) auto
  qed
  have 3: "reached UPDATE_COLLECTION (status r) \<and> protocol_version r = ''1.1'' \<longrightarrow>
      list_all (\<lambda>p. list_ex (\<lambda>g. fr_client g = p_client p) (receipts_of (round_id r) s)) (update_where P f ?ps)"
    using b f by (auto simp: barriers_def Let_def intro!: all)
  have 4: "reached AGGREGATING (status r) \<longrightarrow> list_all (\<lambda>p. p_update_artifact p \<noteq> None) (update_where P f ?ps)"
    using b f by (auto simp: barriers_def Let_def intro!: all)
  have 5: "reached COMPLETED (status r) \<longrightarrow> list_all p_completed (update_where P f ?ps)"
    using b f by (auto simp: barriers_def Let_def intro!: all)
  show ?thesis unfolding barriers_def Let_def ps fs clients using r 1 2 3 4 5 by blast
qed

lemma advance_context [simp]:
  "protocol_version (advance now target ev detail r) = protocol_version r"
  "participants_json (advance now target ev detail r) = participants_json r"
  "expected_count (advance now target ev detail r) = expected_count r"
  by (simp_all add: advance_def)

lemma reached_trans: "transition_allowed st target \<Longrightarrow> reached goal target \<Longrightarrow> \<not> reached goal st \<Longrightarrow>
   stage_rank st < stage_rank goal \<and> stage_rank goal \<le> stage_rank target"
  by (cases st) (auto simp: reached_def transition_allowed_def)

text \<open>Advancing needs the condition of the barrier that is passed.\<close>

lemma barriers_advance:
  assumes b: "barriers s r" and allowed: "transition_allowed (status r) target"
    and "target = KEY_SETUP \<Longrightarrow> list_all (\<lambda>p. p_public_key p \<noteq> None) (participants_of (round_id r) s)"
    and "target = KEY_AGGREGATION \<or> target = UPDATE_COLLECTION \<and> status r = KEY_SETUP \<Longrightarrow>
      \<exists>c. c \<noteq> '''' \<and> list_all (\<lambda>p. p_commitment p = Some c) (participants_of (round_id r) s)"
    and "target = KEY_AGGREGATION \<Longrightarrow> protocol_version r = ''1.1''"
    and "target = UPDATE_COLLECTION \<Longrightarrow> protocol_version r = ''1.1'' \<Longrightarrow>
      list_all (\<lambda>p. list_ex (\<lambda>f. fr_client f = p_client p) (receipts_of (round_id r) s)) (participants_of (round_id r) s)"
    and "target = AGGREGATING \<Longrightarrow> list_all (\<lambda>p. p_update_artifact p \<noteq> None) (participants_of (round_id r) s)"
    and "target = COMPLETED \<Longrightarrow> list_all p_completed (participants_of (round_id r) s)"
  shows "barriers s (advance now target ev detail r)"
proof (cases "target \<in> failures")
  case True
  with b show ?thesis by (auto intro: barriers_fail simp: advance_frozen)
next
  case False
  with allowed have target: "target \<in> ALLOWED_TRANSITIONS (status r)"
    by (auto simp: transition_allowed_def)
  with assms False show ?thesis
    by (cases "status r"; cases target) (simp_all add: barriers_def Let_def reached_def)
qed

section \<open>Every method keeps the barriers\<close>

lemma barriers_of: "barriers_ok s \<Longrightarrow> round_of rid s = Some r \<Longrightarrow> barriers s r \<and> round_id r = rid"
  using round_of_in round_of_id unfolding barriers_ok_def by blast

lemma fill_slot_keeps:
  "p_client (fill_slot now body p) = p_client p" "p_round (fill_slot now body p) = p_round p"
  "p_commitment (fill_slot now body p) = p_commitment p"
  "p_update_artifact (fill_slot now body p) = p_update_artifact p"
  "p_completed (fill_slot now body p) = p_completed p"
  "p_public_key p \<noteq> None \<Longrightarrow> p_public_key (fill_slot now body p) \<noteq> None"
  by (cases body; simp)+

lemma record_json_slot_barriers:
  assumes "keys_ok s" "barriers_ok s"
    and "record_json_slot now tnow rid client body idem_key digest s = (res, s')"
  shows "barriers_ok s'"
proof (cases res)
  case (Inl e)
  with assms method_errors(2) show ?thesis by metis
next
  case (Inr x)
  then obtain resp flag where run: "record_json_slot now tnow rid client body idem_key digest s = (Inr (resp, flag), s')"
    using assms(3) by (cases x) auto
  have keys: "keys_ok s'" using keys.g_record_json_slot assms by (blast dest: guaranteesD)
  have others: "others_same rid s s'" using isolation.g_record_json_slot assms(3) by (blast dest: guaranteesD)
  have filled: "barriers s1 r" if "barriers s r" "round_id r = rid"
    "participants_of rid s1 = update_where (\<lambda>p. p_round p = rid \<and> p_client p = client) (fill_slot now body) (participants_of rid s)"
    "receipts_of rid s1 = receipts_of rid s" for r s1
  proof (rule barriers_participants [OF that(1)])
    show "participants_of (round_id r) s1 = update_where (\<lambda>p. p_round p = rid \<and> p_client p = client)
        (fill_slot now body) (participants_of (round_id r) s)"
      using that(2,3) by simp
    show "receipts_of (round_id r) s1 = receipts_of (round_id r) s" using that(2,4) by simp
  qed (simp add: fill_slot_keeps del: not_None_eq)
  from assms(1) run show ?thesis
  proof (cases rule: record_json_slot_ok)
    case replay
    with assms show ?thesis by simp
  next
    case (recorded r p s1)
    note b = barriers_of [OF assms(2) recorded(3)]
    show ?thesis
    proof (rule barriers_step [OF assms(2) keys others])
      fix r' assume "round_of rid s' = Some r'"
      with recorded have "r' = r" by simp
      with filled [of r s'] b recorded(8,10) show "barriers s' r'"
        by (simp add: participants_of_update fill_slot_keeps)
    qed
  next
    case (barrier r p s1)
    note b = barriers_of [OF assms(2) barrier(3)]
    have "barriers s1 r"
      using filled [of r s1] b barrier(9) by (simp add: participants_of_update fill_slot_keeps)
    moreover have "list_all (\<lambda>p. p_public_key p \<noteq> None) (participants_of rid s1)"
    proof (rule count_all_participants)
      have "column body q \<noteq> None \<longleftrightarrow> p_public_key q \<noteq> None" for q
        using barrier(6) by (cases body) (auto simp: is_public_key_def)
      with barrier(10) have "count_where (\<lambda>p. p_round p = rid \<and> p_public_key p \<noteq> None) (participants s1) = expected_count r"
        by simp
      with barriersD(2) [OF \<open>barriers s1 r\<close>] b
      show "count_where (\<lambda>p. p_round p = rid \<and> p_public_key p \<noteq> None) (participants s1) = length (participants_of rid s1)"
        by simp
    qed
    ultimately have "barriers s1 (advance tnow KEY_SETUP ''PUBLIC_KEY_BARRIER'' None r)"
      using b barrier(5) by (intro barriers_advance) (auto simp: transition_allowed_def)
    then have final: "barriers s' (advance tnow KEY_SETUP ''PUBLIC_KEY_BARRIER'' None r)"
      by (subst barriers_tables [of _ s' s1]) (simp_all add: barrier(11))
    show ?thesis
    proof (rule barriers_step [OF assms(2) keys others])
      fix r' assume "round_of rid s' = Some r'"
      with barrier b have "r' = advance tnow KEY_SETUP ''PUBLIC_KEY_BARRIER'' None r" by simp
      with final show "barriers s' r'" by simp
    qed
  qed
qed

lemma commit_keeps:
  assumes "barriers s r" "round_id r = rid" "participant_of rid client s = Some p"
    and "status r \<in> {KEY_SETUP, KEY_AGGREGATION, UPDATE_COLLECTION}"
    and "truthy (p_commitment p) \<longrightarrow> p_commitment p = Some commitment" "keys_ok s"
    and ps: "participants_of rid s1 = update_where (\<lambda>p. p_round p = rid \<and> p_client p = client)
       (commit_context now commitment) (participants_of rid s)"
    and fs: "receipts_of rid s1 = receipts_of rid s"
  shows "barriers s1 r"
proof (rule barriers_participants [OF assms(1)])
  show "participants_of (round_id r) s1 = update_where (\<lambda>p. p_round p = rid \<and> p_client p = client)
      (commit_context now commitment) (participants_of (round_id r) s)"
    using ps assms(2) by simp
  show "receipts_of (round_id r) s1 = receipts_of (round_id r) s" using fs assms(2) by simp
  fix q assume q: "q \<in> set (participants_of (round_id r) s)" "p_round q = rid \<and> p_client q = client"
  then have "q \<in> set (participants s)" by (simp add: participants_of_def)
  with q participant_of_keys [OF assms(3)] participant_of_in [OF assms(3)] keys_okD(2) [OF assms(6)]
  have [simp]: "q = p" by (intro distinct_key_unique [of "\<lambda>p. (p_round p, p_client p)"]) auto
  have "p_commitment p = Some commitment" if reach: "reached KEY_AGGREGATION (status r)"
  proof -
    from barriersD(5) [OF assms(1) reach] q obtain c where "c \<noteq> ''''" "p_commitment p = Some c" by auto
    with assms(5) show ?thesis by (auto simp: truthy_def)
  qed
  then show "p_client (commit_context now commitment q) = p_client q \<and>
      (p_public_key q \<noteq> None \<longrightarrow> p_public_key (commit_context now commitment q) \<noteq> None) \<and>
      (reached KEY_AGGREGATION (status r) \<longrightarrow>
        p_commitment (commit_context now commitment q) = p_commitment q) \<and>
      (p_update_artifact q \<noteq> None \<longrightarrow> p_update_artifact (commit_context now commitment q) \<noteq> None) \<and>
      (p_completed q \<longrightarrow> p_completed (commit_context now commitment q))"
    by (simp add: commit_context_def)
qed

text \<open>All present and all equal commitments are one non-empty commitment.\<close>

lemma one_commitment:
  assumes "list_all truthy (map p_commitment ps)" "length (remdups (map p_commitment ps)) = 1"
  shows "\<exists>c. c \<noteq> '''' \<and> list_all (\<lambda>p. p_commitment p = Some c) ps"
proof -
  from assms(2) obtain v where "remdups (map p_commitment ps) = [v]"
    by (auto simp: length_Suc_conv)
  then have "set (map p_commitment ps) = {v}" by (metis set_remdups list.set(1,2))
  then have v: "p_commitment p = v" if "p \<in> set ps" for p using that by auto
  have "truthy v" using assms(1) unfolding list_all_iff \<open>set (map p_commitment ps) = {v}\<close> by simp
  then obtain c where "v = Some c" "c \<noteq> ''''" by (auto simp: truthy_def)
  with v show ?thesis by (auto simp: list_all_iff)
qed

lemma barriers_settled:
  assumes "barriers_ok s" "keys_ok s'" "others_same rid s s'" "barriers s1 r'" "round_id r' = rid"
    and "round_of rid s' = Some r'"
    and "participants_of rid s' = participants_of rid s1" "receipts_of rid s' = receipts_of rid s1"
  shows "barriers_ok s'"
proof (rule barriers_step [OF assms(1-3)])
  fix q assume "round_of rid s' = Some q"
  with assms(6) have "q = r'" by simp
  with barriers_tables [of r' s' s1] assms(4,5,7,8) show "barriers s' q" by simp
qed

lemma create_tree_plan_views:
  assumes "create_tree_plan sha r now s = (Inr u, s')"
  shows "participants_of q s' = participants_of q s" "receipts_of q s' = receipts_of q s"
    "rounds s' = rounds s" "round_of q s' = round_of q s"
proof -
  from assms show views: "participants_of q s' = participants_of q s" "receipts_of q s' = receipts_of q s"
      "rounds s' = rounds s"
    by (auto elim!: create_tree_plan_ok)
  then show "round_of q s' = round_of q s" by (simp add: round_of_def)
qed

lemma key_complete_barriers:
  assumes "keys_ok s" "barriers_ok s"
    and "key_complete sha now tnow rid client commitment idem_key digest s = (res, s')"
  shows "barriers_ok s'"
proof -
  have keys: "keys_ok s'" using keys.g_key_complete assms by (blast dest: guaranteesD)
  have others: "others_same rid s s'" using isolation.g_key_complete assms(3) by (blast dest: guaranteesD)
  note settled = barriers_settled [OF assms(2) keys others]
  have update: "participants_of rid (participants_update (update_where P (commit_context now commitment)) t)
      = update_where P (commit_context now commitment) (participants_of rid t)" for P t
    by (rule participants_of_update) (simp add: commit_context_def)
  from assms(1,3) show ?thesis
  proof (cases rule: key_complete_ok)
    case same
    with assms show ?thesis by simp
  next
    case (committed r p s1 ev)
    note b = barriers_of [OF assms(2) committed(2)]
    have "barriers s1 r"
      by (rule commit_keeps [OF _ _ committed(3,4,5) assms(1)]) (use b committed(6) in \<open>simp_all add: update\<close>)
    with b committed show ?thesis by (intro settled [of s1 r]) simp_all
  next
    case (mismatch r p s1 ev ev')
    note b = barriers_of [OF assms(2) mismatch(2)]
    have "barriers s1 r"
      by (rule commit_keeps [OF _ _ mismatch(3) _ mismatch(5) assms(1)])
        (use b mismatch(4,6) in \<open>simp_all add: update\<close>)
    then have "barriers s1 (advance tnow FAILED ''KEY_CONTEXT_MISMATCH'' None r)"
      using mismatch(4) by (intro barriers_advance) (auto simp: transition_allowed_def)
    with b mismatch show ?thesis by (intro settled [of s1]) simp_all
  next
    case (plain r p s1 ev ev')
    note b = barriers_of [OF assms(2) plain(2)]
    have "barriers s1 r"
      by (rule commit_keeps [OF _ _ plain(3) _ plain(6) assms(1)])
        (use b plain(4,7) in \<open>simp_all add: update\<close>)
    then have "barriers s1 (advance tnow UPDATE_COLLECTION ''KEY_SETUP_BARRIER'' None r)"
      using plain(4,5) one_commitment [OF plain(8,9)] b
      by (intro barriers_advance) (auto simp: transition_allowed_def)
    with b plain show ?thesis by (intro settled [of s1]) simp_all
  next
    case (planned r p s1 s2 ev ev')
    note b = barriers_of [OF assms(2) planned(2)]
    have "barriers s1 r"
      by (rule commit_keeps [OF _ _ planned(3) _ planned(6) assms(1)])
        (use b planned(4,7) in \<open>simp_all add: update\<close>)
    then have "barriers s1 (advance tnow KEY_AGGREGATION ''KEY_SETUP_BARRIER'' None r)"
      using planned(4,5) one_commitment [OF planned(8,9)] b
      by (intro barriers_advance) (auto simp: transition_allowed_def)
    with b planned create_tree_plan_views [OF planned(10)] show ?thesis
      by (intro settled [of s1]) simp_all
  qed
qed

lemma barriers_untouched:
  assumes "barriers_ok s" "rounds s' = rounds s" "participants s' = participants s"
    "final_key_receipts s' = final_key_receipts s"
  shows "barriers_ok s'"
  using assms barriers_tables [of _ s' s]
  by (simp add: barriers_ok_def participants_of_def receipts_of_def)

lemma record_task_artifact_barriers:
  assumes "barriers_ok s"
    and "record_task_artifact now rid client tid stored dg nonce sig idem_key digest s = (res, s')"
  shows "barriers_ok s'"
proof (cases res)
  case (Inl e)
  with assms method_errors(3) show ?thesis by metis
next
  case (Inr x)
  with assms(2) have "record_task_artifact now rid client tid stored dg nonce sig idem_key digest s
      = (Inr (fst x, snd x), s')" by simp
  then show ?thesis
    by (cases rule: record_task_artifact_ok) (use assms(1) in \<open>auto intro: barriers_untouched\<close>)
qed

lemma acknowledge_task_barriers:
  assumes "barriers_ok s" and "acknowledge_task now rid client tid ad idem_key digest s = (res, s')"
  shows "barriers_ok s'"
proof (cases res)
  case (Inl e)
  with assms method_errors(4) show ?thesis by metis
next
  case (Inr x)
  with assms(2) have "acknowledge_task now rid client tid ad idem_key digest s = (Inr x, s')" by simp
  then show ?thesis
    by (cases rule: acknowledge_task_ok)
      (use assms(1) in \<open>auto simp: release_tasks_def intro: barriers_untouched\<close>)
qed

lemma record_final_key_barriers:
  assumes "barriers_ok s"
    and "record_final_key now rid client stored dg nonce sig idem_key digest s = (res, s')"
  shows "barriers_ok s'"
proof (cases res)
  case (Inl e)
  with assms method_errors(5) show ?thesis by metis
next
  case (Inr x)
  with assms(2) have "record_final_key now rid client stored dg nonce sig idem_key digest s
      = (Inr (fst x, snd x), s')" by simp
  then show ?thesis
    by (cases rule: record_final_key_ok) (use assms(1) in \<open>auto intro: barriers_untouched\<close>)
qed

text \<open>As many receipts as participants, from distinct participants: everybody has one.\<close>

lemma all_receipts:
  assumes "keys_ok s" "barriers s r" "length (receipts_of (round_id r) s) = expected_count r"
    and "p \<in> set (participants_of (round_id r) s)"
  shows "\<exists>f\<in>set (receipts_of (round_id r) s). fr_client f = p_client p"
proof -
  let ?fs = "receipts_of (round_id r) s" and ?ps = "participants_of (round_id r) s"
  have "distinct (map (\<lambda>f. (fr_round f, fr_client f)) ?fs)"
    using keys_okD(13) [OF assms(1)] by (simp add: receipts_of_def distinct_map_filter)
  then have "distinct (map fr_client ?fs)"
    by (auto simp: distinct_map inj_on_def receipts_of_def)
  then have "card (set (map fr_client ?fs)) = length ?ps"
    using distinct_card [of "map fr_client ?fs"] assms(3) barriersD(2) [OF assms(2)] by simp
  moreover have "set (map fr_client ?fs) \<subseteq> set (map p_client ?ps)"
    using barriersD(1,3) [OF assms(2)] by auto
  moreover have "card (set (map p_client ?ps)) \<le> length ?ps"
    by (metis card_length length_map)
  ultimately have "set (map fr_client ?fs) = set (map p_client ?ps)"
    by (metis List.finite_set card_seteq)
  then have "p_client p \<in> fr_client ` set ?fs" using assms(4) by auto
  then show ?thesis by force
qed

lemma acknowledge_final_key_barriers:
  assumes "keys_ok s" "barriers_ok s"
    and member: "\<And>r. round_of rid s = Some r \<Longrightarrow> client \<in> set (participants_json r)"
    and "acknowledge_final_key now tnow rid client ad idem_key digest s = (res, s')"
  shows "barriers_ok s'"
proof (cases res)
  case (Inl e)
  with assms method_errors(6) show ?thesis by metis
next
  case (Inr x)
  have keys: "keys_ok s'" using keys.g_acknowledge_final_key assms by (blast dest: guaranteesD)
  have others: "others_same rid s s'"
    using isolation.g_acknowledge_final_key assms(4) by (blast dest: guaranteesD)
  note settled = barriers_settled [OF assms(2) keys others]
  have added: "barriers s1 r" if "barriers s r" "round_id r = rid" "client \<in> set (participants_json r)"
    "status r = KEY_AGGREGATION" "participants_of rid s1 = participants_of rid s"
    "receipts_of rid s1 = receipts_of rid s @ [f]" "fr_client f = client" for r s1 f
    using that by (auto simp: barriers_def Let_def reached_def)
  let ?f = "\<lparr>fr_round = rid, fr_client = client, fr_digest = ad, fr_created = now\<rparr>"
  from Inr assms(4) have "acknowledge_final_key now tnow rid client ad idem_key digest s = (Inr x, s')" by simp
  with assms(1) show ?thesis
  proof (cases rule: acknowledge_final_key_ok)
    case replay
    with assms show ?thesis by simp
  next
    case (acknowledged r k s1 ev)
    note b = barriers_of [OF assms(2) acknowledged(2)]
    have "barriers s1 r"
      by (rule added [of r s1 ?f]) (use b acknowledged member in \<open>simp_all add: receipts_of_insert\<close>)
    with b acknowledged show ?thesis by (intro settled [of s1 r]) simp_all
  next
    case (barrier r k s1 ev ev')
    note b = barriers_of [OF assms(2) barrier(2)]
    have b1: "barriers s1 r"
      by (rule added [of r s1 ?f]) (use b barrier member in \<open>simp_all add: receipts_of_insert\<close>)
    have k1: "keys_ok s1"
      using keys barrier(8) by (simp add: keys_ok_def map_update_where)
    have "length (receipts_of rid s1) = expected_count r"
      using barrier(7) by (simp add: receipts_of_def count_where_def)
    with all_receipts [OF k1 b1] b
    have "list_all (\<lambda>p. list_ex (\<lambda>f. fr_client f = p_client p) (receipts_of rid s1)) (participants_of rid s1)"
      by (auto simp: list_all_iff list_ex_iff)
    with b1 b barrier(3) have "barriers s1 (advance tnow UPDATE_COLLECTION ''FINAL_KEY_BARRIER'' None r)"
      by (intro barriers_advance) (auto simp: transition_allowed_def)
    with b barrier show ?thesis by (intro settled [of s1]) simp_all
  qed
qed

lemma record_update_barriers:
  assumes "keys_ok s" "barriers_ok s"
    and "record_update now tnow job_id rid client stored tag idem_key digest s = (res, s')"
  shows "barriers_ok s'"
proof (cases res)
  case (Inl e)
  with assms method_errors(7) show ?thesis by metis
next
  case (Inr x)
  have keys: "keys_ok s'" using keys.g_record_update assms by (blast dest: guaranteesD)
  have others: "others_same rid s s'" using isolation.g_record_update assms(3) by (blast dest: guaranteesD)
  note settled = barriers_settled [OF assms(2) keys others]
  have update: "participants_of rid (participants_update (update_where P (submit_update now stored tag)) t)
      = update_where P (submit_update now stored tag) (participants_of rid t)" for P t
    by (rule participants_of_update) (simp add: submit_update_def)
  have added: "barriers s1 r" if "barriers s r" "round_id r = rid" "receipts_of rid s1 = receipts_of rid s"
    "participants_of rid s1 = update_where P (submit_update now stored tag) (participants_of rid s)" for r s1 P
    by (rule barriers_participants [OF that(1), of s1 P "submit_update now stored tag"])
      (use that(2-4) in \<open>simp_all add: submit_update_def\<close>)
  from Inr assms(3) have "record_update now tnow job_id rid client stored tag idem_key digest s
      = (Inr (fst x, snd x), s')" by simp
  with assms(1) show ?thesis
  proof (cases rule: record_update_ok)
    case replay
    with assms show ?thesis by simp
  next
    case (again r p a)
    with assms(2) show ?thesis by (auto intro: barriers_untouched)
  next
    case (recorded r p s1 ev)
    note b = barriers_of [OF assms(2) recorded(3)]
    have "barriers s1 r"
      by (rule added [of r s1]) (use b recorded(8) in \<open>simp_all add: update\<close>)
    with b recorded show ?thesis by (intro settled [of s1 r]) simp_all
  next
    case (barrier r p s1 ev ev')
    note b = barriers_of [OF assms(2) barrier(3)]
    have b1: "barriers s1 r"
      by (rule added [of r s1]) (use b barrier(8) in \<open>simp_all add: update\<close>)
    have "list_all (\<lambda>p. p_update_artifact p \<noteq> None) (participants_of rid s1)"
      using barriersD(2) [OF b1] b barrier(9) by (intro count_all_participants) simp
    with b1 b barrier(4) have "barriers s1 (advance tnow AGGREGATING ''UPDATE_BARRIER'' None r)"
      by (intro barriers_advance) (auto simp: transition_allowed_def)
    with b barrier show ?thesis by (intro settled [of s1]) simp_all
  qed
qed

lemma complete_participant_barriers:
  assumes "keys_ok s" "barriers_ok s"
    and "complete_participant now tnow rid client idem_key digest s = (res, s')"
  shows "barriers_ok s'"
proof (cases res)
  case (Inl e)
  with assms method_errors(10) show ?thesis by metis
next
  case (Inr x)
  have keys: "keys_ok s'" using keys.g_complete_participant assms by (blast dest: guaranteesD)
  have others: "others_same rid s s'" using isolation.g_complete_participant assms(3) by (blast dest: guaranteesD)
  note settled = barriers_settled [OF assms(2) keys others]
  let ?done = "\<lambda>p. p\<lparr>p_completed := True, p_state := PARTICIPANT_COMPLETED, p_last_seen := now\<rparr>"
  have update: "participants_of rid (participants_update (update_where P ?done) t)
      = update_where P ?done (participants_of rid t)" for P t
    by (rule participants_of_update) simp
  have added: "barriers s1 r" if "barriers s r" "round_id r = rid" "receipts_of rid s1 = receipts_of rid s"
    "participants_of rid s1 = update_where P ?done (participants_of rid s)" for r s1 P
    by (rule barriers_participants [OF that(1), of s1 P ?done]) (use that(2-4) in simp_all)
  from Inr assms(3) have "complete_participant now tnow rid client idem_key digest s = (Inr x, s')" by simp
  with assms(1) show ?thesis
  proof (cases rule: complete_participant_ok)
    case replay
    with assms show ?thesis by simp
  next
    case (completed r s1 ev)
    note b = barriers_of [OF assms(2) completed(2)]
    have "barriers s1 r" by (rule added [of r s1]) (use b completed(4) in \<open>simp_all add: update\<close>)
    with b completed show ?thesis by (intro settled [of s1 r]) simp_all
  next
    case (barrier r s1 ev ev')
    note b = barriers_of [OF assms(2) barrier(2)]
    have b1: "barriers s1 r" by (rule added [of r s1]) (use b barrier(4) in \<open>simp_all add: update\<close>)
    have "list_all p_completed (participants_of rid s1)"
      using barriersD(2) [OF b1] b barrier(5) by (intro count_all_participants) simp
    with b1 b barrier(3) have "barriers s1 (advance tnow COMPLETED ''COMPLETION_BARRIER'' None r)"
      by (intro barriers_advance) (auto simp: transition_allowed_def)
    with b barrier show ?thesis by (intro settled [of s1]) simp_all
  qed
qed

lemma complete_job_barriers:
  assumes "keys_ok s" "barriers_ok s"
    and "complete_job now tnow job_id rid token stored tag s = (res, s')"
  shows "barriers_ok s'"
proof (cases res)
  case (Inl e)
  with assms method_errors(8) show ?thesis by metis
next
  case (Inr u)
  have keys: "keys_ok s'" using keys.g_complete_job assms by (blast dest: guaranteesD)
  have others: "others_same rid s s'" using isolation.g_complete_job assms(3) by (blast dest: guaranteesD)
  from Inr assms(3) have "complete_job now tnow job_id rid token stored tag s = (Inr u, s')" by simp
  with assms(1) show ?thesis
  proof (cases rule: complete_job_ok)
    case (1 r s1 ev j)
    note b = barriers_of [OF assms(2) 1(1)]
    then have "barriers s (advance tnow RESULT_READY ''AGGREGATION_COMPLETED'' None r)"
      using 1(2) by (intro barriers_advance) (auto simp: transition_allowed_def)
    with b 1 show ?thesis
      by (intro barriers_settled [OF assms(2) keys others, of s]) (elim disjE; force)+
  qed
qed

text \<open>A new round starts with all of its participants and nothing else.\<close>

lemma create_round_barriers:
  assumes "keys_ok s" "refs_ok s" "barriers_ok s"
    and "create_round now rid federation version schema schema_hash clients manifest_hash ttl retention
      actor idem_key digest s = (res, s')"
  shows "barriers_ok s'"
proof (cases res)
  case (Inl e)
  with assms method_errors(1) show ?thesis by metis
next
  case (Inr x)
  with assms(4) have "create_round now rid federation version schema schema_hash clients manifest_hash ttl
      retention actor idem_key digest s = (Inr (fst x, snd x), s')" by simp
  then show ?thesis
  proof (cases rule: create_round_ok)
    case replay
    with assms show ?thesis by simp
  next
    case (created r)
    from created(2) assms(2) have fresh: "participants_of rid s = []" "receipts_of rid s = []"
      by (auto simp: participants_of_def receipts_of_def filter_empty_conv refs_ok_def list_all_iff)
    have "barriers s' r"
      using created fresh
      by (simp add: barriers_def Let_def new_round_def reached_def participants_of_def receipts_of_def
          new_participant_def comp_def)
    moreover have "barriers s' q" if q: "q \<in> set (rounds s)" for q
    proof -
      have "round_id q \<noteq> rid" using created(2) q by (auto simp: round_exists_def list_ex_iff)
      then have "barriers s' q = barriers s q"
        using created by (intro barriers_tables) (auto simp: participants_of_def receipts_of_def new_participant_def filter_empty_conv)
      with assms(3) q show ?thesis by (simp add: barriers_ok_def)
    qed
    ultimately show ?thesis using created by (simp add: barriers_ok_def)
  qed
qed

end
