(* ===== verification/Task_Graph.thy ===== *)
theory Task_Graph
  imports Barriers Topology_Facts
begin

text \<open>
  The key-aggregation tasks of a round. The committed plan is the plan derived from the
  registered keys, the task and dependency rows are those of the plan, a task waits
  exactly as long as one of its dependencies is not completed, and the final key and its
  receipts come only after all tasks. Every method keeps this.
\<close>

section \<open>Views of a round\<close>

definition plans_of :: "string \<Rightarrow> db \<Rightarrow> plan_row list" where
  "plans_of rid s = filter (\<lambda>p. tp_round p = rid) (tree_plans s)"

definition tasks_of :: "string \<Rightarrow> db \<Rightarrow> key_task_row list" where
  "tasks_of rid s = filter (\<lambda>t. t_round t = rid) (key_tasks s)"

definition deps_of :: "string \<Rightarrow> db \<Rightarrow> dependency_row list" where
  "deps_of rid s = filter (\<lambda>d. d_round d = rid) (task_dependencies s)"

definition task_receipts_of :: "string \<Rightarrow> db \<Rightarrow> task_receipt_row list" where
  "task_receipts_of rid s = filter (\<lambda>r. tr_round r = rid) (task_receipts s)"

definition finals_of :: "string \<Rightarrow> db \<Rightarrow> final_key_row list" where
  "finals_of rid s = filter (\<lambda>k. fk_round k = rid) (final_keys s)"

lemma graph_views_other [simp]:
  "plans_of q (idempotency_update f1 s) = plans_of q s"
  "plans_of q (audit_events_update f2 s) = plans_of q s"
  "plans_of q (rounds_update f3 s) = plans_of q s"
  "plans_of q (artifacts_update f4 s) = plans_of q s"
  "plans_of q (jobs_update f5 s) = plans_of q s"
  "plans_of q (participants_update f6 s) = plans_of q s"
  "plans_of q (key_tasks_update f7 s) = plans_of q s"
  "plans_of q (task_dependencies_update f8 s) = plans_of q s"
  "plans_of q (task_receipts_update f9 s) = plans_of q s"
  "plans_of q (final_keys_update f10 s) = plans_of q s"
  "plans_of q (final_key_receipts_update f11 s) = plans_of q s"
  "tasks_of q (idempotency_update f1 s) = tasks_of q s"
  "tasks_of q (audit_events_update f2 s) = tasks_of q s"
  "tasks_of q (rounds_update f3 s) = tasks_of q s"
  "tasks_of q (artifacts_update f4 s) = tasks_of q s"
  "tasks_of q (jobs_update f5 s) = tasks_of q s"
  "tasks_of q (participants_update f6 s) = tasks_of q s"
  "tasks_of q (tree_plans_update f12 s) = tasks_of q s"
  "tasks_of q (task_dependencies_update f8 s) = tasks_of q s"
  "tasks_of q (task_receipts_update f9 s) = tasks_of q s"
  "tasks_of q (final_keys_update f10 s) = tasks_of q s"
  "tasks_of q (final_key_receipts_update f11 s) = tasks_of q s"
  "deps_of q (idempotency_update f1 s) = deps_of q s"
  "deps_of q (audit_events_update f2 s) = deps_of q s"
  "deps_of q (rounds_update f3 s) = deps_of q s"
  "deps_of q (artifacts_update f4 s) = deps_of q s"
  "deps_of q (jobs_update f5 s) = deps_of q s"
  "deps_of q (participants_update f6 s) = deps_of q s"
  "deps_of q (tree_plans_update f12 s) = deps_of q s"
  "deps_of q (key_tasks_update f7 s) = deps_of q s"
  "deps_of q (task_receipts_update f9 s) = deps_of q s"
  "deps_of q (final_keys_update f10 s) = deps_of q s"
  "deps_of q (final_key_receipts_update f11 s) = deps_of q s"
  by (simp_all add: plans_of_def tasks_of_def deps_of_def)

lemma result_views_other [simp]:
  "task_receipts_of q (idempotency_update f1 s) = task_receipts_of q s"
  "task_receipts_of q (audit_events_update f2 s) = task_receipts_of q s"
  "task_receipts_of q (rounds_update f3 s) = task_receipts_of q s"
  "task_receipts_of q (artifacts_update f4 s) = task_receipts_of q s"
  "task_receipts_of q (jobs_update f5 s) = task_receipts_of q s"
  "task_receipts_of q (participants_update f6 s) = task_receipts_of q s"
  "task_receipts_of q (tree_plans_update f12 s) = task_receipts_of q s"
  "task_receipts_of q (key_tasks_update f7 s) = task_receipts_of q s"
  "task_receipts_of q (task_dependencies_update f8 s) = task_receipts_of q s"
  "task_receipts_of q (final_keys_update f10 s) = task_receipts_of q s"
  "task_receipts_of q (final_key_receipts_update f11 s) = task_receipts_of q s"
  "finals_of q (idempotency_update f1 s) = finals_of q s"
  "finals_of q (audit_events_update f2 s) = finals_of q s"
  "finals_of q (rounds_update f3 s) = finals_of q s"
  "finals_of q (artifacts_update f4 s) = finals_of q s"
  "finals_of q (jobs_update f5 s) = finals_of q s"
  "finals_of q (participants_update f6 s) = finals_of q s"
  "finals_of q (tree_plans_update f12 s) = finals_of q s"
  "finals_of q (key_tasks_update f7 s) = finals_of q s"
  "finals_of q (task_dependencies_update f8 s) = finals_of q s"
  "finals_of q (task_receipts_update f9 s) = finals_of q s"
  "finals_of q (final_key_receipts_update f11 s) = finals_of q s"
  by (simp_all add: task_receipts_of_def finals_of_def)

section \<open>The invariant\<close>

definition done_ids :: "key_task_row list \<Rightarrow> string set" where
  "done_ids ts = task_id ` {t \<in> set ts. t_state t = TASK_COMPLETED}"

text \<open>A task waits exactly while a dependency is missing; uploaded tasks have their artifact.\<close>

definition progress_ok :: "key_task_row list \<Rightarrow> bool" where
  "progress_ok ts \<longleftrightarrow> (\<forall>t\<in>set ts.
     (t_state t = WAITING \<longleftrightarrow> \<not> set (dependencies t) \<subseteq> done_ids ts) \<and>
     (t_state t \<in> {ARTIFACT_UPLOADED, TASK_COMPLETED} \<longleftrightarrow> t_artifact t \<noteq> None) \<and>
     (t_artifact t \<noteq> None \<longrightarrow> t_ciphertext_digest t \<noteq> None))"

text \<open>What a committed plan says of the other tables.\<close>

definition plan_followed :: "(bytes \<Rightarrow> bytes) \<Rightarrow> db \<Rightarrow> round_row \<Rightarrow> plan_row \<Rightarrow> bool" where
  "plan_followed sha s r p \<longleftrightarrow>
     (let rid = round_id r; plan = tp_plan p; ts = tasks_of rid s; ks = finals_of rid s in
      status r \<notin> {CREATED, REGISTRATION_OPEN, KEY_SETUP} \<and>
      tp_manifest p = manifest_of (sort_key p_client (participants_of rid s)) \<and>
      derive_tree_plan sha r (tp_manifest p) = Inr plan \<and> tp_hash p = tree_plan_hash sha plan \<and>
      map task_metadata ts = plan_tasks plan \<and>
      deps_of rid s = concat (map (dependency_rows rid) (plan_tasks plan)) \<and>
      progress_ok ts \<and>
      tr_task ` set (task_receipts_of rid s) = done_ids ts \<and>
      (ks \<noteq> [] \<longrightarrow> (\<forall>t\<in>set ts. t_state t = TASK_COMPLETED)) \<and>
      (\<forall>k\<in>set ks. fk_sender k = root_client_id plan))"

definition task_graph :: "(bytes \<Rightarrow> bytes) \<Rightarrow> db \<Rightarrow> round_row \<Rightarrow> bool" where
  "task_graph sha s r \<longleftrightarrow>
     (case plans_of (round_id r) s of
        [] \<Rightarrow> tasks_of (round_id r) s = [] \<and> deps_of (round_id r) s = [] \<and>
          task_receipts_of (round_id r) s = [] \<and> finals_of (round_id r) s = [] \<and>
          \<not> (reached KEY_AGGREGATION (status r) \<and> protocol_version r = ''1.1'')
      | p # _ \<Rightarrow> plan_followed sha s r p) \<and>
     (finals_of (round_id r) s = [] \<longrightarrow> receipts_of (round_id r) s = []) \<and>
     (reached UPDATE_COLLECTION (status r) \<and> protocol_version r = ''1.1'' \<longrightarrow> finals_of (round_id r) s \<noteq> []) \<and>
     (status r = KEY_AGGREGATION \<longrightarrow> length (receipts_of (round_id r) s) < expected_count r)"

definition graphs_ok :: "(bytes \<Rightarrow> bytes) \<Rightarrow> db \<Rightarrow> bool" where
  "graphs_ok sha s \<longleftrightarrow> (\<forall>r\<in>set (rounds s). task_graph sha s r)"

section \<open>What the invariant depends on\<close>

lemma derive_tree_plan_row:
  "round_context.truncate r = round_context.truncate r' \<Longrightarrow>
   derive_tree_plan sha r m = derive_tree_plan sha r' m"
proof -
  assume "round_context.truncate r = round_context.truncate r'"
  then have "domain_bytes r = domain_bytes r'"
    by (simp add: domain_bytes_def domain_fields_def round_context.defs fun_eq_iff)
  then show ?thesis by (simp only: derive_tree_plan_def)
qed

lemma map_sort_key: "map f (sort_key (\<lambda>x. g (f x)) xs) = sort_key g (map f xs)"
proof (induction xs)
  case (Cons x xs)
  have "map f (insort_key (\<lambda>x. g (f x)) x ys) = insort_key g (f x) (map f ys)" for ys
    by (induction ys) auto
  with Cons show ?case by simp
qed simp

text \<open>The manifest depends on the clients and their keys only.\<close>

lemma manifest_of_cong:
  assumes "map (\<lambda>p. (p_client p, p_public_key p)) ps = map (\<lambda>p. (p_client p, p_public_key p)) qs"
  shows "manifest_of (sort_key p_client ps) = manifest_of (sort_key p_client qs)"
proof -
  let ?f = "\<lambda>p. (p_client p, p_public_key p)"
  let ?m = "\<lambda>(c, k). \<lparr>client_id = c, public_key = key_text (the k), signature = key_signature (the k)\<rparr>"
  have "manifest_of (sort_key p_client xs) = map ?m (sort_key fst (map ?f xs))" for xs
    unfolding map_sort_key [where f = ?f and g = fst, symmetric] by (simp add: manifest_of_def)
  with assms show ?thesis by simp
qed

lemma plan_followedD:
  assumes "plan_followed sha s r p"
  shows "status r \<notin> {CREATED, REGISTRATION_OPEN, KEY_SETUP}"
    "tp_manifest p = manifest_of (sort_key p_client (participants_of (round_id r) s))"
    "derive_tree_plan sha r (tp_manifest p) = Inr (tp_plan p)" "tp_hash p = tree_plan_hash sha (tp_plan p)"
    "map task_metadata (tasks_of (round_id r) s) = plan_tasks (tp_plan p)"
    "deps_of (round_id r) s = concat (map (dependency_rows (round_id r)) (plan_tasks (tp_plan p)))"
    "progress_ok (tasks_of (round_id r) s)"
    "tr_task ` set (task_receipts_of (round_id r) s) = done_ids (tasks_of (round_id r) s)"
    "finals_of (round_id r) s \<noteq> [] \<longrightarrow> (\<forall>t\<in>set (tasks_of (round_id r) s). t_state t = TASK_COMPLETED)"
    "\<forall>k\<in>set (finals_of (round_id r) s). fk_sender k = root_client_id (tp_plan p)"
  using assms unfolding plan_followed_def Let_def by - (elim conjE, assumption)+

lemma plan_followed_cong:
  assumes "round_id r' = round_id r" "round_context.truncate r' = round_context.truncate r"
    and "status r' \<notin> {CREATED, REGISTRATION_OPEN, KEY_SETUP}"
    and "map (\<lambda>p. (p_client p, p_public_key p)) (participants_of (round_id r) s')
      = map (\<lambda>p. (p_client p, p_public_key p)) (participants_of (round_id r) s)"
    and "tasks_of (round_id r) s' = tasks_of (round_id r) s" "deps_of (round_id r) s' = deps_of (round_id r) s"
    and "task_receipts_of (round_id r) s' = task_receipts_of (round_id r) s"
    and "finals_of (round_id r) s' = finals_of (round_id r) s"
    and "plan_followed sha s r p"
  shows "plan_followed sha s' r' p"
  unfolding plan_followed_def Let_def assms(1,5-8) manifest_of_cong [OF assms(4)] derive_tree_plan_row [OF assms(2)]
  by (intro conjI assms(3) plan_followedD [OF assms(9)])

text \<open>Changes that leave the graph tables of the round alone.\<close>

lemma task_graph_frame:
  assumes "task_graph sha s r"
    and "round_id r' = round_id r" "round_context.truncate r' = round_context.truncate r"
    and "status r' = status r \<or> transition_allowed (status r) (status r')"
    and "map (\<lambda>p. (p_client p, p_public_key p)) (participants_of (round_id r) s')
      = map (\<lambda>p. (p_client p, p_public_key p)) (participants_of (round_id r) s) \<or>
      status r \<in> {CREATED, REGISTRATION_OPEN, KEY_SETUP}"
    and "plans_of (round_id r) s' = plans_of (round_id r) s" "tasks_of (round_id r) s' = tasks_of (round_id r) s"
    and "deps_of (round_id r) s' = deps_of (round_id r) s"
    and "task_receipts_of (round_id r) s' = task_receipts_of (round_id r) s"
    and "finals_of (round_id r) s' = finals_of (round_id r) s"
    and "finals_of (round_id r) s = [] \<longrightarrow> receipts_of (round_id r) s' = []"
    and "status r' = KEY_AGGREGATION \<longrightarrow> status r = KEY_AGGREGATION \<and>
      length (receipts_of (round_id r) s') < expected_count r'"
    and "status r' = UPDATE_COLLECTION \<and> status r \<noteq> UPDATE_COLLECTION \<longrightarrow>
      protocol_version r \<noteq> ''1.1'' \<or> finals_of (round_id r) s \<noteq> []"
  shows "task_graph sha s' r'"
proof -
  have version: "protocol_version r' = protocol_version r"
    using assms(3) by (simp add: round_context.defs)
  have earlier: "reached UPDATE_COLLECTION (status r)"
    if "reached UPDATE_COLLECTION (status r')" "status r' \<noteq> UPDATE_COLLECTION \<or> status r = UPDATE_COLLECTION"
    using that assms(4) by (cases "status r"; cases "status r'") (auto simp: reached_def transition_allowed_def)
  have late: "reached UPDATE_COLLECTION (status r') \<and> protocol_version r' = ''1.1'' \<longrightarrow> finals_of (round_id r) s \<noteq> []"
    using assms(1,13) earlier version by (auto simp: task_graph_def)
  show ?thesis
  proof (cases "plans_of (round_id r) s")
    case Nil
    with assms(1) have empty: "finals_of (round_id r) s = []" "tasks_of (round_id r) s = []"
      "deps_of (round_id r) s = []" "task_receipts_of (round_id r) s = []"
      "\<not> (reached KEY_AGGREGATION (status r) \<and> protocol_version r = ''1.1'')"
      by (simp_all add: task_graph_def)
    have "\<not> (reached KEY_AGGREGATION (status r') \<and> protocol_version r' = ''1.1'')"
      using late empty(1,5) assms(12) version
      by (cases "status r'") (auto simp: reached_def)
    with Nil empty assms late show ?thesis by (simp add: task_graph_def)
  next
    case (Cons p ps)
    with assms(1) have followed: "plan_followed sha s r p" by (simp add: task_graph_def)
    note st = plan_followedD(1) [OF followed]
    have "status r' \<notin> {CREATED, REGISTRATION_OPEN, KEY_SETUP}"
      using st assms(4) by (cases "status r") (auto simp: transition_allowed_def)
    with followed st assms have "plan_followed sha s' r' p" by (intro plan_followed_cong [of r' r s' s]) auto
    with Cons assms late show ?thesis by (simp add: task_graph_def)
  qed
qed

section \<open>Rows and tasks\<close>

lemma metadata_simps [simp]:
  "task_id (task_metadata t) = task_id t" "dependencies (task_metadata t) = dependencies t"
  "sender (task_metadata t) = sender t" "receiver (task_metadata t) = receiver t"
  by (simp_all add: task_metadata_def)

lemma derived_plan_order:
  assumes "derive_tree_plan sha r m = Inr plan"
  shows "distinct (map task_id (plan_tasks plan)) \<and> deps_before {} (plan_tasks plan)"
  using derive_tree_plan_cases [OF assms] plan_ids_distinct plan_dependency_order by metis

lemma deps_before_metadata: "deps_before S (map task_metadata ts) = deps_before S ts"
  by (induction ts arbitrary: S) simp_all

text \<open>The rows of a round as the plan orders them.\<close>

definition ordered_rows :: "string \<Rightarrow> db \<Rightarrow> bool" where
  "ordered_rows rid s \<longleftrightarrow> distinct (map task_id (tasks_of rid s)) \<and> deps_before {} (tasks_of rid s) \<and>
     deps_of rid s = concat (map (dependency_rows rid) (map task_metadata (tasks_of rid s)))"

lemma plan_followed_ordered:
  assumes "plan_followed sha s r p"
  shows "ordered_rows (round_id r) s"
proof -
  note f = plan_followedD [OF assms]
  from f(5) have "map task_id (tasks_of (round_id r) s) = map task_id (plan_tasks (tp_plan p))"
    by (simp flip: f(5) add: comp_def)
  moreover have "deps_before {} (tasks_of (round_id r) s) = deps_before {} (plan_tasks (tp_plan p))"
    by (simp flip: f(5) add: deps_before_metadata)
  ultimately show ?thesis
    using derived_plan_order [OF f(3)] f(6) by (simp add: ordered_rows_def f(5))
qed

lemma in_deps_of:
  assumes "ordered_rows rid s"
  shows "d \<in> set (deps_of rid s) \<longleftrightarrow> (\<exists>u\<in>set (tasks_of rid s). \<exists>x\<in>set (dependencies u).
    d = \<lparr>d_round = rid, d_task = task_id u, d_dependency = x\<rparr>)"
  using assms by (auto simp: ordered_rows_def dependency_rows_def)

lemma dependency_present:
  assumes "ordered_rows rid s" "t \<in> set (tasks_of rid s)" "d \<in> set (dependencies t)"
  shows "\<exists>u\<in>set (tasks_of rid s). task_id u = d"
proof -
  from assms(2) obtain i where "i < length (tasks_of rid s)" "tasks_of rid s ! i = t"
    by (auto simp: in_set_conv_nth)
  with assms deps_before_nth [of "{}" "tasks_of rid s" i d] obtain j where
    "j < i" "task_id (tasks_of rid s ! j) = d" by (auto simp: ordered_rows_def)
  with \<open>i < _\<close> show ?thesis by (intro bexI [of _ "tasks_of rid s ! j"]) auto
qed

lemma task_row_unique:
  "ordered_rows rid s \<Longrightarrow> t \<in> set (tasks_of rid s) \<Longrightarrow> u \<in> set (tasks_of rid s) \<Longrightarrow> task_id t = task_id u \<Longrightarrow> t = u"
  unfolding ordered_rows_def by (elim conjE) (rule distinct_key_unique [of task_id])

text \<open>The correlated subquery computes exactly the missing dependencies.\<close>

lemma blocked_iff:
  assumes "ordered_rows rid s" "t \<in> set (tasks_of rid s)"
  shows "blocked s t \<longleftrightarrow> \<not> set (dependencies t) \<subseteq> done_ids (tasks_of rid s)"
proof -
  have t: "t_round t = rid" using assms(2) by (simp add: tasks_of_def)
  have "blocked s t \<longleftrightarrow> (\<exists>d\<in>set (deps_of rid s). d_task d = task_id t \<and>
      (\<exists>u\<in>set (tasks_of rid s). task_id u = d_dependency d \<and> t_state u \<noteq> TASK_COMPLETED))"
    by (auto simp: blocked_def t list_ex_iff deps_of_def tasks_of_def)
  also have "\<dots> \<longleftrightarrow> (\<exists>x\<in>set (dependencies t).
      \<exists>u\<in>set (tasks_of rid s). task_id u = x \<and> t_state u \<noteq> TASK_COMPLETED)"
  proof -
    have "(\<exists>d\<in>set (deps_of rid s). d_task d = task_id t \<and> Q (d_dependency d)) \<longleftrightarrow>
        (\<exists>u\<in>set (tasks_of rid s). task_id u = task_id t \<and> (\<exists>x\<in>set (dependencies u). Q x))" for Q
      unfolding in_deps_of [OF assms(1)] Bex_def by force
    also have "\<dots> Q \<longleftrightarrow> (\<exists>x\<in>set (dependencies t). Q x)" for Q
      using task_row_unique [OF assms(1) _ assms(2)] assms(2) by blast
    finally show ?thesis .
  qed
  also have "\<dots> \<longleftrightarrow> (\<exists>x\<in>set (dependencies t). x \<notin> done_ids (tasks_of rid s))"
  proof (intro bex_cong refl)
    fix x assume "x \<in> set (dependencies t)"
    from dependency_present [OF assms this] obtain u where u: "u \<in> set (tasks_of rid s)" "task_id u = x" by blast
    have only: "v = u" if "v \<in> set (tasks_of rid s)" "task_id v = x" for v
      using task_row_unique [OF assms(1) that(1) u(1)] that(2) u(2) by simp
    have "(\<exists>v\<in>set (tasks_of rid s). task_id v = x \<and> t_state v \<noteq> TASK_COMPLETED) \<longleftrightarrow> t_state u \<noteq> TASK_COMPLETED"
      using only u by blast
    also have "\<dots> \<longleftrightarrow> x \<notin> done_ids (tasks_of rid s)"
      unfolding done_ids_def using only u by blast
    finally show "(\<exists>v\<in>set (tasks_of rid s). task_id v = x \<and> t_state v \<noteq> TASK_COMPLETED)
        \<longleftrightarrow> x \<notin> done_ids (tasks_of rid s)" .
  qed
  finally show ?thesis by blast
qed

end
