(* ===== verification/Task_Methods.thy ===== *)
theory Task_Methods
  imports Task_Graph
begin

text \<open>
  Every method keeps the invariant of the task graph. Most methods leave its tables alone; the
  upload and the acknowledgement of a task keep the progress of the rows, the commitment barrier
  writes the plan, and the final key follows the last task.
\<close>

section \<open>Settling one round\<close>

lemma task_graph_tables:
  assumes "task_graph sha s r" and "same_tables gone (round_id r) s s'"
  shows "task_graph sha s' r"
  using assms(1)
  by (rule task_graph_frame [of sha s r r s'])
    (use assms in \<open>auto simp: same_tables_def participants_of_def plans_of_def tasks_of_def deps_of_def
      task_receipts_of_def finals_of_def receipts_of_def task_graph_def\<close>)

lemma graphs_settled:
  assumes "graphs_ok sha s" "keys_ok s'" "others_same rid s s'"
    and "round_of rid s' = Some r'" "task_graph sha s' r'"
  shows "graphs_ok sha s'"
  unfolding graphs_ok_def
proof
  fix q assume q: "q \<in> set (rounds s')"
  show "task_graph sha s' q"
  proof (cases "round_id q = rid")
    case True
    with q assms(2) round_of_unique have "round_of rid s' = Some q" by blast
    with assms(4,5) show ?thesis by simp
  next
    case False
    with assms(3) have same: "same_tables {rid} (round_id q) s s'" by (simp add: others_same_def)
    then have "filter (\<lambda>r. round_id r = round_id q) (rounds s') = filter (\<lambda>r. round_id r = round_id q) (rounds s)"
      by (simp add: same_tables_def)
    moreover have "q \<in> set (filter (\<lambda>r. round_id r = round_id q) (rounds s'))" using q by simp
    ultimately have "q \<in> set (rounds s)" by simp
    with assms(1) same show ?thesis by (auto simp: graphs_ok_def intro: task_graph_tables)
  qed
qed

lemma graph_of: "graphs_ok sha s \<Longrightarrow> round_of rid s = Some r \<Longrightarrow> task_graph sha s r \<and> round_id r = rid"
  using round_of_in round_of_id unfolding graphs_ok_def by blast

lemma task_graphD:
  assumes "task_graph sha s r"
  shows "finals_of (round_id r) s = [] \<Longrightarrow> receipts_of (round_id r) s = []"
    "status r = KEY_AGGREGATION \<Longrightarrow> length (receipts_of (round_id r) s) < expected_count r"
    "reached UPDATE_COLLECTION (status r) \<Longrightarrow> protocol_version r = ''1.1'' \<Longrightarrow> finals_of (round_id r) s \<noteq> []"
    "plans_of (round_id r) s = p # ps \<Longrightarrow> plan_followed sha s r p"
  using assms by (simp_all add: task_graph_def)

lemma graphs_only_fails:
  assumes "only_fails s s'" "graphs_ok sha s"
  shows "graphs_ok sha s'"
  unfolding graphs_ok_def
proof
  fix r' assume "r' \<in> set (rounds s')"
  with assms obtain r where r: "r \<in> set (rounds s)" "task_graph sha s r"
    "r' = r \<or> frozen r' = frozen r \<and> round_id r' = round_id r \<and> status r' \<in> failures"
    unfolding only_fails_def graphs_ok_def by blast
  have same: "participants s' = participants s" "tree_plans s' = tree_plans s" "key_tasks s' = key_tasks s"
    "task_dependencies s' = task_dependencies s" "task_receipts s' = task_receipts s"
    "final_keys s' = final_keys s" "final_key_receipts s' = final_key_receipts s"
    using assms(1) by (simp_all add: only_fails_def)
  have views: "participants_of q s' = participants_of q s" "plans_of q s' = plans_of q s"
    "tasks_of q s' = tasks_of q s" "deps_of q s' = deps_of q s"
    "task_receipts_of q s' = task_receipts_of q s" "finals_of q s' = finals_of q s"
    "receipts_of q s' = receipts_of q s" for q
    by (simp_all add: participants_of_def plans_of_def tasks_of_def deps_of_def task_receipts_of_def
        finals_of_def receipts_of_def same)
  from r(3) show "task_graph sha s' r'"
  proof
    assume "r' = r"
    with r(2) show ?thesis by (simp add: task_graph_def plan_followed_def views split: list.splits)
  next
    assume failed: "frozen r' = frozen r \<and> round_id r' = round_id r \<and> status r' \<in> failures"
    have "plan_followed sha s' r' p" if "plan_followed sha s r p" for p
      by (rule plan_followed_cong [OF _ _ _ _ _ _ _ _ that])
        (use failed in \<open>auto simp: frozen_def views\<close>)
    with r(2) failed show ?thesis
      by (auto simp: task_graph_def views split: list.splits)
  qed
qed


section \<open>Methods that leave the graph alone\<close>

lemma graph_kept:
  assumes "task_graph sha s r" "round_id r = rid"
    and "map (\<lambda>p. (p_client p, p_public_key p)) (participants_of rid s')
      = map (\<lambda>p. (p_client p, p_public_key p)) (participants_of rid s) \<or>
      status r \<in> {CREATED, REGISTRATION_OPEN, KEY_SETUP}"
    and "plans_of rid s' = plans_of rid s" "tasks_of rid s' = tasks_of rid s" "deps_of rid s' = deps_of rid s"
    and "task_receipts_of rid s' = task_receipts_of rid s" "finals_of rid s' = finals_of rid s"
    and "receipts_of rid s' = receipts_of rid s"
    and "r' = r \<or> frozen r' = frozen r \<and> round_id r' = round_id r \<and>
      transition_allowed (status r) (status r') \<and> status r' \<noteq> KEY_AGGREGATION \<and>
      (status r' = UPDATE_COLLECTION \<longrightarrow> protocol_version r \<noteq> ''1.1'')"
  shows "task_graph sha s' r'"
proof -
  from assms(10) have r': "round_id r' = round_id r" "round_context.truncate r' = round_context.truncate r"
    "status r' = status r \<or> transition_allowed (status r) (status r')" "expected_count r' = expected_count r"
    "status r' = KEY_AGGREGATION \<longrightarrow> status r = KEY_AGGREGATION"
    "status r' = UPDATE_COLLECTION \<and> status r \<noteq> UPDATE_COLLECTION \<longrightarrow> protocol_version r \<noteq> ''1.1''"
    by (auto simp: frozen_def)
  show ?thesis
  proof (rule task_graph_frame [OF assms(1) r'(1-3)])
    show "finals_of (round_id r) s = [] \<longrightarrow> receipts_of (round_id r) s' = []"
      using assms(1,2,9) by (simp add: task_graph_def)
    show "status r' = KEY_AGGREGATION \<longrightarrow> status r = KEY_AGGREGATION \<and>
      length (receipts_of (round_id r) s') < expected_count r'"
      using assms(1,2,9) r' by (simp add: task_graph_def)
  qed (use assms(2-8) r'(6) in simp_all)
qed

lemma advance_kept:
  "transition_allowed (status r) target \<Longrightarrow> target \<noteq> KEY_AGGREGATION \<Longrightarrow>
   (target = UPDATE_COLLECTION \<longrightarrow> protocol_version r \<noteq> ''1.1'') \<Longrightarrow> r' = advance now target ev detail r \<Longrightarrow>
   r' = r \<or> frozen r' = frozen r \<and> round_id r' = round_id r \<and>
     transition_allowed (status r) (status r') \<and> status r' \<noteq> KEY_AGGREGATION \<and>
     (status r' = UPDATE_COLLECTION \<longrightarrow> protocol_version r \<noteq> ''1.1'')"
  by (simp add: advance_frozen)

lemma clients_keys_update:
  "(\<And>p. p_client (f p) = p_client p \<and> p_public_key (f p) = p_public_key p) \<Longrightarrow>
   map (\<lambda>p. (p_client p, p_public_key p)) (update_where P f ps) = map (\<lambda>p. (p_client p, p_public_key p)) ps"
  by (rule map_update_where) simp

lemma record_json_slot_graphs:
  assumes "keys_ok s" "graphs_ok sha s"
    and "record_json_slot now tnow rid client body idem_key digest s = (res, s')"
  shows "graphs_ok sha s'"
proof (cases res)
  case (Inl e)
  with assms method_errors(2) show ?thesis by metis
next
  case (Inr x)
  then have run: "record_json_slot now tnow rid client body idem_key digest s = (Inr (fst x, snd x), s')"
    using assms(3) by simp
  have keys: "keys_ok s'" using keys.g_record_json_slot assms by (blast dest: guaranteesD)
  have others: "others_same rid s s'" using isolation.g_record_json_slot assms(3) by (blast dest: guaranteesD)
  note settled = graphs_settled [OF assms(2) keys others]
  from assms(1) run show ?thesis
  proof (cases rule: record_json_slot_ok)
    case replay
    with assms show ?thesis by simp
  next
    case (recorded r p s1)
    note g = graph_of [OF assms(2) recorded(3)]
    have early: "status r \<in> {CREATED, REGISTRATION_OPEN, KEY_SETUP}" using recorded(5) by (cases body) auto
    show ?thesis
      by (rule settled [OF _ graph_kept [of sha s r rid s' r]]) (use g recorded early in simp_all)
  next
    case (barrier r p s1)
    note g = graph_of [OF assms(2) barrier(3)]
    show ?thesis
    proof (rule settled [OF _ graph_kept [of sha s r rid]])
      show "round_of rid s' = Some (advance tnow KEY_SETUP ''PUBLIC_KEY_BARRIER'' None r)"
        using g barrier by simp
    qed (use g barrier in \<open>simp_all add: transition_allowed_def advance_frozen\<close>)
  qed
qed

lemma record_update_graphs:
  assumes "keys_ok s" "graphs_ok sha s"
    and "record_update now tnow job_id rid client stored tag idem_key digest s = (res, s')"
  shows "graphs_ok sha s'"
proof (cases res)
  case (Inl e)
  with assms method_errors(7) show ?thesis by metis
next
  case (Inr x)
  then have run: "record_update now tnow job_id rid client stored tag idem_key digest s = (Inr (fst x, snd x), s')"
    using assms(3) by simp
  have keys: "keys_ok s'" using keys.g_record_update assms by (blast dest: guaranteesD)
  have others: "others_same rid s s'" using isolation.g_record_update assms(3) by (blast dest: guaranteesD)
  note settled = graphs_settled [OF assms(2) keys others]
  have update: "participants_of rid (participants_update (update_where P (submit_update now stored tag)) t)
      = update_where P (submit_update now stored tag) (participants_of rid t)" for P t
    by (rule participants_of_update) (simp add: submit_update_def)
  have same: "map (\<lambda>p. (p_client p, p_public_key p)) (update_where P (submit_update now stored tag) ps)
      = map (\<lambda>p. (p_client p, p_public_key p)) ps" for P ps
    by (rule clients_keys_update) (simp add: submit_update_def)
  from assms(1) run show ?thesis
  proof (cases rule: record_update_ok)
    case replay
    with assms show ?thesis by simp
  next
    case (again r p a)
    note g = graph_of [OF assms(2) again(3)]
    show ?thesis by (rule settled [OF _ graph_kept [of sha s r rid s' r]]) (use g again in simp_all)
  next
    case (recorded r p s1 ev)
    note g = graph_of [OF assms(2) recorded(3)]
    show ?thesis
      by (rule settled [OF _ graph_kept [of sha s r rid s' r]]) (use g recorded in \<open>simp_all add: update same\<close>)
  next
    case (barrier r p s1 ev ev')
    note g = graph_of [OF assms(2) barrier(3)]
    show ?thesis
    proof (rule settled [OF _ graph_kept [of sha s r rid]])
      show "round_of rid s' = Some (advance tnow AGGREGATING ''UPDATE_BARRIER'' None r)"
        using g barrier by simp
    qed (use g barrier in \<open>simp_all add: transition_allowed_def advance_frozen update same\<close>)
  qed
qed

lemma complete_participant_graphs:
  assumes "keys_ok s" "graphs_ok sha s"
    and "complete_participant now tnow rid client idem_key digest s = (res, s')"
  shows "graphs_ok sha s'"
proof (cases res)
  case (Inl e)
  with assms method_errors(10) show ?thesis by metis
next
  case (Inr x)
  then have run: "complete_participant now tnow rid client idem_key digest s = (Inr x, s')" using assms(3) by simp
  have keys: "keys_ok s'" using keys.g_complete_participant assms by (blast dest: guaranteesD)
  have others: "others_same rid s s'" using isolation.g_complete_participant assms(3) by (blast dest: guaranteesD)
  note settled = graphs_settled [OF assms(2) keys others]
  let ?done = "\<lambda>p. p\<lparr>p_completed := True, p_state := PARTICIPANT_COMPLETED, p_last_seen := now\<rparr>"
  have update: "participants_of rid (participants_update (update_where P ?done) t)
      = update_where P ?done (participants_of rid t)" for P t
    by (rule participants_of_update) simp
  have same: "map (\<lambda>p. (p_client p, p_public_key p)) (update_where P ?done ps)
      = map (\<lambda>p. (p_client p, p_public_key p)) ps" for P ps
    by (rule clients_keys_update) simp
  from assms(1) run show ?thesis
  proof (cases rule: complete_participant_ok)
    case replay
    with assms show ?thesis by simp
  next
    case (completed r s1 ev)
    note g = graph_of [OF assms(2) completed(2)]
    show ?thesis
      by (rule settled [OF _ graph_kept [of sha s r rid s' r]]) (use g completed in \<open>simp_all add: update same\<close>)
  next
    case (barrier r s1 ev ev')
    note g = graph_of [OF assms(2) barrier(2)]
    show ?thesis
    proof (rule settled [OF _ graph_kept [of sha s r rid]])
      show "round_of rid s' = Some (advance tnow COMPLETED ''COMPLETION_BARRIER'' None r)"
        using g barrier by simp
    qed (use g barrier in \<open>simp_all add: transition_allowed_def advance_frozen update same\<close>)
  qed
qed

lemma complete_job_graphs:
  assumes "keys_ok s" "graphs_ok sha s"
    and "complete_job now tnow job_id rid token stored tag s = (res, s')"
  shows "graphs_ok sha s'"
proof (cases res)
  case (Inl e)
  with assms method_errors(8) show ?thesis by metis
next
  case (Inr u)
  have keys: "keys_ok s'" using keys.g_complete_job assms by (blast dest: guaranteesD)
  have others: "others_same rid s s'" using isolation.g_complete_job assms(3) by (blast dest: guaranteesD)
  from Inr assms(3) have "complete_job now tnow job_id rid token stored tag s = (Inr u, s')" by simp
  with assms(1) show ?thesis
  proof (cases rule: complete_job_ok)
    case (1 r s1 ev j)
    note g = graph_of [OF assms(2) 1(1)]
    have views: "participants_of rid s1 = participants_of rid s" "plans_of rid s1 = plans_of rid s"
      "tasks_of rid s1 = tasks_of rid s" "deps_of rid s1 = deps_of rid s"
      "task_receipts_of rid s1 = task_receipts_of rid s" "finals_of rid s1 = finals_of rid s"
      "receipts_of rid s1 = receipts_of rid s" "round_of rid s1 = round_of rid s"
      using 1(6) by auto
    show ?thesis
    proof (rule graphs_settled [OF assms(2) keys others _ graph_kept [of sha s r rid]])
      show "round_of rid s' = Some (advance tnow RESULT_READY ''AGGREGATION_COMPLETED'' None r)"
        using g 1(1) views by (simp add: 1(7))
    qed (use g 1(2) views in \<open>simp_all add: 1(7) transition_allowed_def advance_frozen\<close>)
  qed
qed

section \<open>The plan is committed\<close>

lemma empty_views:
  assumes "task_graph sha s r" "status r \<in> {CREATED, REGISTRATION_OPEN, KEY_SETUP}"
  shows "plans_of (round_id r) s = []" "tasks_of (round_id r) s = []" "deps_of (round_id r) s = []"
    "task_receipts_of (round_id r) s = []" "finals_of (round_id r) s = []" "receipts_of (round_id r) s = []"
proof -
  show plans: "plans_of (round_id r) s = []"
    using assms plan_followedD(1) by (cases "plans_of (round_id r) s") (auto simp: task_graph_def)
  then show "tasks_of (round_id r) s = []" "deps_of (round_id r) s = []"
    "task_receipts_of (round_id r) s = []" "finals_of (round_id r) s = []" "receipts_of (round_id r) s = []"
    using assms(1) by (simp_all add: task_graph_def)
qed

lemma metadata_task_row [simp]: "task_metadata (task_row rid t) = t"
  by (simp add: task_metadata_def task_row_def)

lemma fresh_done: "done_ids (map (task_row rid) ts) = {}"
  by (auto simp: done_ids_def task_row_def split: if_splits)

lemma fresh_progress: "progress_ok (map (task_row rid) ts)"
  unfolding progress_ok_def fresh_done by (simp add: task_row_def)

lemma planned_graph:
  assumes graph: "task_graph sha s r" and "round_id r = rid" "status r = KEY_SETUP"
    and plan: "create_tree_plan sha r now s1 = (Inr (), s2)"
    and views: "plans_of rid s1 = []" "tasks_of rid s1 = []" "deps_of rid s1 = []"
      "task_receipts_of rid s1 = []" "finals_of rid s1 = []" "receipts_of rid s1 = []"
    and count: "0 < expected_count r"
    and s': "s' = logged [ev'] (advanced tnow rid KEY_AGGREGATION ''KEY_SETUP_BARRIER'' None s2)"
  shows "task_graph sha s' (advance tnow KEY_AGGREGATION ''KEY_SETUP_BARRIER'' None r)"
  using plan
proof (rule create_tree_plan_ok)
  let ?r = "advance tnow KEY_AGGREGATION ''KEY_SETUP_BARRIER'' None r"
  fix ps plan
  assume ps: "ps = sort_key p_client (participants_of (round_id r) s1)"
    and derived: "derive_tree_plan sha r (manifest_of ps) = Inr plan"
    and s2: "s2 = logged [event (round_id r) ''coordinator'' ''TREE_PLAN_COMMITTED'' None now (Some (tree_plan_hash sha plan))]
      (task_dependencies_update (\<lambda>ds. ds @ concat (map (dependency_rows (round_id r)) (plan_tasks plan)))
        (key_tasks_update (\<lambda>ts. ts @ map (task_row (round_id r)) (plan_tasks plan))
          (tree_plans_update (\<lambda>pls. pls @ [\<lparr>tp_round = round_id r, tp_hash = tree_plan_hash sha plan,
             tp_plan = plan, tp_manifest = manifest_of ps, tp_created = now\<rparr>]) s1)))"
  let ?p = "\<lparr>tp_round = rid, tp_hash = tree_plan_hash sha plan, tp_plan = plan,
    tp_manifest = manifest_of ps, tp_created = now\<rparr>"
  have at: "plans_of rid s' = [?p]" "tasks_of rid s' = map (task_row rid) (plan_tasks plan)"
    "deps_of rid s' = concat (map (dependency_rows rid) (plan_tasks plan))"
    "task_receipts_of rid s' = []" "finals_of rid s' = []" "receipts_of rid s' = []"
    "participants_of rid s' = participants_of rid s1"
    using views assms(2)
    by (simp_all add: s' s2 plans_of_def tasks_of_def deps_of_def task_receipts_of_def finals_of_def
        receipts_of_def participants_of_def filter_map comp_def task_row_def filter_concat dependency_rows_def [abs_def])
  have "derive_tree_plan sha ?r (manifest_of ps) = Inr plan"
    using derived derive_tree_plan_row [of ?r r sha] advance_frozen [of tnow KEY_AGGREGATION _ None r]
    by (simp add: frozen_def)
  then have "plan_followed sha s' ?r ?p"
    using assms(2) fresh_progress ps by (simp add: plan_followed_def Let_def at comp_def fresh_done)
  with count assms(2) show ?thesis
    by (simp add: task_graph_def at reached_def)
qed

text \<open>A commitment changes nothing of what the graph depends on.\<close>

lemma key_complete_graphs:
  assumes "keys_ok s" "barriers_ok s" "graphs_ok sha s"
    and "key_complete sha now tnow rid client commitment idem_key digest s = (res, s')"
  shows "graphs_ok sha s'"
proof -
  have keys: "keys_ok s'" using keys.g_key_complete assms by (blast dest: guaranteesD)
  have others: "others_same rid s s'" using isolation.g_key_complete assms(4) by (blast dest: guaranteesD)
  note settled = graphs_settled [OF assms(3) keys others]
  have update: "participants_of rid (participants_update (update_where P (commit_context now commitment)) t)
      = update_where P (commit_context now commitment) (participants_of rid t)" for P t
    by (rule participants_of_update) (simp add: commit_context_def)
  have same: "map (\<lambda>p. (p_client p, p_public_key p)) (update_where P (commit_context now commitment) ps)
      = map (\<lambda>p. (p_client p, p_public_key p)) ps" for P ps
    by (rule clients_keys_update) (simp add: commit_context_def)
  from assms(1,4) show ?thesis
  proof (cases rule: key_complete_ok)
    case same
    with assms(3) show ?thesis by simp
  next
    case (committed r p s1 ev)
    note g = graph_of [OF assms(3) committed(2)]
    show ?thesis
      by (rule settled [OF _ graph_kept [of sha s r rid s' r]]) (use g committed in \<open>simp_all add: update same\<close>)
  next
    case (mismatch r p s1 ev ev')
    note g = graph_of [OF assms(3) mismatch(2)]
    show ?thesis
    proof (rule settled [OF _ graph_kept [of sha s r rid]])
      show "round_of rid s' = Some (advance tnow FAILED ''KEY_CONTEXT_MISMATCH'' None r)"
        using g mismatch(2,6,8) by simp
    qed (use g mismatch(2,4,6,8) in \<open>simp_all add: transition_allowed_def advance_frozen\<close>)
  next
    case (plain r p s1 ev ev')
    note g = graph_of [OF assms(3) plain(2)]
    show ?thesis
    proof (rule settled [OF _ graph_kept [of sha s r rid]])
      show "round_of rid s' = Some (advance tnow UPDATE_COLLECTION ''KEY_SETUP_BARRIER'' None r)"
        using g plain(2,7,10) by simp
    qed (use g plain(2,4,5,7,10) in \<open>simp_all add: transition_allowed_def advance_frozen\<close>)
  next
    case (planned r p s1 s2 ev ev')
    note g = graph_of [OF assms(3) planned(2)]
    have early: "status r \<in> {CREATED, REGISTRATION_OPEN, KEY_SETUP}" using planned(4) by simp
    have "p \<in> set (participants_of (round_id r) s)"
      using participant_of_in [OF planned(3)] participant_of_keys [OF planned(3)] g
      by (simp add: participants_of_def)
    with barriers_of [OF assms(2) planned(2)] barriersD(2) have "0 < expected_count r"
      by (metis length_pos_if_in_set)
    note graph = planned_graph [OF conjunct1 [OF g] conjunct2 [OF g] planned(4,10) _ _ _ _ _ _ this planned(11)]
    show ?thesis
    proof (rule settled [OF _ graph])
      show "round_of rid s' = Some (advance tnow KEY_AGGREGATION ''KEY_SETUP_BARRIER'' None r)"
        using g planned(2,7,11) create_tree_plan_views [OF planned(10)] by simp
    qed (use empty_views [OF conjunct1 [OF g] early] g planned(7) in simp_all)
  qed
qed

text \<open>A new round has no rows beside its participants.\<close>

lemma create_round_graphs:
  assumes "keys_ok s" "refs_ok s" "graphs_ok sha s"
    and "create_round now rid federation version schema schema_hash clients manifest_hash ttl retention
      actor idem_key digest s = (res, s')"
  shows "graphs_ok sha s'"
proof (cases res)
  case (Inl e)
  with assms method_errors(1) show ?thesis by metis
next
  case (Inr x)
  with assms(4) have "create_round now rid federation version schema schema_hash clients manifest_hash ttl
      retention actor idem_key digest s = (Inr (fst x, snd x), s')" by simp
  then show ?thesis
  proof (cases rule: create_round_ok)
    case replay
    with assms show ?thesis by simp
  next
    case (created r)
    have task: "\<not> task_exists rid tid s" for tid
      using assms(2) created(2) by (auto simp: refs_ok_def list_all_iff task_exists_def list_ex_iff)
    from created(2) assms(2) task
    have "plans_of rid s = []" "tasks_of rid s = []" "deps_of rid s = []" "task_receipts_of rid s = []"
      "finals_of rid s = []" "receipts_of rid s = []"
      by (fastforce simp: plans_of_def tasks_of_def deps_of_def task_receipts_of_def finals_of_def
          receipts_of_def filter_empty_conv refs_ok_def list_all_iff)+
    then have "task_graph sha s' r"
      using created by (simp add: task_graph_def new_round_def reached_def)
    moreover have "task_graph sha s' q" if q: "q \<in> set (rounds s)" for q
    proof -
      have "round_id q \<noteq> rid" using created(2) q by (auto simp: round_exists_def list_ex_iff)
      then have "participants_of (round_id q) s' = participants_of (round_id q) s"
        using created by (auto simp: participants_of_def new_participant_def filter_empty_conv)
      moreover have "task_graph sha s q" using assms(3) q by (simp add: graphs_ok_def)
      ultimately show ?thesis
        using created by (intro graph_kept [of sha s q "round_id q" s' q, OF _ refl]) simp_all
    qed
    ultimately show ?thesis using created by (simp add: graphs_ok_def)
  qed
qed

section \<open>Progress of the tasks\<close>

lemma tasks_of_update:
  "(\<And>t. t_round (f t) = t_round t) \<Longrightarrow>
   tasks_of rid (key_tasks_update (update_where P f) s) = update_where P f (tasks_of rid s)"
  by (simp add: tasks_of_def filter_update_where)

lemma release_tasks_update:
  "release_tasks rid s = key_tasks_update
     (update_where (\<lambda>t. t_round t = rid \<and> t_state t = WAITING \<and> \<not> blocked s t) (\<lambda>t. t\<lparr>t_state := READY\<rparr>)) s"
  by (simp add: release_tasks_def)

lemma tasks_of_release:
  "tasks_of rid (release_tasks rid s) = update_where (\<lambda>t. t_round t = rid \<and> t_state t = WAITING \<and> \<not> blocked s t)
     (\<lambda>t. t\<lparr>t_state := READY\<rparr>) (tasks_of rid s)"
  unfolding release_tasks_update by (rule tasks_of_update) simp

lemma metadata_update:
  "(\<And>t. task_metadata (f t) = task_metadata t) \<Longrightarrow> map task_metadata (update_where P f ts) = map task_metadata ts"
  by (rule map_update_where)

lemma progress_okD:
  assumes "progress_ok ts" "t \<in> set ts"
  shows "t_state t = WAITING \<longleftrightarrow> \<not> set (dependencies t) \<subseteq> done_ids ts"
    "t_state t \<in> {ARTIFACT_UPLOADED, TASK_COMPLETED} \<longleftrightarrow> t_artifact t \<noteq> None"
    "t_artifact t \<noteq> None \<Longrightarrow> t_ciphertext_digest t \<noteq> None"
  using assms unfolding progress_ok_def by blast+

text \<open>Uploading turns ready rows into uploaded ones and completes nothing.\<close>

lemma upload_progress:
  assumes "progress_ok ts" and "\<And>t. P t \<Longrightarrow> t_state t = READY"
  shows "progress_ok (update_where P (upload_task stored dg nonce sig) ts)"
    "done_ids (update_where P (upload_task stored dg nonce sig) ts) = done_ids ts"
proof -
  show same: "done_ids (update_where P (upload_task stored dg nonce sig) ts) = done_ids ts"
    using assms(2) by (fastforce simp: done_ids_def set_update_where upload_task_def)
  show "progress_ok (update_where P (upload_task stored dg nonce sig) ts)"
    unfolding progress_ok_def same set_update_where
  proof
    fix u assume "u \<in> (\<lambda>t. if P t then upload_task stored dg nonce sig t else t) ` set ts"
    then obtain t where t: "t \<in> set ts" "u = (if P t then upload_task stored dg nonce sig t else t)" by blast
    from progress_okD [OF assms(1) t(1)] assms(2) [of t] t(2)
    show "(t_state u = WAITING) = (\<not> set (dependencies u) \<subseteq> done_ids ts) \<and>
        (t_state u \<in> {ARTIFACT_UPLOADED, TASK_COMPLETED}) = (t_artifact u \<noteq> None) \<and>
        (t_artifact u \<noteq> None \<longrightarrow> t_ciphertext_digest u \<noteq> None)"
      by (cases "P t") (auto simp: upload_task_def)
  qed
qed

lemma done_ids_Cons: "done_ids (t # ts) = (if t_state t = TASK_COMPLETED then {task_id t} else {}) \<union> done_ids ts"
  by (auto simp: done_ids_def)

lemma done_ids_complete:
  "done_ids (update_where (\<lambda>u. task_id u = tid) (\<lambda>u. u\<lparr>t_state := TASK_COMPLETED, t_completed_at := now\<rparr>) ts)
     = done_ids ts \<union> (if tid \<in> task_id ` set ts then {tid} else {})"
proof (induction ts)
  case Nil
  show ?case by (simp add: done_ids_def)
qed (auto simp: done_ids_Cons)

text \<open>Completing a task and releasing the tasks that waited for it alone.\<close>

lemma complete_release_progress:
  assumes "progress_ok ts" "t \<in> set ts" "t_state t = ARTIFACT_UPLOADED" "task_id t = tid"
    and only: "\<And>u. u \<in> set ts \<Longrightarrow> task_id u = tid \<Longrightarrow> u = t"
    and us: "us = update_where (\<lambda>u. task_id u = tid) (\<lambda>u. u\<lparr>t_state := TASK_COMPLETED, t_completed_at := now\<rparr>) ts"
    and vs: "vs = update_where (\<lambda>u. t_state u = WAITING \<and> set (dependencies u) \<subseteq> done_ids us)
      (\<lambda>u. u\<lparr>t_state := READY\<rparr>) us"
  shows "progress_ok vs" "done_ids vs = insert tid (done_ids ts)"
proof -
  have "done_ids vs = done_ids us"
    unfolding vs by (fastforce simp: done_ids_def set_update_where)
  moreover have done_us: "done_ids us = insert tid (done_ids ts)"
    using assms(2,4) unfolding us done_ids_complete by auto
  ultimately show done_vs: "done_ids vs = insert tid (done_ids ts)" by simp
  show "progress_ok vs"
    unfolding progress_ok_def done_vs
  proof
    fix v assume "v \<in> set vs"
    then obtain u where u: "u \<in> set us"
      "v = (if t_state u = WAITING \<and> set (dependencies u) \<subseteq> done_ids us then u\<lparr>t_state := READY\<rparr> else u)"
      unfolding vs set_update_where by blast
    then obtain w where w: "w \<in> set ts"
      "u = (if task_id w = tid then w\<lparr>t_state := TASK_COMPLETED, t_completed_at := now\<rparr> else w)"
      unfolding us set_update_where by blast
    note p = progress_okD [OF assms(1) w(1)]
    show "(t_state v = WAITING) = (\<not> set (dependencies v) \<subseteq> insert tid (done_ids ts)) \<and>
        (t_state v \<in> {ARTIFACT_UPLOADED, TASK_COMPLETED}) = (t_artifact v \<noteq> None) \<and>
        (t_artifact v \<noteq> None \<longrightarrow> t_ciphertext_digest v \<noteq> None)"
    proof (cases "task_id w = tid")
      case True
      with only w(1) have "w = t" by simp
      with True p assms(3) u(2) w(2) done_us show ?thesis by auto
    next
      case False
      with p u(2) w(2) done_us show ?thesis by (cases "t_state w = WAITING") auto
    qed
  qed
qed

section \<open>The methods of key aggregation\<close>

lemma ordered_rows_cong:
  assumes "map task_metadata (tasks_of rid s') = map task_metadata (tasks_of rid s)"
    and "deps_of rid s' = deps_of rid s" "ordered_rows rid s"
  shows "ordered_rows rid s'"
proof -
  have "map task_id ts = map task_id (map task_metadata ts)" for ts by simp
  then have "map task_id (tasks_of rid s') = map task_id (tasks_of rid s)" by (metis assms(1))
  moreover have "deps_before {} (tasks_of rid s') = deps_before {} (tasks_of rid s)"
    by (metis assms(1) deps_before_metadata)
  ultimately show ?thesis using assms by (simp add: ordered_rows_def)
qed

lemma plan_of_plans: "plan_of rid s = (case plans_of rid s of [] \<Rightarrow> None | p # _ \<Rightarrow> Some p)"
proof -
  have "List.find Q xs = (case filter Q xs of [] \<Rightarrow> None | x # _ \<Rightarrow> Some x)" for Q and xs :: "plan_row list"
    by (induction xs) auto
  then show ?thesis by (simp add: plan_of_def plans_of_def)
qed

text \<open>In key aggregation the plan is there and followed.\<close>

lemma aggregation_plan:
  assumes "barriers_ok s" "graphs_ok sha s" "round_of rid s = Some r" "status r = KEY_AGGREGATION"
  obtains p ps where "plans_of rid s = p # ps" "plan_of rid s = Some p" "plan_followed sha s r p" "round_id r = rid"
proof -
  note g = graph_of [OF assms(2,3)]
  note b = barriers_of [OF assms(1,3)]
  from barriersD(6) [OF conjunct1 [OF b] assms(4)] assms(4)
  have "reached KEY_AGGREGATION (status r) \<and> protocol_version r = ''1.1''"
    by (simp add: reached_def)
  with g obtain p ps where "plans_of rid s = p # ps" "plan_followed sha s r p"
    by (cases "plans_of rid s") (auto simp: task_graph_def)
  with g show thesis by (intro that) (simp_all add: plan_of_plans)
qed

text \<open>What a method of key aggregation has to show: the rows still follow the plan.\<close>

lemma graph_rows:
  assumes "task_graph sha s r" "plans_of (round_id r) s = p # ps" "status r = KEY_AGGREGATION"
    and "plans_of (round_id r) s' = plans_of (round_id r) s"
    and "participants_of (round_id r) s' = participants_of (round_id r) s"
    and "map task_metadata (tasks_of (round_id r) s') = map task_metadata (tasks_of (round_id r) s)"
    and "deps_of (round_id r) s' = deps_of (round_id r) s"
    and "progress_ok (tasks_of (round_id r) s')"
    and "tr_task ` set (task_receipts_of (round_id r) s') = done_ids (tasks_of (round_id r) s')"
    and "finals_of (round_id r) s' \<noteq> [] \<longrightarrow> (\<forall>t\<in>set (tasks_of (round_id r) s'). t_state t = TASK_COMPLETED)"
    and "\<forall>k\<in>set (finals_of (round_id r) s'). fk_sender k = root_client_id (tp_plan p)"
    and "finals_of (round_id r) s' = [] \<longrightarrow> receipts_of (round_id r) s' = []"
    and "length (receipts_of (round_id r) s') < expected_count r"
  shows "task_graph sha s' r"
proof -
  from assms(1,2) have "plan_followed sha s r p" by (simp add: task_graph_def)
  note f = plan_followedD [OF this]
  have "plan_followed sha s' r p"
    unfolding plan_followed_def Let_def assms(5-7)
    by (intro conjI f(1-6) assms(8-11))
  with assms show ?thesis by (simp add: task_graph_def reached_def)
qed

lemma record_task_artifact_graphs:
  assumes "keys_ok s" "barriers_ok s" "graphs_ok sha s"
    and "record_task_artifact now rid client tid stored dg nonce sig idem_key digest s = (res, s')"
  shows "graphs_ok sha s'"
proof (cases res)
  case (Inl e)
  with assms method_errors(3) show ?thesis by metis
next
  case (Inr x)
  then have run: "record_task_artifact now rid client tid stored dg nonce sig idem_key digest s
      = (Inr (fst x, snd x), s')" using assms(4) by simp
  have keys: "keys_ok s'" using keys.g_record_task_artifact assms by (blast dest: guaranteesD)
  have others: "others_same rid s s'" using isolation.g_record_task_artifact assms(4) by (blast dest: guaranteesD)
  from run show ?thesis
  proof (cases rule: record_task_artifact_ok)
    case replay
    with assms show ?thesis by simp
  next
    case (recorded r t ev)
    from assms(2,3) recorded(3,4) obtain p ps where
      p: "plans_of rid s = p # ps" "plan_followed sha s r p" "round_id r = rid" by (rule aggregation_plan)
    note g = graph_of [OF assms(3) recorded(3)]
    note f = plan_followedD [OF p(2), unfolded p(3)]
    let ?P = "\<lambda>t. t_round t = rid \<and> task_id t = tid \<and> t_state t = READY"
    have rows: "tasks_of rid s' = update_where ?P (upload_task stored dg nonce sig) (tasks_of rid s)"
      using recorded(9) by (simp add: tasks_of_update upload_task_def)
    note progress = upload_progress [OF f(7), of ?P stored dg nonce sig, simplified]
    have meta: "map task_metadata (tasks_of rid s') = map task_metadata (tasks_of rid s)"
      unfolding rows by (rule metadata_update) (simp add: upload_task_def task_metadata_def)
    have "t \<in> set (tasks_of rid s)"
      using task_of_in [OF recorded(5)] task_of_keys [OF recorded(5)] by (simp add: tasks_of_def)
    with f(9) recorded(7) have "finals_of rid s = []" by auto
    moreover from this have "receipts_of rid s = []"
      using task_graphD(1) [OF conjunct1 [OF g]] p(3) by simp
    moreover have "0 < expected_count r" using task_graphD(2) [OF conjunct1 [OF g] recorded(4)] by simp
    moreover have "plans_of rid s' = plans_of rid s" "participants_of rid s' = participants_of rid s"
      "deps_of rid s' = deps_of rid s" "task_receipts_of rid s' = task_receipts_of rid s"
      "finals_of rid s' = finals_of rid s" "receipts_of rid s' = receipts_of rid s"
      using recorded(9) by simp_all
    ultimately have "task_graph sha s' r"
      using g p recorded(4) f(8) progress meta
      by (intro graph_rows [of sha s r p ps s']) (simp_all add: rows)
    with g recorded(3,9) show ?thesis by (intro graphs_settled [OF assms(3) keys others, of r]) simp_all
  qed
qed

lemma acknowledge_task_graphs:
  assumes "keys_ok s" "barriers_ok s" "graphs_ok sha s"
    and "acknowledge_task now rid client tid ad idem_key digest s = (res, s')"
  shows "graphs_ok sha s'"
proof (cases res)
  case (Inl e)
  with assms method_errors(4) show ?thesis by metis
next
  case (Inr x)
  with assms(4) have run: "acknowledge_task now rid client tid ad idem_key digest s = (Inr x, s')" by simp
  have keys: "keys_ok s'" using keys.g_acknowledge_task assms by (blast dest: guaranteesD)
  have others: "others_same rid s s'" using isolation.g_acknowledge_task assms(4) by (blast dest: guaranteesD)
  from run show ?thesis
  proof (cases rule: acknowledge_task_ok)
    case replay
    with assms show ?thesis by simp
  next
    case (acknowledged r t ev)
    from assms(2,3) acknowledged(2,3) obtain p ps where
      p: "plans_of rid s = p # ps" "plan_followed sha s r p" "round_id r = rid" by (rule aggregation_plan)
    note g = graph_of [OF assms(3) acknowledged(2)]
    note f = plan_followedD [OF p(2), unfolded p(3)]
    have ordered: "ordered_rows rid s" using plan_followed_ordered [OF p(2)] p(3) by simp
    let ?done = "\<lambda>t. t\<lparr>t_state := TASK_COMPLETED, t_completed_at := Some now\<rparr>"
    let ?receipt = "\<lparr>tr_round = rid, tr_task = tid, tr_actor = client, tr_digest = ad, tr_created = now\<rparr>"
    define s1 where "s1 = task_receipts_update (\<lambda>rs. rs @ [?receipt])
      (key_tasks_update (update_where (\<lambda>t. t_round t = rid \<and> task_id t = tid) ?done) s)"
    define us where "us = tasks_of rid s1"
    have t: "t \<in> set (tasks_of rid s)" "task_id t = tid"
      using task_of_in [OF acknowledged(4)] task_of_keys [OF acknowledged(4)] by (simp_all add: tasks_of_def)
    have us: "us = update_where (\<lambda>u. task_id u = tid) ?done (tasks_of rid s)"
      unfolding us_def s1_def
      by (simp add: tasks_of_update) (auto simp: tasks_of_def update_where_def)
    have meta: "map task_metadata us = map task_metadata (tasks_of rid s)"
      unfolding us by (rule metadata_update) (simp add: task_metadata_def)
    have ordered1: "ordered_rows rid s1"
    proof (rule ordered_rows_cong [OF _ _ ordered])
      show "map task_metadata (tasks_of rid s1) = map task_metadata (tasks_of rid s)"
        using meta by (simp add: us_def)
    qed (simp add: s1_def)
    have rows: "tasks_of rid s' = update_where (\<lambda>u. t_state u = WAITING \<and> set (dependencies u) \<subseteq> done_ids us)
        (\<lambda>u. u\<lparr>t_state := READY\<rparr>) us"
    proof -
      have "tasks_of rid s' = tasks_of rid (release_tasks rid s1)"
        unfolding acknowledged(9) s1_def by simp
      also have "\<dots> = update_where (\<lambda>t. t_round t = rid \<and> t_state t = WAITING \<and> \<not> blocked s1 t)
          (\<lambda>u. u\<lparr>t_state := READY\<rparr>) us"
        unfolding us_def by (rule tasks_of_release)
      also have "\<dots> = update_where (\<lambda>u. t_state u = WAITING \<and> set (dependencies u) \<subseteq> done_ids us)
        (\<lambda>u. u\<lparr>t_state := READY\<rparr>) us"
        using blocked_iff [OF ordered1] by (auto simp: us_def update_where_def tasks_of_def)
      finally show ?thesis .
    qed
    have only: "u = t" if "u \<in> set (tasks_of rid s)" "task_id u = tid" for u
      using task_row_unique [OF ordered that(1) t(1)] that(2) t(2) by simp
    note progress = complete_release_progress [OF f(7) t(1) acknowledged(6) t(2) only us rows]
    have meta': "map task_metadata (tasks_of rid s') = map task_metadata (tasks_of rid s)"
      unfolding rows meta [symmetric] by (rule metadata_update) (simp add: task_metadata_def)
    from f(9) acknowledged(6) t(1) have "finals_of rid s = []" by auto
    moreover from this have "receipts_of rid s = []"
      using task_graphD(1) [OF conjunct1 [OF g]] p(3) by simp
    moreover have "0 < expected_count r" using task_graphD(2) [OF conjunct1 [OF g] acknowledged(3)] by simp
    moreover have "plans_of rid s' = plans_of rid s" "participants_of rid s' = participants_of rid s"
      "deps_of rid s' = deps_of rid s" "task_receipts_of rid s' = task_receipts_of rid s @ [?receipt]"
      "finals_of rid s' = finals_of rid s" "receipts_of rid s' = receipts_of rid s"
      using acknowledged(9) by (simp_all add: release_tasks_update task_receipts_of_def)
    ultimately have "task_graph sha s' r"
      using g p acknowledged(3) f(8) progress meta'
      by (intro graph_rows [of sha s r p ps s']) simp_all
    with g acknowledged(2,9) show ?thesis
      by (intro graphs_settled [OF assms(3) keys others, of r]) (simp_all add: release_tasks_update)
  qed
qed

lemma incomplete_tasks_0:
  "incomplete_tasks rid s = 0 \<longleftrightarrow> (\<forall>t\<in>set (tasks_of rid s). t_state t = TASK_COMPLETED)"
  by (auto simp: incomplete_tasks_def tasks_of_def)

lemma final_of_finals: "final_of rid s = None \<longleftrightarrow> finals_of rid s = []"
  by (auto simp: final_of_def finals_of_def find_None_iff filter_empty_conv)

lemma record_final_key_graphs:
  assumes "keys_ok s" "barriers_ok s" "graphs_ok sha s"
    and "record_final_key now rid client stored dg nonce sig idem_key digest s = (res, s')"
  shows "graphs_ok sha s'"
proof (cases res)
  case (Inl e)
  with assms method_errors(5) show ?thesis by metis
next
  case (Inr x)
  with assms(4) have run: "record_final_key now rid client stored dg nonce sig idem_key digest s
      = (Inr (fst x, snd x), s')" by simp
  have keys: "keys_ok s'" using keys.g_record_final_key assms by (blast dest: guaranteesD)
  have others: "others_same rid s s'" using isolation.g_record_final_key assms(4) by (blast dest: guaranteesD)
  from run show ?thesis
  proof (cases rule: record_final_key_ok)
    case replay
    with assms show ?thesis by simp
  next
    case (recorded r pl ev)
    from assms(2,3) recorded(3,4) obtain p ps where
      p: "plans_of rid s = p # ps" "plan_of rid s = Some p" "plan_followed sha s r p" "round_id r = rid"
      by (rule aggregation_plan)
    note g = graph_of [OF assms(3) recorded(3)]
    note f = plan_followedD [OF p(3), unfolded p(4)]
    let ?k = "\<lparr>fk_round = rid, fk_artifact = object_id stored, fk_digest = dg,
      fk_nonce = nonce, fk_signature = sig, fk_sender = client, fk_created = now\<rparr>"
    have "finals_of rid s = []" using recorded(8) by (simp add: final_of_finals)
    with recorded(10) have finals: "finals_of rid s' = [?k]" by (simp add: finals_of_def)
    have "plans_of rid s' = plans_of rid s" "participants_of rid s' = participants_of rid s"
      "tasks_of rid s' = tasks_of rid s"
      "deps_of rid s' = deps_of rid s" "task_receipts_of rid s' = task_receipts_of rid s"
      "receipts_of rid s' = receipts_of rid s"
      using recorded(10) by simp_all
    moreover have "client = root_client_id (tp_plan p)" using recorded(5,6) p(2) by simp
    ultimately have "task_graph sha s' r"
      using g p recorded(4,7) f(7,8) finals task_graphD(2) [OF conjunct1 [OF g] recorded(4)]
      by (intro graph_rows [of sha s r p ps s']) (simp_all add: incomplete_tasks_0)
    with g recorded(3,10) show ?thesis by (intro graphs_settled [OF assms(3) keys others, of r]) simp_all
  qed
qed

text \<open>There are never more receipts than participants, so the count meets the expected one.\<close>

lemma receipts_bounded:
  assumes "keys_ok s" "barriers s r"
  shows "length (receipts_of (round_id r) s) \<le> expected_count r"
proof -
  let ?fs = "receipts_of (round_id r) s"
  have "distinct (map (\<lambda>f. (fr_round f, fr_client f)) ?fs)"
    using keys_okD(13) [OF assms(1)] by (simp add: receipts_of_def distinct_map_filter)
  then have "distinct (map fr_client ?fs)"
    by (auto simp: distinct_map inj_on_def receipts_of_def)
  then have "length ?fs = card (set (map fr_client ?fs))" using distinct_card [of "map fr_client ?fs"] by simp
  also have "\<dots> \<le> card (set (participants_json r))"
    using barriersD(3) [OF assms(2)] by (intro card_mono) auto
  also have "\<dots> \<le> length (participants_json r)" by (rule card_length)
  also have "\<dots> = expected_count r" using assms(2) by (simp add: barriers_def Let_def)
  finally show ?thesis .
qed

lemma acknowledge_final_key_graphs:
  assumes "keys_ok s" "barriers_ok s" "graphs_ok sha s"
    and member: "\<And>r. round_of rid s = Some r \<Longrightarrow> client \<in> set (participants_json r)"
    and "acknowledge_final_key now tnow rid client ad idem_key digest s = (res, s')"
  shows "graphs_ok sha s'"
proof (cases res)
  case (Inl e)
  with assms method_errors(6) show ?thesis by metis
next
  case (Inr x)
  with assms(5) have run: "acknowledge_final_key now tnow rid client ad idem_key digest s = (Inr x, s')" by simp
  have keys: "keys_ok s'" using keys.g_acknowledge_final_key assms by (blast dest: guaranteesD)
  have barriers: "barriers_ok s'"
    by (rule acknowledge_final_key_barriers [OF assms(1,2) member assms(5)]) simp
  have others: "others_same rid s s'" using isolation.g_acknowledge_final_key assms(5) by (blast dest: guaranteesD)
  from assms(1) run show ?thesis
  proof (cases rule: acknowledge_final_key_ok)
    case replay
    with assms show ?thesis by simp
  next
    case (acknowledged r k s1 ev)
    note g = graph_of [OF assms(3) acknowledged(2)]
    have final: "finals_of rid s \<noteq> []" using acknowledged(4) final_of_finals [of rid s] by auto
    have at: "round_of rid s' = Some r" using acknowledged by simp
    from acknowledged(7,8) have "length (receipts_of rid s') \<noteq> expected_count r"
      by (simp add: receipts_of_def count_where_def)
    with receipts_bounded [OF keys] barriers_of [OF barriers at] have
      "length (receipts_of rid s') < expected_count r" by (metis le_neq_implies_less)
    with g final have "task_graph sha s' r"
      by (intro task_graph_frame [of sha s r r s']) (simp_all add: acknowledged(6,8))
    with at show ?thesis by (rule graphs_settled [OF assms(3) keys others])
  next
    case (barrier r k s1 ev ev')
    note g = graph_of [OF assms(3) barrier(2)]
    have final: "finals_of rid s \<noteq> []" using barrier(4) final_of_finals [of rid s] by auto
    let ?r = "advance tnow UPDATE_COLLECTION ''FINAL_KEY_BARRIER'' None r"
    have at: "round_of rid s' = Some ?r" using barrier g by simp
    have "task_graph sha s' ?r"
      by (rule task_graph_frame [OF conjunct1 [OF g]])
        (use g final barrier(3) advance_frozen [of tnow UPDATE_COLLECTION "''FINAL_KEY_BARRIER''" None r]
          in \<open>simp_all add: barrier(6,8) transition_allowed_def frozen_def\<close>)
    with at show ?thesis by (rule graphs_settled [OF assms(3) keys others])
  qed
qed

end
