(* ===== verification/Task_Liveness.thy ===== *)
theory Task_Liveness
  imports Task_Methods
begin

text \<open>
  What the invariants give a participant of key aggregation: a task that is handed out has all of
  its inputs available to the client, somebody always has something to do, and every accepted
  action brings the round one step closer to its end.
\<close>

section \<open>Inputs\<close>

lemma done_idsE:
  assumes "d \<in> done_ids ts"
  obtains u where "u \<in> set ts" "task_id u = d" "t_state u = TASK_COMPLETED"
  using assms by (auto simp: done_ids_def)

lemma task_of_tasks:
  assumes "ordered_rows rid s" "u \<in> set (tasks_of rid s)"
  shows "task_of rid (task_id u) s = Some u"
proof -
  have u: "u \<in> set (key_tasks s)" "t_round u = rid" using assms(2) by (simp_all add: tasks_of_def)
  then have "task_of rid (task_id u) s \<noteq> None" by (auto simp: task_of_def find_None_iff)
  then obtain v where v: "task_of rid (task_id u) s = Some v" by auto
  then have "v \<in> set (tasks_of rid s)" "task_id v = task_id u"
    using task_of_in [OF v] task_of_keys [OF v] by (simp_all add: tasks_of_def)
  with task_row_unique [OF assms(1) _ assms(2)] v show ?thesis by simp
qed

lemma followed_flow:
  assumes "plan_followed sha s r p" "t \<in> set (tasks_of (round_id r) s)" "d \<in> set (dependencies t)"
  shows "\<exists>u\<in>set (tasks_of (round_id r) s). task_id u = d \<and> receiver u = sender t"
proof -
  note f = plan_followedD [OF assms(1)]
  from derive_tree_plan_cases [OF f(3)] obtain rt nodes where tree: "plan_tree (plan_groups (tp_plan p)) rt nodes"
    "plan_tasks (tp_plan p) = plan_task_list (plan_groups (tp_plan p)) rt nodes"
    by (auto simp: plan_targets_def)
  have "task_metadata t \<in> set (plan_tasks (tp_plan p))"
    using assms(2) by (simp flip: f(5))
  with plan_data_flow [OF tree(1), of "task_metadata t" d] assms(3) tree(2)
  obtain v where "v \<in> set (plan_tasks (tp_plan p))" "task_id v = d" "receiver v = sender t" by auto
  then show ?thesis by (auto simp flip: f(5))
qed

lemma next_readyD:
  assumes "next_ready rid client s = Some t"
  shows "t \<in> set (tasks_of rid s)" "sender t = client" "t_state t = READY"
proof -
  let ?rows = "filter (\<lambda>t. t_round t = rid \<and> sender t = client \<and> t_state t = READY) (key_tasks s)"
  from assms obtain ts where "sort_key task_order ?rows = t # ts" by (auto simp: next_ready_def split: list.splits)
  then have "t \<in> set (sort_key task_order ?rows)" by (metis list.set_intros(1))
  then show "t \<in> set (tasks_of rid s)" "sender t = client" "t_state t = READY"
    by (simp_all add: tasks_of_def)
qed

lemma next_ready_None:
  "next_ready rid client s = None \<longleftrightarrow> (\<forall>t\<in>set (tasks_of rid s). \<not> (sender t = client \<and> t_state t = READY))"
proof -
  have "next_ready rid client s = None \<longleftrightarrow>
      filter (\<lambda>t. t_round t = rid \<and> sender t = client \<and> t_state t = READY) (key_tasks s) = []"
    unfolding next_ready_def by (auto split: list.splits dest: arg_cong [where f = length])
  then show ?thesis by (auto simp: filter_empty_conv tasks_of_def)
qed

text \<open>Every dependency of a task that is not waiting can be downloaded by the sender of the task.\<close>

lemma inputs_available:
  assumes "refs_ok s" "plan_followed sha s r p" "plan_of (round_id r) s = Some p"
    and "round_of (round_id r) s = Some r"
    and "t \<in> set (tasks_of (round_id r) s)" "t_state t \<noteq> WAITING" "d \<in> set (dependencies t)"
  shows "\<exists>a m. task_artifact (round_id r) d (sender t) s = Inr (a, m) \<and> task_id m = d \<and>
    artifact_of (a_id a) s = Some a"
proof -
  note f = plan_followedD [OF assms(2)]
  note ordered = plan_followed_ordered [OF assms(2)]
  from followed_flow [OF assms(2,5,7)] obtain u where
    u: "u \<in> set (tasks_of (round_id r) s)" "task_id u = d" "receiver u = sender t" by blast
  have "d \<in> done_ids (tasks_of (round_id r) s)" using progress_okD(1) [OF f(7) assms(5)] assms(6,7) by auto
  with task_row_unique [OF ordered u(1)] u(2) have complete: "t_state u = TASK_COMPLETED"
    by (metis done_idsE)
  with progress_okD(2) [OF f(7) u(1)] obtain aid where aid: "t_artifact u = Some aid" by auto
  have "u \<in> set (key_tasks s)" using u(1) by (simp add: tasks_of_def)
  with assms(1) aid have "artifact_exists aid s" by (auto simp: refs_ok_def list_all_iff)
  then have "artifact_of aid s \<noteq> None" by (auto simp: artifact_exists_def artifact_of_def list_ex_iff find_None_iff)
  then obtain a where a: "artifact_of aid s = Some a" by auto
  then have "a_id a = aid" unfolding artifact_of_def by (rule find_SomeD1)
  with a u complete aid assms(3,4) task_of_tasks [OF ordered u(1)] show ?thesis
    by (simp add: task_artifact_def)
qed

section \<open>Somebody can act\<close>

text \<open>The first row that is not completed has all of its dependencies before it.\<close>

lemma first_incomplete:
  assumes "deps_before {} ts" "\<exists>t\<in>set ts. t_state t \<noteq> TASK_COMPLETED"
  shows "\<exists>t\<in>set ts. t_state t \<noteq> TASK_COMPLETED \<and> set (dependencies t) \<subseteq> done_ids ts"
proof -
  define n where "n = (LEAST i. i < length ts \<and> t_state (ts ! i) \<noteq> TASK_COMPLETED)"
  from assms(2) have "\<exists>i. i < length ts \<and> t_state (ts ! i) \<noteq> TASK_COMPLETED" by (auto simp: in_set_conv_nth)
  then have n: "n < length ts" "t_state (ts ! n) \<noteq> TASK_COMPLETED"
    unfolding n_def by (rule LeastI2_ex, blast)+
  have before: "t_state (ts ! j) = TASK_COMPLETED" if "j < n" for j
    using that n(1) not_less_Least [of j "\<lambda>i. i < length ts \<and> t_state (ts ! i) \<noteq> TASK_COMPLETED"]
    by (auto simp: n_def)
  have "set (dependencies (ts ! n)) \<subseteq> done_ids ts"
  proof
    fix d assume "d \<in> set (dependencies (ts ! n))"
    with deps_before_nth [OF assms(1) n(1)] obtain j where "j < n" "task_id (ts ! j) = d" by auto
    with before n(1) show "d \<in> done_ids ts" unfolding done_ids_def by (intro image_eqI [of _ _ "ts ! j"]) auto
  qed
  with n show ?thesis by (intro bexI [of _ "ts ! n"]) auto
qed

lemma operators_of_leaves:
  "children_first S ns \<Longrightarrow> \<forall>n\<in>set ns. inner_node lv n \<Longrightarrow> n \<in> set ns \<Longrightarrow> operator n \<in> operator ` S"
proof (induction ns arbitrary: S)
  case (Cons m ns)
  from Cons.prems(2) obtain op cs l a i where m: "m = Inner op cs l a i" "cs \<noteq> []" "op = operator (hd cs)"
    by (auto simp: inner_node_def)
  with Cons.prems(1) have op: "operator m \<in> operator ` S" by (auto simp: subset_iff)
  show ?case
  proof (cases "n = m")
    case False
    with Cons.prems have "operator n \<in> operator ` insert m S" by (intro Cons.IH) auto
    with op show ?thesis by auto
  qed (use op in simp)
qed simp

lemma plan_senders:
  assumes "plan_tree gs rt nodes" "t \<in> set (plan_task_list gs rt nodes)"
  shows "sender t \<in> set (concat (map members gs))"
proof -
  consider g where "g \<in> set gs" "t \<in> set (stage_tasks (plan_targets rt) g)"
    | n where "n \<in> set nodes" "sender t = operator n"
    using assms(2) by (auto simp: task_list_stages tree_task_def)
  then show ?thesis
  proof cases
    case 1
    with plan_tree_sizes [OF assms(1) 1(1)] have "sender t \<in> set (members g)"
      by (auto simp: stage_tasks_def group_tasks_eq add_task_def intro!: nth_mem)
    with 1 show ?thesis by auto
  next
    case 2
    have "operator n \<in> operator ` set (map group_leaf gs)"
      by (rule operators_of_leaves [OF plan_tree_first [OF assms(1)], of 0])
        (use plan_tree_inner_node [OF assms(1)] 2 in auto)
    then obtain g where g: "g \<in> set gs" "operator n = coordinator g" by auto
    with plan_tree_coordinator [OF assms(1) g(1)] plan_tree_sizes [OF assms(1) g(1)] have "operator n \<in> set (members g)"
      by (auto intro!: nth_mem)
    with g 2 show ?thesis by auto
  qed
qed

lemma followed_members:
  assumes "plan_followed sha s r p" "barriers s r"
  shows "set (concat (map members (plan_groups (tp_plan p)))) = set (participants_json r)"
proof -
  note f = plan_followedD [OF assms(1)]
  from derive_tree_plan_cases [OF f(3)] have
    "concat (map members (plan_groups (tp_plan p))) = plan_participants (tp_plan p)"
    "mset (plan_participants (tp_plan p)) = mset (map client_id (tp_manifest p))"
    by blast+
  then have "set (concat (map members (plan_groups (tp_plan p)))) = client_id ` set (tp_manifest p)"
    by (metis list.set_map set_mset_mset)
  also have "\<dots> = p_client ` set (participants_of (round_id r) s)"
    by (simp add: f(2) manifest_of_def image_image)
  also have "\<dots> = set (participants_json r)"
    using barriersD(1) [OF assms(2)] by (metis list.set_map)
  finally show ?thesis .
qed

lemma root_participant:
  assumes "plan_followed sha s r p" "barriers s r"
  shows "root_client_id (tp_plan p) \<in> set (participants_json r)"
proof -
  note f = plan_followedD [OF assms(1)]
  from derive_tree_plan_cases [OF f(3)] obtain rt nodes where tree: "plan_tree (plan_groups (tp_plan p)) rt nodes"
    "root_client_id (tp_plan p) = operator rt"
    by blast
  from tree(1) have "plan_groups (tp_plan p) \<noteq> []" by (simp add: plan_tree_def)
  then obtain g gs where gs: "plan_groups (tp_plan p) = g # gs" by (cases "plan_groups (tp_plan p)") auto
  have "members g \<noteq> []" using plan_tree_sizes [OF tree(1), of g] gs by auto
  moreover have "operator rt = members g ! 0"
    using plan_tree_operator [OF tree(1)] plan_tree_coordinator [OF tree(1), of g] gs by simp
  ultimately have "operator rt \<in> set (concat (map members (plan_groups (tp_plan p))))" using gs by simp
  with followed_members [OF assms] tree(2) show ?thesis by simp
qed

lemma sender_participant:
  assumes "plan_followed sha s r p" "barriers s r" "t \<in> set (tasks_of (round_id r) s)"
  shows "sender t \<in> set (participants_json r)"
proof -
  note f = plan_followedD [OF assms(1)]
  from derive_tree_plan_cases [OF f(3)] obtain rt nodes where tree: "plan_tree (plan_groups (tp_plan p)) rt nodes"
    "plan_tasks (tp_plan p) = plan_task_list (plan_groups (tp_plan p)) rt nodes"
    by (auto simp: plan_targets_def)
  have "task_metadata t \<in> set (plan_tasks (tp_plan p))" using assms(3) by (simp flip: f(5))
  with plan_senders [OF tree(1), of "task_metadata t"] tree(2)
  have "sender t \<in> set (concat (map members (plan_groups (tp_plan p))))" by simp
  then show ?thesis by (simp only: followed_members [OF assms(1,2)])
qed

text \<open>The receipt of the final key is missing for some participant while the round waits for it.\<close>

lemma missing_receipt:
  assumes "keys_ok s" "barriers s r" "length (receipts_of (round_id r) s) < expected_count r" "distinct (participants_json r)"
  shows "\<exists>c\<in>set (participants_json r). \<not> list_ex (\<lambda>f. fr_round f = round_id r \<and> fr_client f = c) (final_key_receipts s)"
proof (rule ccontr)
  assume "\<not> ?thesis"
  then have "set (participants_json r) \<subseteq> fr_client ` set (receipts_of (round_id r) s)"
    by (fastforce simp: list_ex_iff receipts_of_def)
  then have "card (set (participants_json r)) \<le> card (fr_client ` set (receipts_of (round_id r) s))"
    by (intro card_mono) auto
  also have "\<dots> \<le> length (receipts_of (round_id r) s)"
    by (metis card_length length_map list.set_map)
  also have "\<dots> < length (participants_json r)" using assms(2,3) by (simp add: barriers_def Let_def)
  also have "\<dots> = card (set (participants_json r))" using distinct_card [OF assms(4)] by simp
  finally show False by simp
qed

lemma participants_distinct:
  assumes "keys_ok s" "barriers s r"
  shows "distinct (participants_json r)"
proof -
  have "distinct (map (\<lambda>p. (p_round p, p_client p)) (participants_of (round_id r) s))"
    using keys_okD(2) [OF assms(1)] by (simp add: participants_of_def distinct_map_filter)
  then have "distinct (map p_client (participants_of (round_id r) s))"
    by (auto simp: distinct_map inj_on_def participants_of_def)
  then show ?thesis using barriersD(1) [OF assms(2)] by simp
qed

lemma somebody_acts:
  assumes "keys_ok s" "barriers_ok s" "graphs_ok sha s"
    and "round_of rid s = Some r" "status r = KEY_AGGREGATION"
  shows "(\<exists>t\<in>set (tasks_of rid s). t_state t = ARTIFACT_UPLOADED) \<or>
    (\<exists>c\<in>set (participants_json r). \<exists>a. next_key_action rid c s = Inr (Some a))"
proof -
  from assms(2-5) obtain p ps where
    p: "plan_of rid s = Some p" "plan_followed sha s r p" "round_id r = rid" by (rule aggregation_plan)
  note f = plan_followedD [OF p(2), unfolded p(3)]
  note b = conjunct1 [OF barriers_of [OF assms(2,4)]]
  have version: "protocol_version r = ''1.1''" using barriersD(6) [OF b assms(5)] .
  have ordered: "ordered_rows rid s" using plan_followed_ordered [OF p(2)] p(3) by simp
  show ?thesis
  proof (cases "\<exists>t\<in>set (tasks_of rid s). t_state t \<noteq> TASK_COMPLETED")
    case True
    with first_incomplete [of "tasks_of rid s"] ordered obtain t where
      t: "t \<in> set (tasks_of rid s)" "t_state t \<noteq> TASK_COMPLETED" "set (dependencies t) \<subseteq> done_ids (tasks_of rid s)"
      by (auto simp: ordered_rows_def)
    with progress_okD(1) [OF f(7) t(1)] have "t_state t = READY \<or> t_state t = ARTIFACT_UPLOADED"
      by (cases "t_state t") auto
    moreover have "\<exists>a. next_key_action rid (sender t) s = Inr (Some a)" if "t_state t = READY"
    proof -
      from that t(1) have "next_ready rid (sender t) s \<noteq> None" by (auto simp: next_ready_None)
      then show ?thesis using assms(4,5) version p(1) by (auto simp: next_key_action_def)
    qed
    ultimately show ?thesis using t(1) sender_participant [OF p(2) b] p(3) by auto
  next
    case complete: False
    then have none: "next_ready rid c s = None" for c by (auto simp: next_ready_None)
    have zero: "incomplete_tasks rid s = 0" using complete by (simp add: incomplete_tasks_0)
    show ?thesis
    proof (cases "final_of rid s")
      case None
      have "next_key_action rid (root_client_id (tp_plan p)) s
          = Inr (Some (Publish_Final (root_client_id (tp_plan p)) (root_task_id (tp_plan p)) (tp_hash p)))"
        using assms(4,5) version p(1) none zero None by (simp add: next_key_action_def)
      with root_participant [OF p(2) b] show ?thesis by blast
    next
      case (Some k)
      have "length (receipts_of (round_id r) s) < expected_count r"
        using task_graphD(2) assms(5) graph_of [OF assms(3,4)] by blast
      from missing_receipt [OF assms(1) b this participants_distinct [OF assms(1) b]] p(3) obtain c where
        c: "c \<in> set (participants_json r)" "\<not> list_ex (\<lambda>f. fr_round f = rid \<and> fr_client f = c) (final_key_receipts s)"
        by auto
      have "next_key_action rid c s = Inr (Some (Ack_Final (fk_sender k) c (tp_hash p)))"
        using assms(4,5) version p(1) none zero Some c(2) by (simp add: next_key_action_def)
      with c(1) show ?thesis by blast
    qed
  qed
qed

section \<open>Every accepted action is progress\<close>

fun task_work :: "task_state \<Rightarrow> nat" where
  "task_work WAITING = 2"
| "task_work READY = 2"
| "task_work ARTIFACT_UPLOADED = 1"
| "task_work TASK_COMPLETED = 0"

text \<open>The actions that a round in key aggregation still needs.\<close>

definition key_work :: "string \<Rightarrow> db \<Rightarrow> nat" where
  "key_work rid s = (\<Sum>t\<leftarrow>tasks_of rid s. task_work (t_state t)) + (if finals_of rid s = [] then 1 else 0) +
     (case round_of rid s of None \<Rightarrow> 0 | Some r \<Rightarrow> expected_count r - length (receipts_of rid s))"

lemma work_update_one:
  assumes "distinct (map task_id ts)" "t \<in> set ts" "task_id t = tid" "Q t"
    and "task_work (t_state (f t)) + 1 = task_work (t_state t)"
  shows "(\<Sum>u\<leftarrow>update_where (\<lambda>u. task_id u = tid \<and> Q u) f ts. task_work (t_state u)) + 1 = (\<Sum>u\<leftarrow>ts. task_work (t_state u))"
  using assms
proof (induction ts)
  case (Cons u us)
  show ?case
  proof (cases "u = t")
    case True
    have "update_where (\<lambda>u. task_id u = tid \<and> Q u) f us = us"
      by (rule update_where_none) (use Cons.prems(1,3) True in \<open>auto simp: rev_image_eqI\<close>)
    with True Cons.prems show ?thesis by simp
  next
    case False
    with Cons.prems have "t \<in> set us" by simp
    moreover from this Cons.prems have "task_id u \<noteq> tid" by auto
    ultimately show ?thesis using Cons by simp
  qed
qed simp

lemma work_update_same:
  "(\<And>u. P u \<Longrightarrow> task_work (t_state (f u)) = task_work (t_state u)) \<Longrightarrow>
   (\<Sum>u\<leftarrow>update_where P f ts. task_work (t_state u)) = (\<Sum>u\<leftarrow>ts. task_work (t_state u))"
  by (induction ts) auto

text \<open>The accepted actions of key aggregation that are not replays.\<close>

inductive key_step :: "string \<Rightarrow> db \<Rightarrow> db \<Rightarrow> bool" for rid where
  upload: "record_task_artifact now rid client tid stored dg nonce sig idem_key digest s = (Inr (resp, False), s')
    \<Longrightarrow> key_step rid s s'"
| acknowledge: "prior_response client rid (''key_task_ack:'' @ tid) idem_key s = None
    \<Longrightarrow> acknowledge_task now rid client tid ad idem_key digest s = (Inr resp, s') \<Longrightarrow> key_step rid s s'"
| publish: "record_final_key now rid client stored dg nonce sig idem_key digest s = (Inr (resp, False), s')
    \<Longrightarrow> key_step rid s s'"
| receipt: "prior_response client rid ''final_key_ack'' idem_key s = None
    \<Longrightarrow> (\<And>r. round_of rid s = Some r \<Longrightarrow> client \<in> set (participants_json r))
    \<Longrightarrow> acknowledge_final_key now tnow rid client ad idem_key digest s = (Inr resp, s') \<Longrightarrow> key_step rid s s'"

lemma tasks_update_mine:
  "(\<And>t. t_round (f t) = t_round t) \<Longrightarrow>
   tasks_of rid (key_tasks_update (update_where (\<lambda>t. t_round t = rid \<and> P t) f) s) = update_where P f (tasks_of rid s)"
  by (simp add: tasks_of_update) (auto simp: tasks_of_def update_where_def)

lemma upload_work:
  assumes "barriers_ok s" "graphs_ok sha s"
    and "record_task_artifact now rid client tid stored dg nonce sig idem_key digest s = (Inr (resp, False), s')"
  shows "key_work rid s' + 1 = key_work rid s"
  using assms(3)
proof (cases rule: record_task_artifact_ok)
  case (recorded r t ev)
  from assms(1,2) recorded(3,4) obtain p ps where
    p: "plan_followed sha s r p" "round_id r = rid" by (rule aggregation_plan)
  have t: "t \<in> set (tasks_of rid s)" "task_id t = tid"
    using task_of_in [OF recorded(5)] task_of_keys [OF recorded(5)] by (simp_all add: tasks_of_def)
  have rows: "tasks_of rid s' = update_where (\<lambda>t. task_id t = tid \<and> t_state t = READY)
      (upload_task stored dg nonce sig) (tasks_of rid s)"
    using recorded(9) by (simp add: tasks_update_mine upload_task_def)
  have "(\<Sum>u\<leftarrow>tasks_of rid s'. task_work (t_state u)) + 1 = (\<Sum>u\<leftarrow>tasks_of rid s. task_work (t_state u))"
    unfolding rows
    by (rule work_update_one) (use plan_followed_ordered [OF p(1)] p(2) t recorded(7)
      in \<open>auto simp: ordered_rows_def upload_task_def\<close>)
  moreover have "finals_of rid s' = finals_of rid s" "receipts_of rid s' = receipts_of rid s"
    "round_of rid s' = round_of rid s"
    using recorded(9) by simp_all
  ultimately show ?thesis by (simp add: key_work_def split: option.split)
qed simp

lemma acknowledge_work:
  assumes "barriers_ok s" "graphs_ok sha s"
    and "prior_response client rid (''key_task_ack:'' @ tid) idem_key s = None"
    and "acknowledge_task now rid client tid ad idem_key digest s = (Inr resp, s')"
  shows "key_work rid s' + 1 = key_work rid s"
  using assms(4)
proof (cases rule: acknowledge_task_ok)
  case replay
  with assms(3) show ?thesis by simp
next
  case (acknowledged r t ev)
  from assms(1,2) acknowledged(2,3) obtain p ps where
    p: "plan_followed sha s r p" "round_id r = rid" by (rule aggregation_plan)
  have t: "t \<in> set (tasks_of rid s)" "task_id t = tid"
    using task_of_in [OF acknowledged(4)] task_of_keys [OF acknowledged(4)] by (simp_all add: tasks_of_def)
  let ?done = "\<lambda>t. t\<lparr>t_state := TASK_COMPLETED, t_completed_at := Some now\<rparr>"
  let ?ts = "update_where (\<lambda>t. task_id t = tid \<and> True) ?done (tasks_of rid s)"
  define s1 where "s1 = task_receipts_update (\<lambda>rs. rs @ [\<lparr>tr_round = rid, tr_task = tid, tr_actor = client,
      tr_digest = ad, tr_created = now\<rparr>])
    (key_tasks_update (update_where (\<lambda>t. t_round t = rid \<and> task_id t = tid) ?done) s)"
  have "tasks_of rid s' = tasks_of rid (release_tasks rid s1)"
    unfolding acknowledged(9) s1_def by simp
  moreover have "tasks_of rid s1 = ?ts" unfolding s1_def by (simp add: tasks_update_mine)
  ultimately have rows: "tasks_of rid s' = update_where (\<lambda>t. t_round t = rid \<and> t_state t = WAITING \<and> \<not> blocked s1 t)
      (\<lambda>t. t\<lparr>t_state := READY\<rparr>) ?ts"
    by (simp only: tasks_of_release)
  have "(\<Sum>u\<leftarrow>tasks_of rid s'. task_work (t_state u)) = (\<Sum>u\<leftarrow>?ts. task_work (t_state u))"
    unfolding rows by (rule work_update_same) simp
  also have "\<dots> + 1 = (\<Sum>u\<leftarrow>tasks_of rid s. task_work (t_state u))"
    by (rule work_update_one) (use plan_followed_ordered [OF p(1)] p(2) t acknowledged(6)
      in \<open>auto simp: ordered_rows_def\<close>)
  finally have "(\<Sum>u\<leftarrow>tasks_of rid s'. task_work (t_state u)) + 1 = (\<Sum>u\<leftarrow>tasks_of rid s. task_work (t_state u))" .
  moreover have "finals_of rid s' = finals_of rid s" "receipts_of rid s' = receipts_of rid s"
    "round_of rid s' = round_of rid s"
    using acknowledged(9) by (simp_all add: release_tasks_update)
  ultimately show ?thesis by (simp add: key_work_def split: option.split)
qed

lemma publish_work:
  assumes "record_final_key now rid client stored dg nonce sig idem_key digest s = (Inr (resp, False), s')"
  shows "key_work rid s' + 1 = key_work rid s"
  using assms
proof (cases rule: record_final_key_ok)
  case (recorded r pl ev)
  have "finals_of rid s = []" using recorded(8) by (simp add: final_of_finals)
  moreover have "finals_of rid s' \<noteq> []" "tasks_of rid s' = tasks_of rid s" "receipts_of rid s' = receipts_of rid s"
    "round_of rid s' = round_of rid s"
    using recorded(10) by (simp_all add: finals_of_def)
  ultimately show ?thesis by (simp add: key_work_def split: option.split)
qed simp

lemma receipt_work:
  assumes "keys_ok s" "barriers_ok s" "graphs_ok sha s"
    and "prior_response client rid ''final_key_ack'' idem_key s = None"
    and "acknowledge_final_key now tnow rid client ad idem_key digest s = (Inr resp, s')"
  shows "key_work rid s' + 1 = key_work rid s"
  using assms(1,5)
proof (cases rule: acknowledge_final_key_ok)
  case replay
  with assms(4) show ?thesis by simp
next
  case (acknowledged r k s1 ev)
  have "length (receipts_of rid s) < expected_count r"
    using task_graphD(2) acknowledged(3) graph_of [OF assms(3) acknowledged(2)] by blast
  then show ?thesis
    using acknowledged(2) by (auto simp: key_work_def acknowledged(6,8) receipts_of_insert)
next
  case (barrier r k s1 ev ev')
  have "length (receipts_of rid s) < expected_count r"
    using task_graphD(2) barrier(3) graph_of [OF assms(3) barrier(2)] by blast
  then show ?thesis
    using barrier(2) by (auto simp: key_work_def barrier(6,8) receipts_of_insert)
qed

lemma key_step_work:
  assumes "key_step rid s s'" "keys_ok s" "barriers_ok s" "graphs_ok sha s"
  shows "key_work rid s' + 1 = key_work rid s"
  using assms(1)
proof (cases rule: key_step.cases)
  case upload
  show ?thesis by (rule upload_work [OF assms(3,4) upload])
next
  case acknowledge
  show ?thesis by (rule acknowledge_work [OF assms(3,4) acknowledge])
next
  case publish
  then show ?thesis by (rule publish_work)
next
  case receipt
  show ?thesis by (rule receipt_work [OF assms(2-4) receipt(1,3)])
qed

end
