(* ===== verification/Artifact_Links.thy ===== *)
theory Artifact_Links
  imports Task_Liveness
begin

text \<open>
  The artifact rows of a round against the rows that refer to them: task artifacts belong to
  the task, the round and the sender that the task row names, every update artifact is the one of a
  participant with its digest and tag, and the final key is the one published. The worker reads
  its inputs through these links, and the purge of a round relies on them.
\<close>

section \<open>Links\<close>

definition task_type :: "string \<Rightarrow> string" where
  "task_type tid = ''key_task:'' @ tid"

definition task_artifact_link :: "artifact_row \<Rightarrow> (string \<times> string \<times> string \<times> string) option" where
  "task_artifact_link a = (case a_client a of
     Some c \<Rightarrow> if take 9 (a_type a) = ''key_task:'' then Some (a_round a, drop 9 (a_type a), c, a_id a) else None
   | None \<Rightarrow> None)"

definition task_row_link :: "key_task_row \<Rightarrow> (string \<times> string \<times> string \<times> string) option" where
  "task_row_link t = map_option (\<lambda>aid. (t_round t, task_id t, sender t, aid)) (t_artifact t)"

definition update_artifact_link :: "artifact_row \<Rightarrow> (string \<times> string \<times> string \<times> string option) option" where
  "update_artifact_link a = (case a_client a of
     Some c \<Rightarrow> if a_type a = ''update'' then Some (a_round a, c, a_id a, Some (a_digest a)) else None
   | None \<Rightarrow> None)"

definition update_row_link :: "participant_row \<Rightarrow> (string \<times> string \<times> string \<times> string option) option" where
  "update_row_link p = map_option (\<lambda>aid. (p_round p, p_client p, aid, p_update_digest p)) (p_update_artifact p)"

definition final_artifact_link :: "artifact_row \<Rightarrow> (string \<times> string \<times> string) option" where
  "final_artifact_link a = (case a_client a of
     Some c \<Rightarrow> if a_type a = ''final_key'' then Some (a_round a, c, a_id a) else None
   | None \<Rightarrow> None)"

definition final_row_link :: "final_key_row \<Rightarrow> string \<times> string \<times> string" where
  "final_row_link k = (fk_round k, fk_sender k, fk_artifact k)"

definition links_ok :: "db \<Rightarrow> bool" where
  "links_ok s \<longleftrightarrow>
     set (List.map_filter task_artifact_link (artifacts s)) = set (List.map_filter task_row_link (key_tasks s)) \<and>
     set (List.map_filter update_artifact_link (artifacts s)) = set (List.map_filter update_row_link (participants s)) \<and>
     set (List.map_filter final_artifact_link (artifacts s)) = set (map final_row_link (final_keys s)) \<and>
     (\<forall>a\<in>set (artifacts s). a_client a = None \<longleftrightarrow> a_type a = ''result'') \<and>
     (\<forall>p\<in>set (participants s). p_update_artifact p \<noteq> None \<longrightarrow> p_integrity_tag p \<noteq> None)"

lemma map_filter_update_where:
  "(\<And>x. h (f x) = h x) \<Longrightarrow> List.map_filter h (update_where P f xs) = List.map_filter h xs"
  by (induction xs) (auto simp: List.map_filter_simps split: option.split)

lemma map_filter_none: "(\<And>x. x \<in> set xs \<Longrightarrow> h x = None) \<Longrightarrow> List.map_filter h xs = []"
  by (induction xs) (auto simp: List.map_filter_simps)

lemma map_filter_append [simp]: "List.map_filter h (xs @ ys) = List.map_filter h xs @ List.map_filter h ys"
  by (simp add: List.map_filter_def)

lemma in_map_filter: "y \<in> set (List.map_filter h xs) \<longleftrightarrow> (\<exists>x\<in>set xs. h x = Some y)"
  by (auto simp: List.map_filter_def image_iff)

text \<open>One row gains a link.\<close>

lemma map_filter_gain:
  assumes "x \<in> set xs" "P x" "\<And>y. y \<in> set xs \<Longrightarrow> P y \<Longrightarrow> y = x" "h x = None" "h (f x) = Some l"
  shows "set (List.map_filter h (update_where P f xs)) = insert l (set (List.map_filter h xs))"
proof -
  have "(\<exists>y\<in>set (update_where P f xs). h y = Some m) \<longleftrightarrow> m = l \<or> (\<exists>y\<in>set xs. h y = Some m)" for m
  proof
    assume "\<exists>y\<in>set (update_where P f xs). h y = Some m"
    then obtain y where "y \<in> set xs" "h (if P y then f y else y) = Some m" by (auto simp: set_update_where)
    with assms(3,5) show "m = l \<or> (\<exists>y\<in>set xs. h y = Some m)" by (cases "P y") auto
  next
    assume "m = l \<or> (\<exists>y\<in>set xs. h y = Some m)"
    then show "\<exists>y\<in>set (update_where P f xs). h y = Some m"
    proof
      assume "m = l"
      with assms(1,2,5) show ?thesis unfolding set_update_where by (intro bexI [of _ "f x"]) force+
    next
      assume "\<exists>y\<in>set xs. h y = Some m"
      then obtain y where y: "y \<in> set xs" "h y = Some m" by blast
      with assms(3,4) have "\<not> P y" by auto
      with y show ?thesis unfolding set_update_where by (intro bexI [of _ y]) force+
    qed
  qed
  then show ?thesis by (simp add: set_eq_iff in_map_filter)
qed

section \<open>Methods that keep the links\<close>

lemma links_cong:
  assumes "links_ok s" "artifacts s' = artifacts s" "final_keys s' = final_keys s"
    and "List.map_filter task_row_link (key_tasks s') = List.map_filter task_row_link (key_tasks s)"
    and "List.map_filter update_row_link (participants s') = List.map_filter update_row_link (participants s)"
    and "\<forall>p\<in>set (participants s'). p_update_artifact p \<noteq> None \<longrightarrow> p_integrity_tag p \<noteq> None"
  shows "links_ok s'"
  using assms by (simp add: links_ok_def)

lemma links_only_fails: "only_fails s s' \<Longrightarrow> links_ok s \<Longrightarrow> links_ok s'"
  by (auto simp: only_fails_def links_ok_def)

lemma links_tags: "links_ok s \<Longrightarrow> \<forall>p\<in>set (participants s). p_update_artifact p \<noteq> None \<longrightarrow> p_integrity_tag p \<noteq> None"
  unfolding links_ok_def by (elim conjE) assumption

text \<open>Rewriting participants without touching the columns of the update.\<close>

lemma links_participants:
  assumes "links_ok s" "artifacts s' = artifacts s" "final_keys s' = final_keys s"
    and "List.map_filter task_row_link (key_tasks s') = List.map_filter task_row_link (key_tasks s)"
    and ps: "participants s' = update_where P f (participants s)"
    and f: "\<And>p. p_round (f p) = p_round p \<and> p_client (f p) = p_client p \<and> p_update_artifact (f p) = p_update_artifact p \<and>
      p_update_digest (f p) = p_update_digest p \<and> p_integrity_tag (f p) = p_integrity_tag p"
  shows "links_ok s'"
proof (rule links_cong [OF assms(1-4)])
  show "List.map_filter update_row_link (participants s') = List.map_filter update_row_link (participants s)"
    unfolding ps by (rule map_filter_update_where) (simp add: update_row_link_def f)
  show "\<forall>p\<in>set (participants s'). p_update_artifact p \<noteq> None \<longrightarrow> p_integrity_tag p \<noteq> None"
    using links_tags [OF assms(1)] f by (auto simp: ps set_update_where simp del: not_None_eq)
qed

lemma record_json_slot_links:
  assumes "keys_ok s" "links_ok s"
    and "record_json_slot now tnow rid client body idem_key digest s = (res, s')"
  shows "links_ok s'"
proof (cases res)
  case (Inl e)
  with assms method_errors(2) show ?thesis by metis
next
  case (Inr x)
  then have run: "record_json_slot now tnow rid client body idem_key digest s = (Inr (fst x, snd x), s')"
    using assms(3) by simp
  have fill: "p_round (fill_slot now body p) = p_round p \<and> p_client (fill_slot now body p) = p_client p \<and>
      p_update_artifact (fill_slot now body p) = p_update_artifact p \<and>
      p_update_digest (fill_slot now body p) = p_update_digest p \<and>
      p_integrity_tag (fill_slot now body p) = p_integrity_tag p" for p
    by (cases body) auto
  from assms(1) run show ?thesis
  proof (cases rule: record_json_slot_ok)
    case replay
    with assms show ?thesis by simp
  next
    case recorded
    then show ?thesis by (intro links_participants [OF assms(2) _ _ _ _ fill]) simp_all
  next
    case barrier
    then show ?thesis by (intro links_participants [OF assms(2) _ _ _ _ fill]) simp_all
  qed
qed

lemma complete_participant_links:
  assumes "keys_ok s" "links_ok s"
    and "complete_participant now tnow rid client idem_key digest s = (res, s')"
  shows "links_ok s'"
proof (cases res)
  case (Inl e)
  with assms method_errors(10) show ?thesis by metis
next
  case (Inr x)
  with assms(3) have "complete_participant now tnow rid client idem_key digest s = (Inr x, s')" by simp
  with assms(1) show ?thesis
  proof (cases rule: complete_participant_ok)
    case replay
    with assms show ?thesis by simp
  next
    case completed
    then show ?thesis by (intro links_participants [OF assms(2), of s'
      _ "\<lambda>p. p\<lparr>p_completed := True, p_state := PARTICIPANT_COMPLETED, p_last_seen := now\<rparr>"]) simp_all
  next
    case barrier
    then show ?thesis by (intro links_participants [OF assms(2), of s'
      _ "\<lambda>p. p\<lparr>p_completed := True, p_state := PARTICIPANT_COMPLETED, p_last_seen := now\<rparr>"]) simp_all
  qed
qed

lemma acknowledge_final_key_links:
  assumes "keys_ok s" "links_ok s"
    and "acknowledge_final_key now tnow rid client ad idem_key digest s = (res, s')"
  shows "links_ok s'"
proof (cases res)
  case (Inl e)
  with assms method_errors(6) show ?thesis by metis
next
  case (Inr x)
  with assms(3) have "acknowledge_final_key now tnow rid client ad idem_key digest s = (Inr x, s')" by simp
  with assms(1) show ?thesis
    by (cases rule: acknowledge_final_key_ok)
      (use assms(2) links_tags [OF assms(2)] in \<open>auto intro: links_cong [OF assms(2)]\<close>)
qed

lemma acknowledge_task_links:
  assumes "links_ok s" and "acknowledge_task now rid client tid ad idem_key digest s = (res, s')"
  shows "links_ok s'"
proof (cases res)
  case (Inl e)
  with assms method_errors(4) show ?thesis by metis
next
  case (Inr x)
  with assms(2) have "acknowledge_task now rid client tid ad idem_key digest s = (Inr x, s')" by simp
  then show ?thesis
  proof (cases rule: acknowledge_task_ok)
    case replay
    with assms show ?thesis by simp
  next
    case (acknowledged r t ev)
    have keep: "List.map_filter task_row_link (update_where P (\<lambda>t. t\<lparr>t_state := TASK_COMPLETED, t_completed_at := Some now\<rparr>) ts)
        = List.map_filter task_row_link ts"
      "List.map_filter task_row_link (update_where P (\<lambda>t. t\<lparr>t_state := READY\<rparr>) ts) = List.map_filter task_row_link ts" for P ts
      by (rule map_filter_update_where, simp add: task_row_link_def)+
    from acknowledged(9) links_tags [OF assms(1)] show ?thesis
      by (intro links_cong [OF assms(1)]) (simp_all add: release_tasks_update keep)
  qed
qed

lemma fresh_rows_links: "List.map_filter task_row_link (map (task_row rid) ts) = []"
  by (rule map_filter_none) (auto simp: task_row_link_def task_row_def)

lemma key_complete_links:
  assumes "keys_ok s" "links_ok s"
    and "key_complete sha now tnow rid client commitment idem_key digest s = (res, s')"
  shows "links_ok s'"
proof -
  have commit: "p_round (commit_context now commitment p) = p_round p \<and> p_client (commit_context now commitment p) = p_client p \<and>
      p_update_artifact (commit_context now commitment p) = p_update_artifact p \<and>
      p_update_digest (commit_context now commitment p) = p_update_digest p \<and>
      p_integrity_tag (commit_context now commitment p) = p_integrity_tag p" for p
    by (simp add: commit_context_def)
  note kept = links_participants [OF assms(2) _ _ _ _ commit]
  from assms(1,3) show ?thesis
  proof (cases rule: key_complete_ok)
    case same
    with assms show ?thesis by simp
  next
    case committed
    then show ?thesis by (intro kept) simp_all
  next
    case mismatch
    then show ?thesis by (intro kept) simp_all
  next
    case plain
    then show ?thesis by (intro kept) simp_all
  next
    case (planned r p s1 s2 ev ev')
    from planned(10) have "\<exists>ts. key_tasks s2 = key_tasks s1 @ map (task_row (round_id r)) ts \<and>
        artifacts s2 = artifacts s1 \<and> final_keys s2 = final_keys s1 \<and> participants s2 = participants s1"
      by (rule create_tree_plan_ok) auto
    with planned(7,11) show ?thesis by (intro kept) (auto simp: fresh_rows_links)
  qed
qed

lemma create_round_links:
  assumes "links_ok s"
    and "create_round now rid federation version schema schema_hash clients manifest_hash ttl retention
      actor idem_key digest s = (res, s')"
  shows "links_ok s'"
proof (cases res)
  case (Inl e)
  with assms method_errors(1) show ?thesis by metis
next
  case (Inr x)
  with assms(2) have "create_round now rid federation version schema schema_hash clients manifest_hash ttl
      retention actor idem_key digest s = (Inr (fst x, snd x), s')" by simp
  then show ?thesis
  proof (cases rule: create_round_ok)
    case replay
    with assms show ?thesis by simp
  next
    case (created r)
    have "List.map_filter update_row_link (map (new_participant rid now) clients) = []"
      by (rule map_filter_none) (auto simp: update_row_link_def new_participant_def)
    with created(7) links_tags [OF assms(1)] show ?thesis
      by (intro links_cong [OF assms(1)]) (auto simp: new_participant_def)
  qed
qed

section \<open>Methods that store an artifact\<close>

lemma artifact_for_simps [simp]:
  "a_id (artifact_for stored rid c kind now) = object_id stored"
  "a_round (artifact_for stored rid c kind now) = rid"
  "a_client (artifact_for stored rid c kind now) = c"
  "a_type (artifact_for stored rid c kind now) = kind"
  "a_digest (artifact_for stored rid c kind now) = stored_digest stored"
  by (simp_all add: artifact_for_def)

text \<open>\<open>UNIQUE(round_id, client_id, artifact_type)\<close>: a stored artifact was the first of its kind.\<close>

lemma first_of_kind:
  assumes "keys_ok s'" "artifacts s' = artifacts s @ [artifact_for stored rid (Some c) kind now]"
    and "a \<in> set (artifacts s)" "a_round a = rid" "a_client a = Some c"
  shows "a_type a \<noteq> kind"
  using keys_okD(14) [OF assms(1)] assms(2-) by (force simp: image_iff)

lemma map_filter_snoc: "List.map_filter h (xs @ [x]) = List.map_filter h xs @ (case h x of None \<Rightarrow> [] | Some y \<Rightarrow> [y])"
  by (cases "h x") (simp_all add: List.map_filter_def)

lemma record_task_artifact_links:
  assumes "keys_ok s" "links_ok s"
    and "record_task_artifact now rid client tid stored dg nonce sig idem_key digest s = (res, s')"
  shows "links_ok s'"
proof (cases res)
  case (Inl e)
  with assms method_errors(3) show ?thesis by metis
next
  case (Inr x)
  then have run: "record_task_artifact now rid client tid stored dg nonce sig idem_key digest s
      = (Inr (fst x, snd x), s')" using assms(3) by simp
  have keys: "keys_ok s'" using keys.g_record_task_artifact assms by (blast dest: guaranteesD)
  from run show ?thesis
  proof (cases rule: record_task_artifact_ok)
    case replay
    with assms show ?thesis by simp
  next
    case (recorded r t ev)
    let ?a = "artifact_for stored rid (Some client) (''key_task:'' @ tid) now"
    let ?P = "\<lambda>t. t_round t = rid \<and> task_id t = tid \<and> t_state t = READY"
    have arts: "artifacts s' = artifacts s @ [?a]" using recorded(9) by simp
    have t: "t \<in> set (key_tasks s)" "t_round t = rid" "task_id t = tid"
      using task_of_in [OF recorded(5)] task_of_keys [OF recorded(5)] by simp_all
    have only: "y = t" if "y \<in> set (key_tasks s)" "?P y" for y
      using keys_okD(9) [OF assms(1)] that t by (intro distinct_key_unique [of "\<lambda>t. (t_round t, task_id t)"]) auto
    have none: "t_artifact t = None"
    proof (rule ccontr)
      assume "t_artifact t \<noteq> None"
      then obtain aid where "t_artifact t = Some aid" by auto
      with t recorded(6) have "(rid, tid, client, aid) \<in> set (List.map_filter task_row_link (key_tasks s))"
        by (auto simp: in_map_filter task_row_link_def)
      with assms(2) have "(rid, tid, client, aid) \<in> set (List.map_filter task_artifact_link (artifacts s))"
        by (simp add: links_ok_def)
      then obtain a where a: "a \<in> set (artifacts s)" "a_round a = rid" "a_client a = Some client"
        "take 9 (a_type a) = ''key_task:''" "drop 9 (a_type a) = tid"
        by (auto simp: in_map_filter task_artifact_link_def split: option.splits if_splits)
      then have "a_type a = ''key_task:'' @ tid" by (metis append_take_drop_id)
      with first_of_kind [OF keys arts a(1-3)] show False by simp
    qed
    have rows: "set (List.map_filter task_row_link (key_tasks s'))
        = insert (rid, tid, client, object_id stored) (set (List.map_filter task_row_link (key_tasks s)))"
    proof -
      have "key_tasks s' = update_where ?P (upload_task stored dg nonce sig) (key_tasks s)" using recorded(9) by simp
      moreover have "set (List.map_filter task_row_link (update_where ?P (upload_task stored dg nonce sig) (key_tasks s)))
          = insert (rid, tid, client, object_id stored) (set (List.map_filter task_row_link (key_tasks s)))"
        by (rule map_filter_gain [OF t(1) _ only])
          (use t recorded(6,7) none in \<open>simp_all add: task_row_link_def upload_task_def\<close>)
      ultimately show ?thesis by simp
    qed
    have "final_keys s' = final_keys s" "participants s' = participants s" using recorded(9) by simp_all
    with assms(2) rows show ?thesis
      by (simp add: links_ok_def arts map_filter_snoc task_artifact_link_def update_artifact_link_def
          final_artifact_link_def)
  qed
qed

lemma record_final_key_links:
  assumes "links_ok s" and "record_final_key now rid client stored dg nonce sig idem_key digest s = (res, s')"
  shows "links_ok s'"
proof (cases res)
  case (Inl e)
  with assms method_errors(5) show ?thesis by metis
next
  case (Inr x)
  with assms(2) have run: "record_final_key now rid client stored dg nonce sig idem_key digest s
      = (Inr (fst x, snd x), s')" by simp
  then show ?thesis
  proof (cases rule: record_final_key_ok)
    case replay
    with assms show ?thesis by simp
  next
    case (recorded r pl ev)
    have "key_tasks s' = key_tasks s" "participants s' = participants s"
      "artifacts s' = artifacts s @ [artifact_for stored rid (Some client) ''final_key'' now]"
      "set (map final_row_link (final_keys s')) = insert (rid, client, object_id stored) (set (map final_row_link (final_keys s)))"
      using recorded(10) by (simp_all add: final_row_link_def)
    with assms(1) show ?thesis
      by (simp add: links_ok_def map_filter_snoc task_artifact_link_def update_artifact_link_def
          final_artifact_link_def)
  qed
qed

lemma complete_job_links:
  assumes "keys_ok s" "links_ok s"
    and "complete_job now tnow job_id rid token stored tag s = (res, s')"
  shows "links_ok s'"
proof (cases res)
  case (Inl e)
  with assms method_errors(8) show ?thesis by metis
next
  case (Inr u)
  with assms(3) have "complete_job now tnow job_id rid token stored tag s = (Inr u, s')" by simp
  with assms(1) show ?thesis
  proof (cases rule: complete_job_ok)
    case (1 r s1 ev j)
    have s1: "links_ok s1"
      using 1(6)
    proof
      assume "s1 = artifacts_update (\<lambda>as. as @ [artifact_for stored rid None ''result'' now]) s"
      with assms(2) show ?thesis
        by (simp add: links_ok_def map_filter_snoc task_artifact_link_def update_artifact_link_def
            final_artifact_link_def)
    qed (use assms(2) in simp)
    have "artifacts s' = artifacts s1" "final_keys s' = final_keys s1" "key_tasks s' = key_tasks s1"
      "participants s' = participants s1"
      using 1(7) by simp_all
    with s1 show ?thesis by (simp add: links_ok_def)
  qed
qed

text \<open>A participant whose digest is empty has not uploaded: its update would be a second one.\<close>

lemma update_stored:
  assumes "keys_ok s" "keys_ok s'" "links_ok s" "participant_of rid client s = Some p"
    and arts: "artifacts s' = artifacts s @ [artifact_for stored rid (Some client) ''update'' now]"
    and ps: "participants s' = update_where (\<lambda>p. p_round p = rid \<and> p_client p = client) (submit_update now stored tag)
      (participants s)"
    and "key_tasks s' = key_tasks s" "final_keys s' = final_keys s"
  shows "links_ok s'"
proof -
  let ?P = "\<lambda>p. p_round p = rid \<and> p_client p = client"
  have p: "p \<in> set (participants s)" "p_round p = rid" "p_client p = client"
    using participant_of_in [OF assms(4)] participant_of_keys [OF assms(4)] by simp_all
  have only: "q = p" if "q \<in> set (participants s)" "?P q" for q
    using keys_okD(2) [OF assms(1)] that p by (intro distinct_key_unique [of "\<lambda>p. (p_round p, p_client p)"]) auto
  have none: "p_update_artifact p = None"
  proof (rule ccontr)
    assume "p_update_artifact p \<noteq> None"
    then obtain aid where "p_update_artifact p = Some aid" by auto
    with p have "(rid, client, aid, p_update_digest p) \<in> set (List.map_filter update_row_link (participants s))"
      by (auto simp: in_map_filter update_row_link_def)
    with assms(3) have "(rid, client, aid, p_update_digest p) \<in> set (List.map_filter update_artifact_link (artifacts s))"
      by (simp add: links_ok_def)
    then obtain a where "a \<in> set (artifacts s)" "a_round a = rid" "a_client a = Some client" "a_type a = ''update''"
      by (auto simp: in_map_filter update_artifact_link_def split: option.splits if_splits)
    with first_of_kind [OF assms(2) arts] show False by blast
  qed
  have gain: "set (List.map_filter update_row_link (participants s'))
      = insert (rid, client, object_id stored, Some (stored_digest stored))
          (set (List.map_filter update_row_link (participants s)))"
    unfolding ps
    by (rule map_filter_gain [OF p(1) _ only])
      (use p none in \<open>simp_all add: update_row_link_def submit_update_def\<close>)
  have tags: "\<forall>q\<in>set (participants s'). p_update_artifact q \<noteq> None \<longrightarrow> p_integrity_tag q \<noteq> None"
    using links_tags [OF assms(3)] by (auto simp: ps set_update_where submit_update_def simp del: not_None_eq)
  have "update_artifact_link (artifact_for stored rid (Some client) ''update'' now)
      = Some (rid, client, object_id stored, Some (stored_digest stored))"
    "task_artifact_link (artifact_for stored rid (Some client) ''update'' now) = None"
    "final_artifact_link (artifact_for stored rid (Some client) ''update'' now) = None"
    by (simp_all add: update_artifact_link_def task_artifact_link_def final_artifact_link_def)
  with assms(3) gain tags show ?thesis
    by (simp add: links_ok_def arts map_filter_snoc assms(7,8))
qed

lemma record_update_links:
  assumes "keys_ok s" "links_ok s"
    and "record_update now tnow job_id rid client stored tag idem_key digest s = (res, s')"
  shows "links_ok s'"
proof (cases res)
  case (Inl e)
  with assms method_errors(7) show ?thesis by metis
next
  case (Inr x)
  then have run: "record_update now tnow job_id rid client stored tag idem_key digest s
      = (Inr (fst x, snd x), s')" using assms(3) by simp
  have keys: "keys_ok s'" using keys.g_record_update assms by (blast dest: guaranteesD)
  from assms(1) run show ?thesis
  proof (cases rule: record_update_ok)
    case replay
    with assms show ?thesis by simp
  next
    case again
    with assms(2) show ?thesis by (simp add: links_ok_def)
  next
    case recorded
    then show ?thesis by (intro update_stored [OF assms(1) keys assms(2)]) simp_all
  next
    case barrier
    then show ?thesis by (intro update_stored [OF assms(1) keys assms(2)]) simp_all
  qed
qed

section \<open>What the worker reads\<close>

lemma update_artifact_link_Some:
  "update_artifact_link a = Some (r, c, i, d) \<longleftrightarrow>
     a_client a = Some c \<and> a_type a = ''update'' \<and> a_round a = r \<and> a_id a = i \<and> d = Some (a_digest a)"
  by (cases "a_client a") (auto simp: update_artifact_link_def)

lemma links_update:
  assumes "links_ok s"
  shows "p \<in> set (participants s) \<Longrightarrow> p_update_artifact p = Some aid \<Longrightarrow>
      \<exists>a\<in>set (artifacts s). a_id a = aid \<and> a_round a = p_round p \<and> a_client a = Some (p_client p) \<and>
        a_type a = ''update'' \<and> p_update_digest p = Some (a_digest a)"
    "a \<in> set (artifacts s) \<Longrightarrow> a_type a = ''update'' \<Longrightarrow>
      \<exists>p\<in>set (participants s). p_update_artifact p = Some (a_id a) \<and> a_round a = p_round p \<and> a_client a = Some (p_client p)"
proof -
  assume "p \<in> set (participants s)" "p_update_artifact p = Some aid"
  then have "(p_round p, p_client p, aid, p_update_digest p) \<in> set (List.map_filter update_row_link (participants s))"
    by (auto simp: in_map_filter update_row_link_def)
  with assms have "(p_round p, p_client p, aid, p_update_digest p) \<in> set (List.map_filter update_artifact_link (artifacts s))"
    by (simp add: links_ok_def)
  then show "\<exists>a\<in>set (artifacts s). a_id a = aid \<and> a_round a = p_round p \<and> a_client a = Some (p_client p) \<and>
        a_type a = ''update'' \<and> p_update_digest p = Some (a_digest a)"
    by (auto simp: in_map_filter update_artifact_link_Some)
next
  assume a: "a \<in> set (artifacts s)" "a_type a = ''update''"
  with assms obtain c where c: "a_client a = Some c" by (fastforce simp: links_ok_def)
  with a have "(a_round a, c, a_id a, Some (a_digest a)) \<in> set (List.map_filter update_artifact_link (artifacts s))"
    by (force simp: in_map_filter update_artifact_link_def)
  with assms have "(a_round a, c, a_id a, Some (a_digest a)) \<in> set (List.map_filter update_row_link (participants s))"
    by (simp add: links_ok_def)
  with c show "\<exists>p\<in>set (participants s). p_update_artifact p = Some (a_id a) \<and> a_round a = p_round p \<and> a_client a = Some (p_client p)"
    by (auto simp: in_map_filter update_row_link_def)
qed

lemma filter_unique:
  "distinct xs \<Longrightarrow> x \<in> set xs \<Longrightarrow> P x \<Longrightarrow> \<forall>y\<in>set xs. P y \<longrightarrow> y = x \<Longrightarrow> filter P xs = [x]"
proof (induction xs)
  case (Cons y ys)
  show ?case
  proof (cases "y = x")
    case True
    have "\<forall>z\<in>set ys. \<not> P z"
      using Cons.prems(1,4) True by (metis distinct.simps(2) list.set_intros(2))
    with True Cons.prems(3) show ?thesis by (simp add: filter_empty_conv)
  next
    case False
    with Cons.prems(4) have y: "\<not> P y" by (metis list.set_intros(1))
    have rest: "\<forall>z\<in>set ys. P z \<longrightarrow> z = x" using Cons.prems(4) by (metis list.set_intros(2))
    have "distinct ys" "x \<in> set ys" using Cons.prems(1,2) False by simp_all
    then have "filter P ys = [x]" using Cons.prems(3) rest by (intro Cons.IH)
    with y show ?thesis by simp
  qed
qed simp

text \<open>The participant row that an update artifact joins with.\<close>

definition joined :: "db \<Rightarrow> artifact_row \<Rightarrow> participant_row" where
  "joined s a = hd (filter (\<lambda>p. p_round p = a_round a \<and> a_client a = Some (p_client p)) (participants s))"

lemma update_join:
  assumes "keys_ok s" "links_ok s" "a \<in> set (artifacts s)" "a_type a = ''update''"
  shows "filter (\<lambda>p. p_round p = a_round a \<and> a_client a = Some (p_client p)) (participants s) = [joined s a]"
    "joined s a \<in> set (participants s)" "p_round (joined s a) = a_round a" "a_client a = Some (p_client (joined s a))"
    "p_update_artifact (joined s a) = Some (a_id a)"
proof -
  let ?P = "\<lambda>p. p_round p = a_round a \<and> a_client a = Some (p_client p)"
  from links_update(2) [OF assms(2-4)] obtain p where
    p: "p \<in> set (participants s)" "p_update_artifact p = Some (a_id a)" "?P p" by auto
  have "\<forall>q\<in>set (participants s). ?P q \<longrightarrow> q = p"
  proof (intro ballI impI)
    fix q assume "q \<in> set (participants s)" "?P q"
    with p keys_okD(2) [OF assms(1)] show "q = p"
      by (intro distinct_key_unique [of "\<lambda>p. (p_round p, p_client p)"]) auto
  qed
  moreover have "distinct (participants s)" using keys_okD(2) [OF assms(1)] by (simp add: distinct_map)
  ultimately have "filter ?P (participants s) = [p]" using p(1,3) by (intro filter_unique)
  then have "joined s a = p" "filter ?P (participants s) = [joined s a]" by (simp_all add: joined_def)
  with p show "filter ?P (participants s) = [joined s a]" "joined s a \<in> set (participants s)"
    "p_round (joined s a) = a_round a" "a_client a = Some (p_client (joined s a))"
    "p_update_artifact (joined s a) = Some (a_id a)" by simp_all
qed

lemma job_inputs_complete:
  assumes "keys_ok s" "links_ok s" "barriers s r" "round_of rid s = Some r" "reached AGGREGATING (status r)"
  shows "\<exists>inputs. job_inputs rid s = Inr (r, inputs) \<and>
    map (\<lambda>(a, tag). the (a_client a)) inputs = sort (participants_json r) \<and>
    (\<forall>(a, tag)\<in>set inputs. a_round a = rid \<and> a_type a = ''update'' \<and> tag \<noteq> None \<and>
      (\<exists>p\<in>set (participants_of rid s). a_client a = Some (p_client p) \<and> p_update_artifact p = Some (a_id a) \<and>
        p_integrity_tag p = tag))"
proof -
  let ?arts = "filter (\<lambda>a. a_round a = rid \<and> a_type a = ''update'') (artifacts s)"
  let ?client = "\<lambda>(a :: artifact_row, tag :: string option). the (a_client a)"
  have rid: "round_id r = rid" using round_of_id [OF assms(4)] .
  note join = update_join [OF assms(1,2)]
  define rows where "rows = map (\<lambda>a. (a, p_integrity_tag (joined s a))) ?arts"
  have "concat (map (\<lambda>a. map (\<lambda>p. (a, p_integrity_tag p))
      (filter (\<lambda>p. p_round p = a_round a \<and> a_client a = Some (p_client p)) (participants s))) ?arts)
      = concat (map (\<lambda>a. [(a, p_integrity_tag (joined s a))]) ?arts)"
    using join(1) by (intro arg_cong [where f = concat] map_cong refl) auto
  then have inputs: "job_inputs rid s = Inr (r, sort_key ?client rows)"
    using assms(4) by (simp add: job_inputs_def rows_def concat_map_singleton)
  have clients: "map ?client rows = map (\<lambda>a. the (a_client a)) ?arts" by (simp add: rows_def comp_def)
  have "distinct (map (\<lambda>a. the (a_client a)) ?arts)"
  proof -
    have "distinct (map (\<lambda>a. (a_round a, a_client a, a_type a)) ?arts)"
    proof -
      have "?arts = filter (\<lambda>a. a_round a = rid \<and> a_type a = ''update'') (filter (\<lambda>a. a_client a \<noteq> None) (artifacts s))"
        using join(4) by (auto intro!: filter_cong)
      then show ?thesis using distinct_map_filter [OF keys_okD(14) [OF assms(1)]] by (simp only:)
    qed
    then have inj: "inj_on (\<lambda>a. (a_round a, a_client a, a_type a)) (set ?arts)" "distinct ?arts"
      by (simp_all add: distinct_map)
    have "inj_on (\<lambda>a. the (a_client a)) (set ?arts)"
    proof (rule inj_onI)
      fix a b assume ab: "a \<in> set ?arts" "b \<in> set ?arts" "the (a_client a) = the (a_client b)"
      then have "a_client a = a_client b" using join(4) [of a] join(4) [of b] by auto
      with ab show "a = b" by (intro inj_onD [OF inj(1)]) auto
    qed
    with inj(2) show ?thesis by (simp only: distinct_map)
  qed
  moreover have "set (map (\<lambda>a. the (a_client a)) ?arts) = set (participants_json r)"
  proof
    show "set (map (\<lambda>a. the (a_client a)) ?arts) \<subseteq> set (participants_json r)"
    proof
      fix c assume "c \<in> set (map (\<lambda>a. the (a_client a)) ?arts)"
      then obtain a where a: "a \<in> set (artifacts s)" "a_round a = rid" "a_type a = ''update''" "c = the (a_client a)"
        by auto
      from join(2-4) [OF a(1,3)] a have "joined s a \<in> set (participants_of rid s)" "c = p_client (joined s a)"
        by (simp_all add: participants_of_def)
      then have "c \<in> set (map p_client (participants_of (round_id r) s))" using rid by simp
      then show "c \<in> set (participants_json r)" by (simp only: barriersD(1) [OF assms(3)])
    qed
    show "set (participants_json r) \<subseteq> set (map (\<lambda>a. the (a_client a)) ?arts)"
    proof
      fix c assume "c \<in> set (participants_json r)"
      then obtain p where p: "p \<in> set (participants_of rid s)" "c = p_client p"
        using barriersD(1) [OF assms(3)] rid by (metis (no_types, lifting) imageE list.set_map)
      with barriersD(8) [OF assms(3,5)] rid obtain aid where "p_update_artifact p = Some aid" by auto
      with links_update(1) [OF assms(2), of p aid] p obtain a where
        "a \<in> set (artifacts s)" "a_round a = rid" "a_client a = Some c" "a_type a = ''update''"
        by (auto simp: participants_of_def)
      then show "c \<in> set (map (\<lambda>a. the (a_client a)) ?arts)" by force
    qed
  qed
  ultimately have "sort (map ?client rows) = sort (participants_json r)"
    using participants_distinct [OF assms(1,3)] unfolding clients
    by (intro sorted_distinct_set_unique) auto
  moreover have "map ?client (sort_key ?client rows) = sort (map ?client rows)"
    using map_sort_key [where f = ?client and g = "\<lambda>x. x"] by simp
  ultimately have keyed: "map ?client (sort_key ?client rows) = sort (participants_json r)" by simp
  have each: "a_round a = rid \<and> a_type a = ''update'' \<and> tag \<noteq> None \<and>
      (\<exists>p\<in>set (participants_of rid s). a_client a = Some (p_client p) \<and> p_update_artifact p = Some (a_id a) \<and>
        p_integrity_tag p = tag)" if "(a, tag) \<in> set rows" for a tag
  proof -
    from that have a: "a \<in> set (artifacts s)" "a_round a = rid" "a_type a = ''update''" "tag = p_integrity_tag (joined s a)"
      by (auto simp: rows_def)
    note j = join(2-5) [OF a(1,3)]
    have mem: "joined s a \<in> set (participants_of rid s)"
      unfolding participants_of_def using j(1,2) a(2) by simp
    have tag: "tag \<noteq> None" using bspec [OF links_tags [OF assms(2)] j(1)] j(4) unfolding a(4) by simp
    show ?thesis
      by (intro conjI bexI [of _ "joined s a"] a(2,3) tag j(3,4) a(4) [symmetric] mem)
  qed
  show ?thesis
  proof (intro exI conjI ballI)
    show "job_inputs rid s = Inr (r, sort_key ?client rows)" by (rule inputs)
    fix x assume "x \<in> set (sort_key ?client rows)"
    moreover obtain a tag where x: "x = (a, tag)" by (cases x)
    ultimately have mem: "(a, tag) \<in> set rows" by (simp only: set_sort)
    show "case x of (a, tag) \<Rightarrow> a_round a = rid \<and> a_type a = ''update'' \<and> tag \<noteq> None \<and>
      (\<exists>p\<in>set (participants_of rid s). a_client a = Some (p_client p) \<and> p_update_artifact p = Some (a_id a) \<and>
        p_integrity_tag p = tag)"
      unfolding x prod.case by (rule each [OF mem])
  qed (rule keyed)
qed

end
