(* ===== verification/Purge.thy ===== *)
theory Purge
  imports Artifact_Links
begin

text \<open>
  The purge of a round, as one update of the database: it succeeds on every terminal round whose
  retention has ended, leaves no row of that round behind, touches no other round and keeps every
  invariant.
\<close>

section \<open>The purged database\<close>

definition purged :: "string \<Rightarrow> db \<Rightarrow> db" where
  "purged rid s = \<lparr>members_of = members_of s,
     rounds = delete_where (\<lambda>r. round_id r = rid) (rounds s),
     participants = delete_where (\<lambda>p. p_round p = rid) (participants s),
     artifacts = delete_where (\<lambda>a. a_round a = rid) (artifacts s),
     idempotency = delete_where (creation_of rid) (delete_where (\<lambda>i. i_round i = rid) (idempotency s)),
     jobs = delete_where (\<lambda>j. j_round j = rid) (jobs s),
     audit_events = delete_where (\<lambda>e. e_round e = Some rid) (audit_events s),
     tree_plans = delete_where (\<lambda>p. tp_round p = rid) (tree_plans s),
     key_tasks = delete_where (\<lambda>t. t_round t = rid) (key_tasks s),
     task_dependencies = delete_where (\<lambda>d. d_round d = rid) (task_dependencies s),
     task_receipts = delete_where (\<lambda>r. tr_round r = rid) (task_receipts s),
     final_keys = delete_where (\<lambda>k. fk_round k = rid) (final_keys s),
     final_key_receipts = delete_where (\<lambda>r. fr_round r = rid) (final_key_receipts s)\<rparr>"

lemma in_delete_where [simp]: "x \<in> set (delete_where P xs) \<longleftrightarrow> x \<in> set xs \<and> \<not> P x"
  by (auto simp: delete_where_def)

lemma ball_delete_where: "(\<forall>x\<in>set (delete_where P xs). Q x) \<longleftrightarrow> (\<forall>x\<in>set xs. \<not> P x \<longrightarrow> Q x)"
  by (auto simp: delete_where_def)

text \<open>No task or final key of another round refers to an artifact of this one.\<close>

definition unshared :: "string \<Rightarrow> db \<Rightarrow> bool" where
  "unshared rid s \<longleftrightarrow>
     (\<forall>a\<in>set (artifacts s). a_round a = rid \<longrightarrow>
        (\<forall>t\<in>set (key_tasks s). t_artifact t = Some (a_id a) \<longrightarrow> t_round t = rid) \<and>
        (\<forall>k\<in>set (final_keys s). fk_artifact k = a_id a \<longrightarrow> fk_round k = rid))"

definition purgeable :: "real \<Rightarrow> round_row \<Rightarrow> bool" where
  "purgeable now r \<longleftrightarrow> status r \<in> {COMPLETED, FAILED, ABORTED, EXPIRED} \<and> retention_at r \<le> now"

lemma purge_round_ok:
  "purge_round now rid s = (Inr u, s') \<longleftrightarrow>
     (case round_of rid s of None \<Rightarrow> s' = s
      | Some r \<Rightarrow> purgeable now r \<and> unshared rid s \<and> s' = purged rid s)"
proof (cases "round_of rid s")
  case None
  then show ?thesis by (auto simp: purge_round_def tx_simps)
next
  case (Some r)
  have tasks: "exec (delete_key_tasks rid) k t = k (key_tasks_update (delete_where (\<lambda>t. t_round t = rid)) t)"
    if "\<forall>d\<in>set (task_dependencies t). d_round d \<noteq> rid" "\<forall>r\<in>set (task_receipts t). tr_round r \<noteq> rid"
    for t and k :: "(db, unit) tx"
    using that by (auto simp: exec_apply delete_key_tasks_def checked_def list_ex_iff)
  have round: "exec (delete_round rid) k t = k (rounds_update (delete_where (\<lambda>r. round_id r = rid)) t)"
    if "\<not> round_referenced rid t" for t and k :: "(db, unit) tx"
    using that by (simp add: exec_apply delete_round_def checked_def)
  let ?u = "tree_plans_update (delete_where (\<lambda>p. tp_round p = rid)) (key_tasks_update (delete_where (\<lambda>t. t_round t = rid))
    (task_dependencies_update (delete_where (\<lambda>d. d_round d = rid)) (task_receipts_update (delete_where (\<lambda>r. tr_round r = rid))
      (final_keys_update (delete_where (\<lambda>k. fk_round k = rid))
        (final_key_receipts_update (delete_where (\<lambda>r. fr_round r = rid)) (jobs_update (delete_where (\<lambda>j. j_round j = rid)) s))))))"
  have arts: "exec (delete_artifacts rid) k ?u =
      (if unshared rid s then k (artifacts_update (delete_where (\<lambda>a. a_round a = rid)) ?u) else (Inl IntegrityError, ?u))"
    for k :: "(db, unit) tx"
  proof -
    have "unshared rid s \<longleftrightarrow> \<not> list_ex (\<lambda>a. a_round a = rid \<and>
        (list_ex (\<lambda>t. t_artifact t = Some (a_id a)) (key_tasks ?u)
         \<or> list_ex (\<lambda>k. fk_artifact k = a_id a) (final_keys ?u))) (artifacts ?u)"
      unfolding unshared_def list_ex_iff by (simp add: ball_delete_where) blast
    then show ?thesis by (simp add: exec_apply delete_artifacts_def checked_def)
  qed
  have referenced: "\<not> round_referenced rid t"
    if "\<forall>p\<in>set (participants t). p_round p \<noteq> rid" "\<forall>a\<in>set (artifacts t). a_round a \<noteq> rid"
      "\<forall>j\<in>set (jobs t). j_round j \<noteq> rid" "\<forall>p\<in>set (tree_plans t). tp_round p \<noteq> rid"
      "\<forall>k\<in>set (key_tasks t). t_round k \<noteq> rid" "\<forall>k\<in>set (final_keys t). fk_round k \<noteq> rid"
      "\<forall>r\<in>set (final_key_receipts t). fr_round r \<noteq> rid" for t
    using that by (auto simp: round_referenced_def list_ex_iff)
  show ?thesis
  proof (cases "purgeable now r")
    case False
    with Some show ?thesis by (auto simp: purge_round_def purgeable_def transaction_Inr)
  next
    case True
    then show ?thesis
      using Some
      by (auto simp: purge_round_def purgeable_def transaction_Inr tasks round arts referenced purged_def)
  qed
qed

section \<open>It is complete, local and always possible\<close>

lemma links_unshared:
  assumes "keys_ok s" "links_ok s"
  shows "unshared rid s"
proof -
  have only: "b = a" if "a \<in> set (artifacts s)" "b \<in> set (artifacts s)" "a_id b = a_id a" for a b
    by (rule distinct_key_unique [OF keys_okD(3) [OF assms(1)] that(2,1,3)])
  show ?thesis
    unfolding unshared_def
  proof (intro ballI impI conjI)
    fix a t assume a: "a \<in> set (artifacts s)" "a_round a = rid"
      and t: "t \<in> set (key_tasks s)" "t_artifact t = Some (a_id a)"
    then have "(t_round t, task_id t, sender t, a_id a) \<in> set (List.map_filter task_row_link (key_tasks s))"
      by (auto simp: in_map_filter task_row_link_def)
    with assms(2) have "(t_round t, task_id t, sender t, a_id a) \<in> set (List.map_filter task_artifact_link (artifacts s))"
      by (simp add: links_ok_def)
    then obtain b where b: "b \<in> set (artifacts s)" "a_id b = a_id a" "a_round b = t_round t"
      by (auto simp: in_map_filter task_artifact_link_def split: option.splits if_splits)
    with only [OF a(1) b(1,2)] a(2) show "t_round t = rid" by auto
  next
    fix a k assume a: "a \<in> set (artifacts s)" "a_round a = rid"
      and k: "k \<in> set (final_keys s)" "fk_artifact k = a_id a"
    then have "(fk_round k, fk_sender k, a_id a) \<in> set (map final_row_link (final_keys s))"
      by (auto simp: final_row_link_def image_iff)
    with assms(2) have "(fk_round k, fk_sender k, a_id a) \<in> set (List.map_filter final_artifact_link (artifacts s))"
      by (simp add: links_ok_def)
    then obtain b where b: "b \<in> set (artifacts s)" "a_id b = a_id a" "a_round b = fk_round k"
      by (auto simp: in_map_filter final_artifact_link_def split: option.splits if_splits)
    with only [OF a(1) b(1,2)] a(2) show "fk_round k = rid" by auto
  qed
qed

definition no_trace :: "string \<Rightarrow> db \<Rightarrow> bool" where
  "no_trace rid s \<longleftrightarrow> \<not> round_exists rid s \<and> participants_of rid s = [] \<and> tasks_of rid s = [] \<and>
     plans_of rid s = [] \<and> deps_of rid s = [] \<and> task_receipts_of rid s = [] \<and> finals_of rid s = [] \<and>
     receipts_of rid s = [] \<and> (\<forall>a\<in>set (artifacts s). a_round a \<noteq> rid) \<and>
     (\<forall>j\<in>set (jobs s). j_round j \<noteq> rid) \<and> (\<forall>e\<in>set (audit_events s). e_round e \<noteq> Some rid) \<and>
     (\<forall>i\<in>set (idempotency s). i_round i \<noteq> rid \<and> \<not> creation_of rid i)"

lemma purged_no_trace: "no_trace rid (purged rid s)"
  by (auto simp: no_trace_def purged_def round_exists_def list_ex_iff participants_of_def tasks_of_def plans_of_def
      deps_of_def task_receipts_of_def finals_of_def receipts_of_def filter_empty_conv)

lemma filter_delete_where: "(\<And>x. Q x \<Longrightarrow> \<not> P x) \<Longrightarrow> filter Q (delete_where P xs) = filter Q xs"
  by (induction xs) (auto simp: delete_where_def)

lemma filter_delete_twice:
  "(\<And>x. Q x \<Longrightarrow> \<not> P x \<and> \<not> P' x) \<Longrightarrow> filter Q (delete_where P (delete_where P' xs)) = filter Q xs"
  by (induction xs) (auto simp: delete_where_def)

lemma creation_answer: "creation_of rid i \<Longrightarrow> answer_round i = rid"
  by (auto simp: creation_of_def answer_round_def split: response.splits)

lemma purged_others: "others_same rid s (purged rid s)"
  by (auto simp: others_same_def same_tables_def purged_def creation_answer intro!: filter_delete_where filter_delete_twice)

lemma purged_other_jobs: "other_jobs_same rid s (purged rid s)"
  by (auto simp: other_jobs_same_def same_jobs_def purged_def intro!: filter_delete_where)

lemma purged_same_round: "q \<noteq> rid \<Longrightarrow> same_round {rid} q s (purged rid s)"
  using purged_others [of rid s] purged_other_jobs [of rid s]
  by (simp add: same_round_def others_same_def other_jobs_same_def)

section \<open>It keeps the invariants\<close>

lemma distinct_delete: "distinct (map f xs) \<Longrightarrow> distinct (map f (delete_where P xs))"
  by (simp add: delete_where_def distinct_map_filter)

lemma distinct_filter_delete:
  "distinct (map f (filter Q xs)) \<Longrightarrow> distinct (map f (filter Q (delete_where P xs)))"
  using distinct_map_filter [of f "filter Q xs" "\<lambda>x. \<not> P x"] by (simp add: delete_where_def conj_commute)

lemma purged_keys: "keys_ok s \<Longrightarrow> keys_ok (purged rid s)"
  unfolding keys_ok_def purged_def by (simp add: distinct_delete distinct_filter_delete)

lemma purged_refs:
  assumes "refs_ok s" "unshared rid s"
  shows "refs_ok (purged rid s)"
proof -
  have rounds: "round_exists q (purged rid s) \<longleftrightarrow> round_exists q s \<and> q \<noteq> rid" for q
    by (auto simp: round_exists_def purged_def list_ex_iff)
  have tasks: "task_exists q tid (purged rid s) \<longleftrightarrow> task_exists q tid s \<and> q \<noteq> rid" for q tid
    by (auto simp: task_exists_def purged_def list_ex_iff)
  have arts: "artifact_exists aid (purged rid s)"
    if "artifact_exists aid s" "\<forall>a\<in>set (artifacts s). a_id a = aid \<longrightarrow> a_round a \<noteq> rid" for aid
    using that by (auto simp: artifact_exists_def purged_def list_ex_iff)
  have task_art: "artifact_exists aid (purged rid s)"
    if "t \<in> set (key_tasks s)" "t_round t \<noteq> rid" "t_artifact t = Some aid" for t aid
  proof (rule arts)
    show "artifact_exists aid s" using assms(1) that by (auto simp: refs_ok_def list_all_iff)
  qed (use assms(2) that in \<open>auto simp: unshared_def\<close>)
  have final_art: "artifact_exists (fk_artifact k) (purged rid s)"
    if "k \<in> set (final_keys s)" "fk_round k \<noteq> rid" for k
  proof (rule arts)
    show "artifact_exists (fk_artifact k) s" using assms(1) that by (auto simp: refs_ok_def list_all_iff)
  qed (use assms(2) that in \<open>auto simp: unshared_def\<close>)
  have tables: "participants (purged rid s) = delete_where (\<lambda>p. p_round p = rid) (participants s)"
    "artifacts (purged rid s) = delete_where (\<lambda>a. a_round a = rid) (artifacts s)"
    "jobs (purged rid s) = delete_where (\<lambda>j. j_round j = rid) (jobs s)"
    "tree_plans (purged rid s) = delete_where (\<lambda>p. tp_round p = rid) (tree_plans s)"
    "key_tasks (purged rid s) = delete_where (\<lambda>t. t_round t = rid) (key_tasks s)"
    "task_dependencies (purged rid s) = delete_where (\<lambda>d. d_round d = rid) (task_dependencies s)"
    "task_receipts (purged rid s) = delete_where (\<lambda>r. tr_round r = rid) (task_receipts s)"
    "final_keys (purged rid s) = delete_where (\<lambda>k. fk_round k = rid) (final_keys s)"
    "final_key_receipts (purged rid s) = delete_where (\<lambda>r. fr_round r = rid) (final_key_receipts s)"
    by (simp_all add: purged_def)
  show ?thesis
    using assms(1) task_art final_art
    unfolding refs_ok_def tables list_all_iff
    by (auto simp: rounds tasks split: option.splits)
qed

lemma purged_gone: "round_of rid (purged rid s) = None"
  by (auto simp: round_of_def purged_def find_None_iff)

lemma purged_barriers: "keys_ok s \<Longrightarrow> barriers_ok s \<Longrightarrow> barriers_ok (purged rid s)"
  by (rule barriers_step [OF _ purged_keys purged_others]) (simp_all add: purged_gone)

lemma purged_graphs:
  assumes "graphs_ok sha s"
  shows "graphs_ok sha (purged rid s)"
  unfolding graphs_ok_def
proof
  fix q assume q: "q \<in> set (rounds (purged rid s))"
  then have "q \<in> set (rounds s)" "round_id q \<noteq> rid" by (auto simp: purged_def)
  with assms purged_others [of rid s] show "task_graph sha (purged rid s) q"
    by (auto simp: graphs_ok_def others_same_def intro: task_graph_tables)
qed

lemma map_filter_delete:
  assumes "\<And>x y. h x = Some y \<Longrightarrow> P x \<longleftrightarrow> Q y"
  shows "set (List.map_filter h (delete_where P xs)) = {y \<in> set (List.map_filter h xs). \<not> Q y}"
proof (rule set_eqI)
  fix y
  have "(\<exists>x\<in>set (delete_where P xs). h x = Some y) \<longleftrightarrow> (\<exists>x\<in>set xs. h x = Some y) \<and> \<not> Q y"
    using assms by (metis in_delete_where)
  then show "y \<in> set (List.map_filter h (delete_where P xs)) \<longleftrightarrow> y \<in> {y \<in> set (List.map_filter h xs). \<not> Q y}"
    by (simp add: in_map_filter)
qed

lemma purged_links:
  assumes "links_ok s"
  shows "links_ok (purged rid s)"
proof -
  let ?Q = "\<lambda>l. fst l = rid"
  have arts: "artifacts (purged rid s) = delete_where (\<lambda>a. a_round a = rid) (artifacts s)"
    and tasks: "key_tasks (purged rid s) = delete_where (\<lambda>t. t_round t = rid) (key_tasks s)"
    and ps: "participants (purged rid s) = delete_where (\<lambda>p. p_round p = rid) (participants s)"
    and finals: "final_keys (purged rid s) = delete_where (\<lambda>k. fk_round k = rid) (final_keys s)"
    by (simp_all add: purged_def)
  have 1: "set (List.map_filter task_artifact_link (artifacts (purged rid s)))
      = {l \<in> set (List.map_filter task_artifact_link (artifacts s)). \<not> ?Q l}"
    unfolding arts by (rule map_filter_delete) (auto simp: task_artifact_link_def split: option.splits if_splits)
  have 2: "set (List.map_filter task_row_link (key_tasks (purged rid s)))
      = {l \<in> set (List.map_filter task_row_link (key_tasks s)). \<not> ?Q l}"
    unfolding tasks by (rule map_filter_delete) (auto simp: task_row_link_def)
  have 3: "set (List.map_filter update_artifact_link (artifacts (purged rid s)))
      = {l \<in> set (List.map_filter update_artifact_link (artifacts s)). \<not> ?Q l}"
    unfolding arts by (rule map_filter_delete) (auto simp: update_artifact_link_Some)
  have 4: "set (List.map_filter update_row_link (participants (purged rid s)))
      = {l \<in> set (List.map_filter update_row_link (participants s)). \<not> ?Q l}"
    unfolding ps by (rule map_filter_delete) (auto simp: update_row_link_def)
  have 5: "set (List.map_filter final_artifact_link (artifacts (purged rid s)))
      = {l \<in> set (List.map_filter final_artifact_link (artifacts s)). \<not> ?Q l}"
    unfolding arts by (rule map_filter_delete) (auto simp: final_artifact_link_def split: option.splits if_splits)
  have 6: "set (map final_row_link (final_keys (purged rid s)))
      = {l \<in> set (map final_row_link (final_keys s)). \<not> ?Q l}"
    unfolding finals by (auto simp: final_row_link_def)
  have 7: "\<forall>a\<in>set (artifacts (purged rid s)). a_client a = None \<longleftrightarrow> a_type a = ''result''"
    "\<forall>p\<in>set (participants (purged rid s)). p_update_artifact p \<noteq> None \<longrightarrow> p_integrity_tag p \<noteq> None"
    using assms unfolding links_ok_def arts ps by auto
  from assms show ?thesis
    unfolding links_ok_def 1 2 3 4 5 6 by (intro conjI 7) (elim conjE, simp only:)+
qed

end
