(* ===== verification/System.thy ===== *)
theory System
  imports Purge
begin

text \<open>
  The database as one state machine: every method of \<open>Database\<close> that writes is a call, the API
  admits some of them for a round's own participants only, and the states reachable from the
  empty database by admitted calls, and by the enrolment at every start of the server, have all of the
  invariants.
\<close>

section \<open>Calls\<close>

datatype db_call =
    Create_Round real string string string model_schema string "string list" string int int string string string
  | Record_Slot real real string string slot_body string string
  | Key_Complete real real string string string string string
  | Record_Task_Artifact real string string string stored_object string string string string string
  | Acknowledge_Task real string string string string string string
  | Record_Final_Key real string string stored_object string string string string string
  | Acknowledge_Final_Key real real string string string string string
  | Record_Update real real string string string stored_object string string string
  | Claim_Job real "string \<Rightarrow> real" string real
  | Renew_Job real string string real
  | Complete_Job real real string string string stored_object string
  | Fail_Job real string string string string bool
  | Complete_Participant real real string string string string
  | Abort real real string string string string string
  | Fail_Round real string string string string
  | Get_Round bool real real real string
  | Expire_Rounds real "real option" "string \<Rightarrow> real"
  | Purge_Round real string

text \<open>Only the error, if there is one, is kept of the answer.\<close>

definition outcome :: "(db, 'a) tx \<Rightarrow> (db, unit) tx" where
  "outcome m = call m (\<lambda>_. ret ())"

lemma outcome_eq: "outcome m s = (res, s') \<longleftrightarrow> (\<exists>v. m s = (v, s') \<and> res = map_sum id (\<lambda>_. ()) v)"
  by (cases "m s") (auto simp: outcome_def call_def split: sum.splits)

lemma outcomeE: "outcome m s = (res, s') \<Longrightarrow> (\<And>v. m s = (v, s') \<Longrightarrow> P) \<Longrightarrow> P"
  by (auto simp: outcome_eq)

lemma outcome_state: "snd (outcome m s) = snd (m s)"
  by (cases "m s") (auto simp: outcome_def call_def split: sum.splits)

fun perform :: "(bytes \<Rightarrow> bytes) \<Rightarrow> db_call \<Rightarrow> (db, unit) tx" where
  "perform sha (Create_Round now rid federation version schema schema_hash clients manifest_hash ttl retention actor k dg)
     = outcome (create_round now rid federation version schema schema_hash clients manifest_hash ttl retention actor k dg)"
| "perform sha (Record_Slot now tnow rid client body k dg) = outcome (record_json_slot now tnow rid client body k dg)"
| "perform sha (Key_Complete now tnow rid client commitment k dg) = outcome (key_complete sha now tnow rid client commitment k dg)"
| "perform sha (Record_Task_Artifact now rid client tid stored cd nonce sig k dg)
     = outcome (record_task_artifact now rid client tid stored cd nonce sig k dg)"
| "perform sha (Acknowledge_Task now rid client tid ad k dg) = outcome (acknowledge_task now rid client tid ad k dg)"
| "perform sha (Record_Final_Key now rid client stored cd nonce sig k dg)
     = outcome (record_final_key now rid client stored cd nonce sig k dg)"
| "perform sha (Acknowledge_Final_Key now tnow rid client ad k dg) = outcome (acknowledge_final_key now tnow rid client ad k dg)"
| "perform sha (Record_Update now tnow job_id rid client stored tag k dg)
     = outcome (record_update now tnow job_id rid client stored tag k dg)"
| "perform sha (Claim_Job now tnow token lease) = outcome (claim_job now tnow token lease)"
| "perform sha (Renew_Job now job_id token lease) = outcome (renew_job now job_id token lease)"
| "perform sha (Complete_Job now tnow job_id rid token stored tag) = outcome (complete_job now tnow job_id rid token stored tag)"
| "perform sha (Fail_Job tnow job_id rid token detail retryable) = outcome (fail_job tnow job_id rid token detail retryable)"
| "perform sha (Complete_Participant now tnow rid client k dg) = outcome (complete_participant now tnow rid client k dg)"
| "perform sha (Abort tnow now rid actor reason k dg) = outcome (abort tnow now rid actor reason k dg)"
| "perform sha (Fail_Round tnow rid actor code detail) = outcome (fail_round tnow rid actor code detail)"
| "perform sha (Get_Round expire now now' tnow rid) = outcome (get_round expire now now' tnow rid)"
| "perform sha (Expire_Rounds clock now tnow) = outcome (expire_rounds clock now tnow)"
| "perform sha (Purge_Round now rid) = outcome (purge_round now rid)"

text \<open>\<open>_round_for_member\<close> of the API: only a participant of the round gets as far as this method.\<close>

fun admitted :: "db_call \<Rightarrow> db \<Rightarrow> bool" where
  "admitted (Acknowledge_Final_Key now tnow rid client ad k dg) s =
     (case round_of rid s of None \<Rightarrow> True | Some r \<Rightarrow> client \<in> set (participants_json r))"
| "admitted _ s = True"

inductive reachable :: "(bytes \<Rightarrow> bytes) \<Rightarrow> db \<Rightarrow> bool" for sha where
  empty: "reachable sha empty_db"
| step: "reachable sha s \<Longrightarrow> admitted c s \<Longrightarrow> perform sha c s = (res, s') \<Longrightarrow> reachable sha s'"
| enrolled: "reachable sha s \<Longrightarrow> initialize_once sha federations s = (res, s') \<Longrightarrow> reachable sha s'"

text \<open>The enrolment writes the table of members only.\<close>

definition members_only :: "db \<Rightarrow> db \<Rightarrow> bool" where
  "members_only s s' \<longleftrightarrow> (\<exists>ms. s' = members_of_update (\<lambda>_. ms) s)"

interpretation enrolling: effect_contract members_only
proof
  show "members_only s s" for s
    unfolding members_only_def by (rule exI [of _ "members_of s"]) simp
qed (auto simp: members_only_def)

lemma members_only_update: "members_only s (members_of_update f s)"
  unfolding members_only_def by (rule exI [of _ "f (members_of s)"]) (cases s, simp)

lemma initialize_members: "guarantees members_only (initialize_once sha federations)"
proof (induction sha federations rule: initialize_once.induct)
  case (2 sha federation client config rest)
  have "guarantees members_only (enrol sha federation client config)"
    unfolding enrol_def Let_def
    by (intro enrolling.flow)
      (simp add: upsert_member_def Let_def stmt_guarantees_checked members_only_update del: members_of_update_def)
  with 2 show ?case by (simp del: call_def) (intro enrolling.g_call)
qed (simp add: enrolling.g_ret del: ret_apply)

section \<open>Effects of all calls\<close>

fun is_purge :: "db_call \<Rightarrow> bool" where
  "is_purge (Purge_Round now rid) = True"
| "is_purge _ = False"

context ledger_contract
begin

lemma g_outcome: "guarantees R m \<Longrightarrow> guarantees R (outcome m)"
  unfolding outcome_def by (intro flow)

end

context statement_contract
begin

lemma g_perform:
  assumes "\<And>rid. scope rid" "\<not> is_purge c"
  shows "guarantees R (perform sha c)"
  using assms
  by (cases c)
    (auto intro!: g_outcome g_create_round g_record_json_slot g_key_complete g_record_task_artifact
      g_acknowledge_task g_record_final_key g_acknowledge_final_key g_record_update g_claim_job g_renew_job
      g_complete_job g_fail_job g_complete_participant g_abort g_fail_round g_get_round g_expire_rounds)

end

text \<open>The round that a call writes; the calls that may write several have none.\<close>

fun target_round :: "db_call \<Rightarrow> string option" where
  "target_round (Create_Round now rid federation version schema schema_hash clients manifest_hash ttl retention actor k dg) = Some rid"
| "target_round (Record_Slot now tnow rid client body k dg) = Some rid"
| "target_round (Key_Complete now tnow rid client commitment k dg) = Some rid"
| "target_round (Record_Task_Artifact now rid client tid stored cd nonce sig k dg) = Some rid"
| "target_round (Acknowledge_Task now rid client tid ad k dg) = Some rid"
| "target_round (Record_Final_Key now rid client stored cd nonce sig k dg) = Some rid"
| "target_round (Acknowledge_Final_Key now tnow rid client ad k dg) = Some rid"
| "target_round (Record_Update now tnow job_id rid client stored tag k dg) = Some rid"
| "target_round (Complete_Job now tnow job_id rid token stored tag) = Some rid"
| "target_round (Fail_Job tnow job_id rid token detail retryable) = Some rid"
| "target_round (Complete_Participant now tnow rid client k dg) = Some rid"
| "target_round (Abort tnow now rid actor reason k dg) = Some rid"
| "target_round (Fail_Round tnow rid actor code detail) = Some rid"
| "target_round (Get_Round expire now now' tnow rid) = Some rid"
| "target_round (Purge_Round now rid) = Some rid"
| "target_round (Claim_Job now tnow token lease) = None"
| "target_round (Renew_Job now job_id token lease) = None"
| "target_round (Expire_Rounds clock now tnow) = None"

lemma purge_result: "purge_round now rid s = (v, s') \<Longrightarrow> s' = s \<or> s' = purged rid s"
  using method_errors(14) by (cases v) (auto simp: purge_round_ok split: option.splits)

lemma perform_isolated:
  assumes "target_round c = Some rid" "perform sha c s = (res, s')"
  shows "others_same rid s s'"
proof (cases "is_purge c")
  case True
  then obtain now q where c: "c = Purge_Round now q" by (cases c) auto
  with assms obtain v where run: "purge_round now rid s = (v, s')" by (auto simp: outcome_eq)
  show ?thesis
  proof (cases v)
    case (Inl e)
    with run method_errors(14) have "s' = s" by simp
    then show ?thesis by (simp add: isolation.refl)
  next
    case (Inr u)
    with run purged_others isolation.refl show ?thesis by (auto simp: purge_round_ok split: option.splits)
  qed
next
  case False
  have "guarantees (others_same rid) (perform sha c)"
    using assms(1) False
    by (cases c)
      (auto intro!: isolation.g_outcome isolation.g_create_round isolation.g_record_json_slot
        isolation.g_key_complete isolation.g_record_task_artifact isolation.g_acknowledge_task
        isolation.g_record_final_key isolation.g_acknowledge_final_key isolation.g_record_update
        isolation.g_complete_job isolation.g_fail_job isolation.g_complete_participant isolation.g_abort
        isolation.g_fail_round isolation.g_get_round)
  then show ?thesis using assms(2) by (rule guaranteesD)
qed

text \<open>
  The jobs of the other rounds stay, too; the methods that find a job by its identifier rely on the primary
  key of the table.
\<close>

lemma complete_job_apart:
  assumes "keys_ok s" "complete_job now tnow job_id rid token stored tag s = (v, s')"
  shows "other_jobs_same rid s s'"
proof (cases v)
  case (Inl e)
  with assms(2) method_errors(8) have "s' = s" by blast
  then show ?thesis by (simp add: apart.refl)
next
  case (Inr u)
  from assms(2) have run: "complete_job now tnow job_id rid token stored tag s = (Inr u, s')" unfolding Inr .
  show ?thesis
  proof (rule complete_job_ok [OF assms(1) run])
    fix r s1 ev j
    let ?t = "logged [ev] (advanced tnow rid RESULT_READY ''AGGREGATION_COMPLETED'' None s1)"
    assume j: "j \<in> set (jobs s)" "owned job_id token j" "j_round j = rid"
      and s': "s' = jobs_update (update_where (\<lambda>j. j_id j = job_id \<and> j_claim_token j = Some token)
        (\<lambda>j. j\<lparr>j_state := JOB_COMPLETED, j_lease_until := None, j_claim_token := None,
           j_result_tag := Some tag, j_last_error := None\<rparr>)) ?t"
      and "(\<exists>a\<in>set (artifacts s). a_round a = rid \<and> a_type a = ''result'' \<and> a_digest a = stored_digest stored) \<and> s1 = s \<or>
        s1 = artifacts_update (\<lambda>as. as @ [artifact_for stored rid None ''result'' now]) s"
    then have s1: "jobs ?t = jobs s" by auto
    have "other_jobs_same rid ?t s'"
      unfolding s' by (rule update_owned_apart [of _ j])
        (use j keys_okD(6) [OF assms(1)] s1 in \<open>auto simp: owned_def\<close>)
    with s1 show "other_jobs_same rid s s'" by (simp add: other_jobs_same_def same_jobs_def)
  qed
qed

lemma fail_job_apart:
  assumes "keys_ok s" "fail_job tnow job_id rid token detail retryable s = (v, s')"
  shows "other_jobs_same rid s s'"
proof (cases v)
  case (Inl e)
  with assms(2) method_errors(9) have "s' = s" by blast
  then show ?thesis by (simp add: apart.refl)
next
  case (Inr u)
  let ?mine = "\<lambda>k. j_id k = job_id \<and> j_claim_token k = Some token"
  let ?failed = "jobs_update (update_where ?mine (give_up (text_take 256 detail))) s"
  let ?queued = "jobs_update (update_where ?mine (requeue (text_take 256 detail))) s"
  have touched: "other_jobs_same rid s ?failed \<and> other_jobs_same rid s ?queued"
    if "j \<in> set (jobs s)" "owned job_id token j" "j_round j = rid" for j
    by (intro conjI update_owned_apart [of _ j])
      (use that keys_okD(6) [OF assms(1)] in \<open>auto simp: owned_def give_up_def requeue_def\<close>)
  from assms(2) Inr have "s' = s \<or> (\<exists>j\<in>set (jobs s). owned job_id token j \<and> j_round j = rid \<and>
      (jobs s' = jobs ?failed \<or> jobs s' = jobs ?queued))"
    by (auto simp: fail_job_def method_simps keys_okD(1) [OF assms(1)] dest!: find_SomeD split: option.splits if_splits)
  with touched show ?thesis by (auto simp: other_jobs_same_def same_jobs_def)
qed

lemma perform_jobs_apart:
  assumes "keys_ok s" "target_round c = Some rid" "perform sha c s = (res, s')"
  shows "other_jobs_same rid s s'"
proof (cases "is_purge c")
  case True
  with assms(2,3) have "s' = s \<or> s' = purged rid s"
    by (cases c) (auto elim!: outcomeE dest: purge_result)
  with purged_other_jobs apart.refl show ?thesis by blast
next
  case False
  note rules = apart.g_outcome apart.g_create_round apart.g_record_json_slot apart.g_key_complete
    apart.g_record_task_artifact apart.g_acknowledge_task apart.g_record_final_key apart.g_acknowledge_final_key
    apart.g_record_update apart.g_complete_participant apart.g_abort apart.g_fail_round apart.g_get_round
  show ?thesis
  proof (cases "(\<exists>now tnow i token stored tag. c = Complete_Job now tnow i rid token stored tag) \<or>
      (\<exists>tnow i token detail retryable. c = Fail_Job tnow i rid token detail retryable)")
    case True
    with assms show ?thesis by (auto elim!: outcomeE intro: complete_job_apart fail_job_apart)
  next
    case other: False
    have "guarantees (other_jobs_same rid) (perform sha c)"
      using assms(2) False other by (cases c) (auto intro!: rules)
    then show ?thesis using assms(3) by (rule guaranteesD)
  qed
qed

lemma perform_same_round:
  assumes "keys_ok s" "target_round c = Some rid" "perform sha c s = (res, s')" "q \<noteq> rid"
  shows "same_round {rid} q s s'"
  using perform_isolated [OF assms(2,3)] perform_jobs_apart [OF assms(1-3)] assms(4)
  by (simp add: same_round_def others_same_def other_jobs_same_def)

section \<open>The invariants\<close>

definition invariant :: "(bytes \<Rightarrow> bytes) \<Rightarrow> db \<Rightarrow> bool" where
  "invariant sha s \<longleftrightarrow> keys_ok s \<and> refs_ok s \<and> barriers_ok s \<and> graphs_ok sha s \<and> links_ok s"

lemma invariantD:
  assumes "invariant sha s"
  shows "keys_ok s" "refs_ok s" "barriers_ok s" "graphs_ok sha s" "links_ok s"
  using assms by (simp_all add: invariant_def)

lemma empty_invariant: "invariant sha empty_db"
  by (simp add: invariant_def keys_ok_def refs_ok_def barriers_ok_def graphs_ok_def links_ok_def empty_db_def
      List.map_filter_def)

lemma members_invariant: "invariant sha (members_of_update f s) \<longleftrightarrow> invariant sha s"
proof -
  have "barriers (members_of_update f s) r = barriers s r" for r
    by (rule barriers_tables) (simp_all add: participants_of_def receipts_of_def)
  moreover have "task_graph sha (members_of_update f s) r = task_graph sha s r" for r
    by (simp add: task_graph_def plan_followed_def plans_of_def tasks_of_def deps_of_def task_receipts_of_def
        finals_of_def receipts_of_def participants_of_def cong: list.case_cong)
  ultimately show ?thesis
    by (simp add: invariant_def keys_ok_def refs_ok_def barriers_ok_def graphs_ok_def links_ok_def
        round_exists_def artifact_exists_def task_exists_def cong: option.case_cong)
qed

text \<open>The calls that can do no more to a round than end it.\<close>

fun only_failing :: "db_call \<Rightarrow> bool" where
  "only_failing (Claim_Job now tnow token lease) = True"
| "only_failing (Renew_Job now job_id token lease) = True"
| "only_failing (Fail_Job tnow job_id rid token detail retryable) = True"
| "only_failing (Abort tnow now rid actor reason k dg) = True"
| "only_failing (Fail_Round tnow rid actor code detail) = True"
| "only_failing (Get_Round expire now now' tnow rid) = True"
| "only_failing (Expire_Rounds clock now tnow) = True"
| "only_failing _ = False"

lemma fails_outcome: "guarantees only_fails m \<Longrightarrow> guarantees only_fails (outcome m)"
  by (simp add: guarantees_def outcome_state)

lemma perform_fails: "only_failing c \<Longrightarrow> guarantees only_fails (perform sha c)"
  by (cases c) (auto intro!: fails_outcome claim_job_fails renew_job_fails fail_job_fails abort_fails
    fail_round_fails get_round_fails expire_rounds_fails)

lemma perform_constraints:
  assumes "keys_ok s" "refs_ok s" "links_ok s" "perform sha c s = (res, s')"
  shows "keys_ok s' \<and> refs_ok s'"
proof (cases "is_purge c")
  case True
  then obtain now rid where c: "c = Purge_Round now rid" by (cases c) auto
  with assms(4) obtain v where run: "purge_round now rid s = (v, s')" by (auto simp: outcome_eq)
  show ?thesis
  proof (cases v)
    case (Inl e)
    with run method_errors(14) assms(1,2) show ?thesis by blast
  next
    case (Inr u)
    with run have "s' = s \<or> unshared rid s \<and> s' = purged rid s" by (auto simp: purge_round_ok split: option.splits)
    with assms(1,2) purged_keys purged_refs show ?thesis by blast
  qed
next
  case False
  with keys.g_perform [of c sha] refs.g_perform [of c sha] assms show ?thesis by (blast dest: guaranteesD)
qed

lemma perform_barriers:
  assumes inv: "invariant sha s" and adm: "admitted c s" and run: "perform sha c s = (res, s')"
  shows "barriers_ok s'"
proof (cases "only_failing c")
  case True
  with perform_fails run have "only_fails s s'" by (blast dest: guaranteesD)
  then show ?thesis using barriers_only_fails invariantD(3) [OF inv] by blast
next
  case False
  note i = invariantD [OF inv]
  show ?thesis
  proof (cases c)
    case (Create_Round now rid federation version schema schema_hash clients manifest_hash ttl retention actor k dg)
    with run show ?thesis by (auto elim!: outcomeE intro: create_round_barriers [OF i(1-3)])
  next
    case (Purge_Round now rid)
    with run have "s' = s \<or> s' = purged rid s" by (auto elim!: outcomeE dest: purge_result)
    with i(1,3) purged_barriers show ?thesis by blast
  next
    case (Acknowledge_Final_Key now tnow rid client ad k dg)
    with run obtain v where v: "acknowledge_final_key now tnow rid client ad k dg s = (v, s')" by (auto elim: outcomeE)
    have "client \<in> set (participants_json r)" if "round_of rid s = Some r" for r
      using adm Acknowledge_Final_Key that by simp
    with v show ?thesis by (intro acknowledge_final_key_barriers [OF i(1,3)])
  next
    case (Record_Slot now tnow rid client body k dg)
    with run show ?thesis by (auto elim!: outcomeE intro: record_json_slot_barriers [OF i(1,3)])
  next
    case (Key_Complete now tnow rid client commitment k dg)
    with run show ?thesis by (auto elim!: outcomeE intro: key_complete_barriers [OF i(1,3)])
  next
    case (Record_Task_Artifact now rid client tid stored cd nonce sig k dg)
    with run show ?thesis by (auto elim!: outcomeE intro: record_task_artifact_barriers [OF i(3)])
  next
    case (Acknowledge_Task now rid client tid ad k dg)
    with run show ?thesis by (auto elim!: outcomeE intro: acknowledge_task_barriers [OF i(3)])
  next
    case (Record_Final_Key now rid client stored cd nonce sig k dg)
    with run show ?thesis by (auto elim!: outcomeE intro: record_final_key_barriers [OF i(3)])
  next
    case (Record_Update now tnow job_id rid client stored tag k dg)
    with run show ?thesis by (auto elim!: outcomeE intro: record_update_barriers [OF i(1,3)])
  next
    case (Complete_Job now tnow job_id rid token stored tag)
    with run show ?thesis by (auto elim!: outcomeE intro: complete_job_barriers [OF i(1,3)])
  next
    case (Complete_Participant now tnow rid client k dg)
    with run show ?thesis by (auto elim!: outcomeE intro: complete_participant_barriers [OF i(1,3)])
  qed (use False in simp_all)
qed

lemma perform_graphs:
  assumes inv: "invariant sha s" and adm: "admitted c s" and run: "perform sha c s = (res, s')"
  shows "graphs_ok sha s'"
proof (cases "only_failing c")
  case True
  with perform_fails run have "only_fails s s'" by (blast dest: guaranteesD)
  then show ?thesis using graphs_only_fails invariantD(4) [OF inv] by blast
next
  case False
  note i = invariantD [OF inv]
  show ?thesis
  proof (cases c)
    case (Create_Round now rid federation version schema schema_hash clients manifest_hash ttl retention actor k dg)
    with run show ?thesis by (auto elim!: outcomeE intro: create_round_graphs [OF i(1,2,4)])
  next
    case (Purge_Round now rid)
    with run have "s' = s \<or> s' = purged rid s" by (auto elim!: outcomeE dest: purge_result)
    with i(4) purged_graphs show ?thesis by blast
  next
    case (Acknowledge_Final_Key now tnow rid client ad k dg)
    with run obtain v where v: "acknowledge_final_key now tnow rid client ad k dg s = (v, s')" by (auto elim: outcomeE)
    have "client \<in> set (participants_json r)" if "round_of rid s = Some r" for r
      using adm Acknowledge_Final_Key that by simp
    with v show ?thesis by (intro acknowledge_final_key_graphs [OF i(1,3,4)])
  next
    case (Record_Slot now tnow rid client body k dg)
    with run show ?thesis by (auto elim!: outcomeE intro: record_json_slot_graphs [OF i(1,4)])
  next
    case (Key_Complete now tnow rid client commitment k dg)
    with run show ?thesis by (auto elim!: outcomeE intro: key_complete_graphs [OF i(1,3,4)])
  next
    case (Record_Task_Artifact now rid client tid stored cd nonce sig k dg)
    with run show ?thesis by (auto elim!: outcomeE intro: record_task_artifact_graphs [OF i(1,3,4)])
  next
    case (Acknowledge_Task now rid client tid ad k dg)
    with run show ?thesis by (auto elim!: outcomeE intro: acknowledge_task_graphs [OF i(1,3,4)])
  next
    case (Record_Final_Key now rid client stored cd nonce sig k dg)
    with run show ?thesis by (auto elim!: outcomeE intro: record_final_key_graphs [OF i(1,3,4)])
  next
    case (Record_Update now tnow job_id rid client stored tag k dg)
    with run show ?thesis by (auto elim!: outcomeE intro: record_update_graphs [OF i(1,4)])
  next
    case (Complete_Job now tnow job_id rid token stored tag)
    with run show ?thesis by (auto elim!: outcomeE intro: complete_job_graphs [OF i(1,4)])
  next
    case (Complete_Participant now tnow rid client k dg)
    with run show ?thesis by (auto elim!: outcomeE intro: complete_participant_graphs [OF i(1,4)])
  qed (use False in simp_all)
qed

lemma perform_links:
  assumes inv: "invariant sha s" and adm: "admitted c s" and run: "perform sha c s = (res, s')"
  shows "links_ok s'"
proof (cases "only_failing c")
  case True
  with perform_fails run have "only_fails s s'" by (blast dest: guaranteesD)
  then show ?thesis using links_only_fails invariantD(5) [OF inv] by blast
next
  case False
  note i = invariantD [OF inv]
  show ?thesis
  proof (cases c)
    case (Create_Round now rid federation version schema schema_hash clients manifest_hash ttl retention actor k dg)
    with run show ?thesis by (auto elim!: outcomeE intro: create_round_links [OF i(5)])
  next
    case (Purge_Round now rid)
    with run have "s' = s \<or> s' = purged rid s" by (auto elim!: outcomeE dest: purge_result)
    with i(5) purged_links show ?thesis by blast
  next
    case (Acknowledge_Final_Key now tnow rid client ad k dg)
    with run obtain v where v: "acknowledge_final_key now tnow rid client ad k dg s = (v, s')" by (auto elim: outcomeE)
    then show ?thesis by (rule acknowledge_final_key_links [OF i(1,5)])
  next
    case (Record_Slot now tnow rid client body k dg)
    with run show ?thesis by (auto elim!: outcomeE intro: record_json_slot_links [OF i(1,5)])
  next
    case (Key_Complete now tnow rid client commitment k dg)
    with run show ?thesis by (auto elim!: outcomeE intro: key_complete_links [OF i(1,5)])
  next
    case (Record_Task_Artifact now rid client tid stored cd nonce sig k dg)
    with run show ?thesis by (auto elim!: outcomeE intro: record_task_artifact_links [OF i(1,5)])
  next
    case (Acknowledge_Task now rid client tid ad k dg)
    with run show ?thesis by (auto elim!: outcomeE intro: acknowledge_task_links [OF i(5)])
  next
    case (Record_Final_Key now rid client stored cd nonce sig k dg)
    with run show ?thesis by (auto elim!: outcomeE intro: record_final_key_links [OF i(5)])
  next
    case (Record_Update now tnow job_id rid client stored tag k dg)
    with run show ?thesis by (auto elim!: outcomeE intro: record_update_links [OF i(1,5)])
  next
    case (Complete_Job now tnow job_id rid token stored tag)
    with run show ?thesis by (auto elim!: outcomeE intro: complete_job_links [OF i(1,5)])
  next
    case (Complete_Participant now tnow rid client k dg)
    with run show ?thesis by (auto elim!: outcomeE intro: complete_participant_links [OF i(1,5)])
  qed (use False in simp_all)
qed

lemma perform_invariant:
  assumes "invariant sha s" "admitted c s" "perform sha c s = (res, s')"
  shows "invariant sha s'"
proof -
  note i = invariantD [OF assms(1)]
  from perform_constraints [OF i(1,2,5) assms(3)] perform_barriers [OF assms] perform_graphs [OF assms]
    perform_links [OF assms]
  show ?thesis by (simp add: invariant_def)
qed

lemma reachable_invariant: "reachable sha s \<Longrightarrow> invariant sha s"
  by (induction rule: reachable.induct)
    (auto intro: empty_invariant perform_invariant dest!: initialize_members [THEN guaranteesD]
      simp: members_invariant members_only_def)

end
