(* ===== verification/Jobs.thy ===== *)
theory Jobs
  imports System
begin

text \<open>
  The job table of reachable states: every call takes every job along the abstract machine of
  \<open>Job_Machine\<close>, a claim is exclusive while its lease runs, and the attempts are bounded.
\<close>

section \<open>Refinement of the job machine\<close>

definition jobs_fine :: "db \<Rightarrow> bool" where
  "jobs_fine s \<longleftrightarrow> distinct (map j_id (jobs s)) \<and> (\<forall>j\<in>set (jobs s). job_ok j \<and> j_max_attempts j = 3)"

definition jobs_progress :: "db \<Rightarrow> db \<Rightarrow> bool" where
  "jobs_progress s s' \<longleftrightarrow> (jobs_fine s \<longrightarrow>
     jobs_fine s' \<and> (\<exists>ks new. jobs s' = ks @ new \<and> list_all2 job_step\<^sup>*\<^sup>* (jobs s) ks))"

lemma jobs_progress_same: "jobs s' = jobs s \<Longrightarrow> jobs_progress s s'"
  unfolding jobs_progress_def jobs_fine_def
  by (intro impI conjI exI [of _ "jobs s"] exI [of _ "[]"] list_all2_refl) simp_all

lemma jobs_progress_trans:
  assumes "jobs_progress s t" "jobs_progress t u"
  shows "jobs_progress s u"
  unfolding jobs_progress_def
proof
  assume fine: "jobs_fine s"
  with assms(1) obtain ks new where t: "jobs_fine t" "jobs t = ks @ new" "list_all2 job_step\<^sup>*\<^sup>* (jobs s) ks"
    by (auto simp: jobs_progress_def)
  with assms(2) obtain ls more where u: "jobs_fine u" "jobs u = ls @ more" "list_all2 job_step\<^sup>*\<^sup>* (ks @ new) ls"
    by (auto simp: jobs_progress_def)
  from u(3) obtain ls1 ls2 where ls: "ls = ls1 @ ls2" "list_all2 job_step\<^sup>*\<^sup>* ks ls1"
    by (auto simp: list_all2_append1)
  have "list_all2 job_step\<^sup>*\<^sup>* (jobs s) ls1"
    by (rule list_all2_trans [OF _ t(3) ls(2)]) simp
  with u ls(1) show "jobs_fine u \<and> (\<exists>ks new. jobs u = ks @ new \<and> list_all2 job_step\<^sup>*\<^sup>* (jobs s) ks)"
    by (intro conjI exI [of _ ls1] exI [of _ "ls2 @ more"]) auto
qed

lemma jobs_progress_update:
  assumes "\<And>j. j_id (h j) = j_id j" "\<And>j. j \<in> set (jobs s) \<Longrightarrow> job_ok j \<Longrightarrow> P j \<Longrightarrow> job_step j (h j)"
  shows "jobs_progress s (jobs_update (update_where P h) s)"
  unfolding jobs_progress_def
proof
  assume fine: "jobs_fine s"
  have "job_step\<^sup>*\<^sup>* j (if P j then h j else j)" if "j \<in> set (jobs s)" for j
    using that fine assms(2) by (auto simp: jobs_fine_def)
  then have "list_all2 job_step\<^sup>*\<^sup>* (jobs s) (update_where P h (jobs s))"
    by (auto simp: update_where_def list_all2_conv_all_nth)
  moreover have "jobs_fine (jobs_update (update_where P h) s)"
  proof -
    have "\<forall>j\<in>set (jobs s). P j \<longrightarrow> job_ok (h j) \<and> j_max_attempts (h j) = 3"
      using fine assms(2) job_step_ok job_step_keys unfolding jobs_fine_def by metis
    with fine assms(1) show ?thesis by (auto simp: jobs_fine_def map_update_where set_update_where)
  qed
  ultimately show "jobs_fine (jobs_update (update_where P h) s) \<and>
      (\<exists>ks new. jobs (jobs_update (update_where P h) s) = ks @ new \<and> list_all2 job_step\<^sup>*\<^sup>* (jobs s) ks)"
    by (intro conjI exI [of _ "update_where P h (jobs s)"] exI [of _ "[]"]) auto
qed

lemma jobs_progress_new:
  assumes "\<not> list_ex (\<lambda>k. j_id k = job_id \<or> j_round k = rid) (jobs s)"
  shows "jobs_progress s (jobs_update (\<lambda>js. js @ [new_job job_id rid]) s)"
  using assms
  unfolding jobs_progress_def
  by (intro impI conjI exI [of _ "jobs s"] exI [of _ "[new_job job_id rid]"] list_all2_refl)
    (auto simp: jobs_fine_def new_job_def job_ok_def list_ex_iff)

lemma jobs_progress_claim:
  assumes "claimable now s j" "j \<in> set (jobs s)"
  shows "jobs_progress s (jobs_update (update_where (\<lambda>k. j_id k = j_id j \<and> j_state k = JOB_READY)
    (take_claim now lease token)) s)"
proof (cases "jobs_fine s")
  case True
  have only: "k = j" if "k \<in> set (jobs s)" "j_id k = j_id j" for k
    using True that assms(2) by (intro distinct_key_unique [of j_id]) (auto simp: jobs_fine_def)
  show ?thesis
  proof (rule jobs_progress_update)
    fix k assume "k \<in> set (jobs s)" "j_id k = j_id j \<and> j_state k = JOB_READY"
    with only have "k = j" by blast
    with assms(1) show "job_step k (take_claim now lease token k)"
      by (auto simp: claimable_def intro: job_step.claim)
  qed (simp add: take_claim_def)
qed (simp add: jobs_progress_def)

interpretation job_law: statement_contract jobs_progress "\<lambda>_. True"
proof unfold_locales
  show "jobs_progress s s" for s by (rule jobs_progress_same) simp
  show "jobs_progress s t \<Longrightarrow> jobs_progress t u \<Longrightarrow> jobs_progress s u" for s t u by (rule jobs_progress_trans)
  show "guarantees jobs_progress (transition now rid source target actor event detail)"
    for now rid source target actor event detail
    by (rule transition_guarantees) (auto intro: jobs_progress_same)
  show "guarantees jobs_progress (claim_ready now token lease_seconds)" for now token lease_seconds
    by (rule claim_ready_guarantees) (auto intro: jobs_progress_same jobs_progress_claim)
  show "job_lawful P h \<Longrightarrow> stmt_guarantees jobs_progress (always (jobs_update (update_where P h)))" for P h
    by (auto simp: stmt_guarantees_always job_lawful_def intro!: jobs_progress_update)
  show "stmt_guarantees jobs_progress (insert_job (new_job job_id rid))" for rid job_id
    unfolding insert_job_def stmt_guarantees_checked
    by (intro allI impI jobs_progress_new) (auto simp: new_job_def)
qed (auto simp: insert_defs submit_update_def stmt_guarantees_checked stmt_guarantees_always release_tasks_def
    intro: jobs_progress_same)

lemma purge_jobs: "jobs_fine s \<Longrightarrow> jobs_fine (purged rid s)"
  by (auto simp: jobs_fine_def purged_def distinct_delete)

lemma perform_jobs:
  assumes "jobs_fine s" "perform sha c s = (res, s')"
  shows "jobs_fine s'"
proof (cases "is_purge c")
  case True
  then obtain now rid where c: "c = Purge_Round now rid" by (cases c) auto
  with assms(2) have "s' = s \<or> s' = purged rid s" by (auto elim!: outcomeE dest: purge_result)
  with assms(1) purge_jobs show ?thesis by blast
next
  case False
  with job_law.g_perform [of c sha] assms show ?thesis by (auto simp: jobs_progress_def dest: guaranteesD)
qed

lemma reachable_jobs: "reachable sha s \<Longrightarrow> jobs_fine s"
proof (induction rule: reachable.induct)
  case empty
  show ?case by (simp add: jobs_fine_def empty_db_def)
next
  case step
  then show ?case using perform_jobs by blast
next
  case enrolled
  then show ?case
    by (auto dest!: initialize_members [THEN guaranteesD] simp: members_only_def jobs_fine_def)
qed

lemma perform_job_steps:
  assumes "jobs_fine s" "perform sha c s = (res, s')" "\<not> is_purge c" "j \<in> set (jobs s)"
  shows "\<exists>j'\<in>set (jobs s'). job_step\<^sup>*\<^sup>* j j'"
proof -
  from job_law.g_perform [of c sha] assms(2,3) have "jobs_progress s s'" by (blast dest: guaranteesD)
  with assms(1) obtain ks new where ks: "jobs s' = ks @ new" "list_all2 job_step\<^sup>*\<^sup>* (jobs s) ks"
    by (auto simp: jobs_progress_def)
  from assms(4) obtain i where "i < length (jobs s)" "jobs s ! i = j" by (auto simp: in_set_conv_nth)
  with ks have "job_step\<^sup>*\<^sup>* j (ks ! i)" "ks ! i \<in> set (jobs s')"
    by (auto simp: list_all2_conv_all_nth)
  then show ?thesis by blast
qed

section \<open>Claims\<close>

lemma release_stale_keeps:
  assumes "\<forall>e\<in>set expired. j_id e \<noteq> j_id k" "release_stale now tnow expired s = (res, s')" "k \<in> set (jobs s)"
  shows "k \<in> set (jobs s')"
  using assms
proof (induction expired arbitrary: s)
  case (Cons e es)
  have other: "k \<in> set (update_where (\<lambda>j. j_id j = j_id e \<and> j_state j = CLAIMED) f (jobs s))" for f
    using Cons.prems(1,3) by (force simp: set_update_where)
  have moved: "jobs t' = jobs t" if "transition n r a b c ev d t = (v, t')" for n r a b c ev d t v t'
    using transition_shape [OF that] by auto
  show ?case
    using Cons.prems(2) Cons.IH [rotated] other Cons.prems(1)
    by (auto simp: Let_def audit_always call_def dest!: moved split: if_splits option.splits prod.splits sum.splits)
qed simp

text \<open>A running claim survives the claims of other workers.\<close>

lemma claim_job_spares:
  assumes "jobs_fine s" "claim_job now tnow token lease s = (res, s')" "k \<in> set (jobs s)"
    and "j_state k = CLAIMED" "j_lease_until k = Some t" "now < t"
  shows "k \<in> set (jobs s')"
proof -
  let ?expired = "filter (stale now lease) (jobs s)"
  have other: "\<forall>e\<in>set ?expired. j_id e \<noteq> j_id k"
  proof
    fix e assume e: "e \<in> set ?expired"
    have "e \<noteq> k" using e assms(4-6) by (auto simp: stale_def)
    moreover have "e = k" if "j_id e = j_id k"
      using that e assms(1,3) by (intro distinct_key_unique [of j_id]) (auto simp: jobs_fine_def)
    ultimately show "j_id e \<noteq> j_id k" by blast
  qed
  have ready: "k \<in> set (jobs v)" if "claim_ready now token lease u = (x, v)" "k \<in> set (jobs u)" for u x v
  proof -
    have "k \<in> set (update_where (\<lambda>j. j_id j = i \<and> j_state j = JOB_READY) f (jobs u))" for i f
      using that(2) assms(4) by (force simp: set_update_where)
    with that show ?thesis by (auto simp: claim_ready_def Let_def split: option.splits if_splits)
  qed
  show ?thesis
    using assms(2,3) release_stale_keeps [OF other, of now tnow s] ready
    by (auto simp: claim_job_def transaction_def call_def split: if_splits prod.splits sum.splits)
qed

lemma count_claimed:
  assumes "distinct (map j_id (jobs s))" "j \<in> set (jobs s)" "j_state j = JOB_READY"
  shows "count_where (\<lambda>k. j_id k = j_id j \<and> j_state k = JOB_READY) (jobs s) = 1"
proof -
  have "filter (\<lambda>k. j_id k = j_id j \<and> j_state k = JOB_READY) (jobs s) = [j]"
  proof (rule filter_unique)
    show "\<forall>k\<in>set (jobs s). j_id k = j_id j \<and> j_state k = JOB_READY \<longrightarrow> k = j"
      using distinct_key_unique [OF assms(1) _ assms(2)] by blast
  qed (use assms in \<open>simp_all add: distinct_map\<close>)
  then show ?thesis by (simp add: count_where_def)
qed

text \<open>What a worker that got a job knows of it.\<close>

lemma claim_job_ok:
  assumes "jobs_fine s" "claim_job now tnow token lease s = (Inr (Some j), s')"
  shows "j \<in> set (jobs s')" "owned (j_id j) token j" "j_lease_until j = Some (now + lease)"
    "0 < j_attempts j" "j_attempts j \<le> j_max_attempts j"
    "\<exists>r\<in>set (rounds s'). round_id r = j_round j \<and> status r = AGGREGATING \<and> now < deadline_at r"
proof -
  from assms(2) obtain u where u: "release_stale now tnow (filter (stale now lease) (jobs s)) s = (Inr (), u)"
    "claim_ready now token lease u = (Inr (Some j), s')"
    by (auto simp: claim_job_def tx_simps split: if_splits)
  have fine: "jobs_fine u"
    using guaranteesD [OF job_law.g_release_stale [OF TrueI] u(1)] assms(1) by (simp add: jobs_progress_def)
  let ?mine = "\<lambda>i k. j_id k = j_id i \<and> j_state k = JOB_READY"
  from u(2) obtain i where i: "fetchone (claimable now u) (jobs u) = Some i"
    and s': "s' = jobs_update (update_where (?mine i) (take_claim now lease token)) u"
    and found: "fetchone (\<lambda>k. j_id k = j_id i) (jobs s') = Some j"
    by (auto simp: claim_ready_def Let_def split: option.splits if_splits)
  from find_SomeD [OF i] have i': "i \<in> set (jobs u)" "claimable now u i" by auto
  have "find_i": "fetchone (\<lambda>k. j_id k = j_id i) (jobs u) = Some i"
    using fine i'(1) by (intro distinct_key_find) (auto simp: jobs_fine_def)
  have "fetchone (\<lambda>k. j_id k = j_id i) (jobs s')
      = map_option (\<lambda>k. if ?mine i k then take_claim now lease token k else k) (fetchone (\<lambda>k. j_id k = j_id i) (jobs u))"
    unfolding s' by (simp add: find_update_where take_claim_def)
  with found find_i i'(2) have j: "j = take_claim now lease token i" by (simp add: claimable_def)
  show "j \<in> set (jobs s')" using find_Some_mem [OF found] .
  show "owned (j_id j) token j" "j_lease_until j = Some (now + lease)" "0 < j_attempts j"
    "j_attempts j \<le> j_max_attempts j"
    using i'(2) by (auto simp: j take_claim_def owned_def claimable_def)
  show "\<exists>r\<in>set (rounds s'). round_id r = j_round j \<and> status r = AGGREGATING \<and> now < deadline_at r"
    using i'(2) by (auto simp: j s' take_claim_def claimable_def list_ex_iff)
qed

end
