(* ===== verification/Sample_Run.thy ===== *)
theory Sample_Run
  imports Jobs
begin

text \<open>
  Two rounds played through the model, at which the properties of reachable states are checked: a
  round of protocol 1.1 that has just committed its tree plan, and a round of protocol 1.0 whose
  updates are complete and whose job a worker has claimed. The states are written out, and the
  kernel evaluates the calls that lead to them.
\<close>

section \<open>Calls\<close>

fun run_calls :: "(bytes \<Rightarrow> bytes) \<Rightarrow> db_call list \<Rightarrow> db \<Rightarrow> db" where
  "run_calls sha [] s = s"
| "run_calls sha (c # cs) s = run_calls sha cs (snd (perform sha c s))"

definition zero_digest :: "bytes \<Rightarrow> bytes" where "zero_digest bs = replicate 32 0"

definition sample_schema :: model_schema where
  "sample_schema = \<lparr>schema_aggregation_policy = ''EQUAL_WEIGHTED'',
     entries = [\<lparr>tensor_name = ''w'', shape = [2], dtype = ''float32'', policy = Mean_Policy\<rparr>],
     schema_precision_bits = 16\<rparr>"

definition sample_create :: "string \<Rightarrow> string \<Rightarrow> db_call" where
  "sample_create rid version = Create_Round 0 rid ''fed'' version sample_schema ''h'' [''a'', ''b'', ''c''] ''m''
     1800 86400 ''operator'' rid ''d''"

definition sample_slot :: "string \<Rightarrow> string \<Rightarrow> db_call" where
  "sample_slot rid client = Record_Slot 1 1 rid client
     (PublicKeyBody \<lparr>key_text = ''k'', key_signature = ''s''\<rparr>) ''k'' ''d''"

definition sample_commit :: "string \<Rightarrow> string \<Rightarrow> db_call" where
  "sample_commit rid client = Key_Complete 2 2 rid client ''c'' ''k'' ''d''"

definition sample_object :: "string \<Rightarrow> stored_object" where
  "sample_object name = \<lparr>object_id = name, stored_path = ''/'' @ name, stored_digest = ''x'', stored_size = 20\<rparr>"

definition sample_update :: "string \<Rightarrow> string \<Rightarrow> db_call" where
  "sample_update rid client = Record_Update 3 3 ''j'' rid client (sample_object (''u'' @ client)) ''t'' ''k'' ''d''"


text \<open>The calls that the API admits without looking at the participants.\<close>

fun always_admitted :: "db_call \<Rightarrow> bool" where
  "always_admitted (Acknowledge_Final_Key now tnow rid client ad k dg) = False"
| "always_admitted _ = True"

lemma always_admitted: "always_admitted c \<Longrightarrow> admitted c s"
  by (cases c) simp_all

lemma reachable_run:
  "reachable sha s \<Longrightarrow> list_all always_admitted cs \<Longrightarrow> reachable sha (run_calls sha cs s)"
proof (induction cs arbitrary: s)
  case (Cons c cs)
  then have "admitted c s" by (simp add: always_admitted)
  with Cons.prems(1) have "reachable sha (snd (perform sha c s))"
    by (rule reachable.step) (rule prod.collapse [symmetric])
  with Cons show ?case by simp
qed simp

section \<open>A round in key aggregation\<close>

definition sample_setup :: db where
  "sample_setup = \<lparr>members_of = [],
    rounds =
      [\<lparr>protocol_version = ''1.1'', federation_id = ''fed'',
          round_id = ''r1'', model_schema_hash = ''h'',
          participant_manifest_hash = ''m'',
          aggregation_policy = ''EQUAL_WEIGHTED'', precision_bits = 16,
          model_schema_json =
            \<lparr>schema_aggregation_policy = ''EQUAL_WEIGHTED'',
               entries =
                 [\<lparr>tensor_name = ''w'', shape = [2], dtype = ''float32'',
                     policy = Mean_Policy\<rparr>],
               schema_precision_bits = 16\<rparr>,
          participants_json = [''a'', ''b'', ''c''], expected_count = 3,
          status = KEY_SETUP, state_version = 2, created_at = 0,
          deadline_at = 1800, completed_at = None, retention_at = 86400,
          failure_code = None, failure_detail = None\<rparr>],
    participants =
      [\<lparr>p_round = ''r1'', p_client = ''a'', p_state = READY_FOR_UPDATE,
          p_public_key = Some \<lparr>key_text = ''k'', key_signature = ''s''\<rparr>,
          p_key_bundle = None, p_commitment = Some ''c'',
          p_update_artifact = None, p_update_digest = None,
          p_integrity_tag = None, p_completed = False, p_last_seen = 2\<rparr>,
       \<lparr>p_round = ''r1'', p_client = ''b'', p_state = READY_FOR_UPDATE,
          p_public_key = Some \<lparr>key_text = ''k'', key_signature = ''s''\<rparr>,
          p_key_bundle = None, p_commitment = Some ''c'',
          p_update_artifact = None, p_update_digest = None,
          p_integrity_tag = None, p_completed = False, p_last_seen = 2\<rparr>,
       \<lparr>p_round = ''r1'', p_client = ''c'', p_state = PUBLIC_KEY_SUBMITTED,
          p_public_key = Some \<lparr>key_text = ''k'', key_signature = ''s''\<rparr>,
          p_key_bundle = None, p_commitment = None,
          p_update_artifact = None, p_update_digest = None,
          p_integrity_tag = None, p_completed = False, p_last_seen = 1\<rparr>],
    artifacts = [],
    idempotency =
      [\<lparr>i_client = ''operator'', i_round = ''fed'',
          i_operation = ''create'', i_key = ''r1'', i_digest = ''d'',
          i_response =
            RoundCreated
             \<lparr>protocol_version = ''1.1'', federation_id = ''fed'',
                round_id = ''r1'', model_schema_hash = ''h'',
                participant_manifest_hash = ''m'',
                aggregation_policy = ''EQUAL_WEIGHTED'',
                precision_bits = 16, response_state = REGISTRATION_OPEN,
                response_version = 1, response_expected = 3,
                response_deadline = 1800\<rparr>,
          i_created = 0\<rparr>,
       \<lparr>i_client = ''a'', i_round = ''r1'', i_operation = ''public_key'',
          i_key = ''k'', i_digest = ''d'', i_response = SlotAccepted ''d'',
          i_created = 1\<rparr>,
       \<lparr>i_client = ''b'', i_round = ''r1'', i_operation = ''public_key'',
          i_key = ''k'', i_digest = ''d'', i_response = SlotAccepted ''d'',
          i_created = 1\<rparr>,
       \<lparr>i_client = ''c'', i_round = ''r1'', i_operation = ''public_key'',
          i_key = ''k'', i_digest = ''d'', i_response = SlotAccepted ''d'',
          i_created = 1\<rparr>,
       \<lparr>i_client = ''a'', i_round = ''r1'', i_operation = ''key_complete'',
          i_key = ''k'', i_digest = ''d'', i_response = Accepted,
          i_created = 2\<rparr>,
       \<lparr>i_client = ''b'', i_round = ''r1'', i_operation = ''key_complete'',
          i_key = ''k'', i_digest = ''d'', i_response = Accepted,
          i_created = 2\<rparr>],
    jobs = [],
    audit_events =
      [\<lparr>e_round = Some ''r1'', e_actor = ''operator'',
          e_event = ''ROUND_CREATED'', e_version = Some 1, e_created = 0,
          e_detail = None\<rparr>,
       \<lparr>e_round = Some ''r1'', e_actor = ''a'',
          e_event = ''PUBLIC_KEY_ACCEPTED'', e_version = None,
          e_created = 1, e_detail = None\<rparr>,
       \<lparr>e_round = Some ''r1'', e_actor = ''b'',
          e_event = ''PUBLIC_KEY_ACCEPTED'', e_version = None,
          e_created = 1, e_detail = None\<rparr>,
       \<lparr>e_round = Some ''r1'', e_actor = ''c'',
          e_event = ''PUBLIC_KEY_BARRIER'', e_version = Some 2,
          e_created = 1, e_detail = None\<rparr>,
       \<lparr>e_round = Some ''r1'', e_actor = ''c'',
          e_event = ''PUBLIC_KEY_ACCEPTED'', e_version = None,
          e_created = 1, e_detail = None\<rparr>,
       \<lparr>e_round = Some ''r1'', e_actor = ''a'',
          e_event = ''KEY_CONTEXT_ACCEPTED'', e_version = None,
          e_created = 2, e_detail = None\<rparr>,
       \<lparr>e_round = Some ''r1'', e_actor = ''b'',
          e_event = ''KEY_CONTEXT_ACCEPTED'', e_version = None,
          e_created = 2, e_detail = None\<rparr>],
    tree_plans = [], key_tasks = [], task_dependencies = [],
    task_receipts = [], final_keys = [], final_key_receipts = []\<rparr>"

definition sample_aggregation :: db where
  "sample_aggregation = \<lparr>members_of = [],
    rounds =
      [\<lparr>protocol_version = ''1.1'', federation_id = ''fed'',
          round_id = ''r1'', model_schema_hash = ''h'',
          participant_manifest_hash = ''m'',
          aggregation_policy = ''EQUAL_WEIGHTED'', precision_bits = 16,
          model_schema_json =
            \<lparr>schema_aggregation_policy = ''EQUAL_WEIGHTED'',
               entries =
                 [\<lparr>tensor_name = ''w'', shape = [2], dtype = ''float32'',
                     policy = Mean_Policy\<rparr>],
               schema_precision_bits = 16\<rparr>,
          participants_json = [''a'', ''b'', ''c''], expected_count = 3,
          status = KEY_AGGREGATION, state_version = 3, created_at = 0,
          deadline_at = 1800, completed_at = None, retention_at = 86400,
          failure_code = None, failure_detail = None\<rparr>],
    participants =
      [\<lparr>p_round = ''r1'', p_client = ''a'', p_state = READY_FOR_UPDATE,
          p_public_key = Some \<lparr>key_text = ''k'', key_signature = ''s''\<rparr>,
          p_key_bundle = None, p_commitment = Some ''c'',
          p_update_artifact = None, p_update_digest = None,
          p_integrity_tag = None, p_completed = False, p_last_seen = 2\<rparr>,
       \<lparr>p_round = ''r1'', p_client = ''b'', p_state = READY_FOR_UPDATE,
          p_public_key = Some \<lparr>key_text = ''k'', key_signature = ''s''\<rparr>,
          p_key_bundle = None, p_commitment = Some ''c'',
          p_update_artifact = None, p_update_digest = None,
          p_integrity_tag = None, p_completed = False, p_last_seen = 2\<rparr>,
       \<lparr>p_round = ''r1'', p_client = ''c'', p_state = READY_FOR_UPDATE,
          p_public_key = Some \<lparr>key_text = ''k'', key_signature = ''s''\<rparr>,
          p_key_bundle = None, p_commitment = Some ''c'',
          p_update_artifact = None, p_update_digest = None,
          p_integrity_tag = None, p_completed = False, p_last_seen = 2\<rparr>],
    artifacts = [],
    idempotency =
      [\<lparr>i_client = ''operator'', i_round = ''fed'',
          i_operation = ''create'', i_key = ''r1'', i_digest = ''d'',
          i_response =
            RoundCreated
             \<lparr>protocol_version = ''1.1'', federation_id = ''fed'',
                round_id = ''r1'', model_schema_hash = ''h'',
                participant_manifest_hash = ''m'',
                aggregation_policy = ''EQUAL_WEIGHTED'',
                precision_bits = 16, response_state = REGISTRATION_OPEN,
                response_version = 1, response_expected = 3,
                response_deadline = 1800\<rparr>,
          i_created = 0\<rparr>,
       \<lparr>i_client = ''a'', i_round = ''r1'', i_operation = ''public_key'',
          i_key = ''k'', i_digest = ''d'', i_response = SlotAccepted ''d'',
          i_created = 1\<rparr>,
       \<lparr>i_client = ''b'', i_round = ''r1'', i_operation = ''public_key'',
          i_key = ''k'', i_digest = ''d'', i_response = SlotAccepted ''d'',
          i_created = 1\<rparr>,
       \<lparr>i_client = ''c'', i_round = ''r1'', i_operation = ''public_key'',
          i_key = ''k'', i_digest = ''d'', i_response = SlotAccepted ''d'',
          i_created = 1\<rparr>,
       \<lparr>i_client = ''a'', i_round = ''r1'', i_operation = ''key_complete'',
          i_key = ''k'', i_digest = ''d'', i_response = Accepted,
          i_created = 2\<rparr>,
       \<lparr>i_client = ''b'', i_round = ''r1'', i_operation = ''key_complete'',
          i_key = ''k'', i_digest = ''d'', i_response = Accepted,
          i_created = 2\<rparr>,
       \<lparr>i_client = ''c'', i_round = ''r1'', i_operation = ''key_complete'',
          i_key = ''k'', i_digest = ''d'', i_response = Accepted,
          i_created = 2\<rparr>],
    jobs = [],
    audit_events =
      [\<lparr>e_round = Some ''r1'', e_actor = ''operator'',
          e_event = ''ROUND_CREATED'', e_version = Some 1, e_created = 0,
          e_detail = None\<rparr>,
       \<lparr>e_round = Some ''r1'', e_actor = ''a'',
          e_event = ''PUBLIC_KEY_ACCEPTED'', e_version = None,
          e_created = 1, e_detail = None\<rparr>,
       \<lparr>e_round = Some ''r1'', e_actor = ''b'',
          e_event = ''PUBLIC_KEY_ACCEPTED'', e_version = None,
          e_created = 1, e_detail = None\<rparr>,
       \<lparr>e_round = Some ''r1'', e_actor = ''c'',
          e_event = ''PUBLIC_KEY_BARRIER'', e_version = Some 2,
          e_created = 1, e_detail = None\<rparr>,
       \<lparr>e_round = Some ''r1'', e_actor = ''c'',
          e_event = ''PUBLIC_KEY_ACCEPTED'', e_version = None,
          e_created = 1, e_detail = None\<rparr>,
       \<lparr>e_round = Some ''r1'', e_actor = ''a'',
          e_event = ''KEY_CONTEXT_ACCEPTED'', e_version = None,
          e_created = 2, e_detail = None\<rparr>,
       \<lparr>e_round = Some ''r1'', e_actor = ''b'',
          e_event = ''KEY_CONTEXT_ACCEPTED'', e_version = None,
          e_created = 2, e_detail = None\<rparr>,
       \<lparr>e_round = Some ''r1'', e_actor = ''c'',
          e_event = ''KEY_CONTEXT_ACCEPTED'', e_version = None,
          e_created = 2, e_detail = None\<rparr>,
       \<lparr>e_round = Some ''r1'', e_actor = ''coordinator'',
          e_event = ''TREE_PLAN_COMMITTED'', e_version = None,
          e_created = 2,
          e_detail =
            Some
             ''0000000000000000000000000000000000000000000000000000000000000000''\<rparr>,
       \<lparr>e_round = Some ''r1'', e_actor = ''c'',
          e_event = ''KEY_SETUP_BARRIER'', e_version = Some 3,
          e_created = 2, e_detail = None\<rparr>],
    tree_plans =
      [\<lparr>tp_round = ''r1'',
          tp_hash =
            ''0000000000000000000000000000000000000000000000000000000000000000'',
          tp_plan =
            \<lparr>plan_protocol_version = ''1.1'',
               plan_participants = [''b'', ''c'', ''a''],
               plan_groups =
                 [\<lparr>group_id = 0, members = [''b'', ''c'', ''a''],
                     coordinator = ''b''\<rparr>],
               plan_tasks =
                 [\<lparr>task_id = ''g0-start'', action = GROUP_START,
                     stage = GROUP, level = 0, sender = ''b'',
                     receiver = ''c'', dependencies = []\<rparr>,
                  \<lparr>task_id = ''g0-add-1'', action = GROUP_ADD,
                     stage = GROUP, level = 0, sender = ''c'',
                     receiver = ''a'', dependencies = [''g0-start'']\<rparr>,
                  \<lparr>task_id = ''g0-add-2'', action = GROUP_ADD,
                     stage = GROUP, level = 0, sender = ''a'',
                     receiver = ''b'', dependencies = [''g0-add-1'']\<rparr>,
                  \<lparr>task_id = ''g0-unblind'', action = GROUP_UNBLIND,
                     stage = GROUP, level = 0, sender = ''b'',
                     receiver = ''b'', dependencies = [''g0-add-2'']\<rparr>],
               root_client_id = ''b'', root_task_id = ''g0-unblind'',
               tree_levels = 0\<rparr>,
          tp_manifest =
            [\<lparr>client_id = ''a'', public_key = ''k'', signature = ''s''\<rparr>,
             \<lparr>client_id = ''b'', public_key = ''k'', signature = ''s''\<rparr>,
             \<lparr>client_id = ''c'', public_key = ''k'', signature = ''s''\<rparr>],
          tp_created = 2\<rparr>],
    key_tasks =
      [\<lparr>task_id = ''g0-start'', action = GROUP_START, stage = GROUP,
          level = 0, sender = ''b'', receiver = ''c'', dependencies = [],
          t_round = ''r1'', t_state = READY, t_artifact = None,
          t_ciphertext_digest = None, t_nonce = None, t_signature = None,
          t_completed_at = None\<rparr>,
       \<lparr>task_id = ''g0-add-1'', action = GROUP_ADD, stage = GROUP,
          level = 0, sender = ''c'', receiver = ''a'',
          dependencies = [''g0-start''], t_round = ''r1'',
          t_state = WAITING, t_artifact = None, t_ciphertext_digest = None,
          t_nonce = None, t_signature = None, t_completed_at = None\<rparr>,
       \<lparr>task_id = ''g0-add-2'', action = GROUP_ADD, stage = GROUP,
          level = 0, sender = ''a'', receiver = ''b'',
          dependencies = [''g0-add-1''], t_round = ''r1'',
          t_state = WAITING, t_artifact = None, t_ciphertext_digest = None,
          t_nonce = None, t_signature = None, t_completed_at = None\<rparr>,
       \<lparr>task_id = ''g0-unblind'', action = GROUP_UNBLIND, stage = GROUP,
          level = 0, sender = ''b'', receiver = ''b'',
          dependencies = [''g0-add-2''], t_round = ''r1'',
          t_state = WAITING, t_artifact = None, t_ciphertext_digest = None,
          t_nonce = None, t_signature = None, t_completed_at = None\<rparr>],
    task_dependencies =
      [\<lparr>d_round = ''r1'', d_task = ''g0-add-1'',
          d_dependency = ''g0-start''\<rparr>,
       \<lparr>d_round = ''r1'', d_task = ''g0-add-2'',
          d_dependency = ''g0-add-1''\<rparr>,
       \<lparr>d_round = ''r1'', d_task = ''g0-unblind'',
          d_dependency = ''g0-add-2''\<rparr>],
    task_receipts = [], final_keys = [], final_key_receipts = []\<rparr>"

lemma sample_setup_run: "run_calls zero_digest
   [sample_create ''r1'' ''1.1'', sample_slot ''r1'' ''a'', sample_slot ''r1'' ''b'', sample_slot ''r1'' ''c'',
    sample_commit ''r1'' ''a'', sample_commit ''r1'' ''b''] empty_db = sample_setup"
  by code_simp

lemma sample_aggregation_run: "run_calls zero_digest [sample_commit ''r1'' ''c''] sample_setup = sample_aggregation"
  by code_simp

lemma sample_aggregation_reachable: "reachable zero_digest sample_aggregation"
  unfolding sample_aggregation_run [symmetric] sample_setup_run [symmetric]
  by (intro reachable_run reachable.empty)
    (simp_all add: sample_create_def sample_slot_def sample_commit_def)

section \<open>A round in aggregation\<close>

definition sample_collection :: db where
  "sample_collection = \<lparr>members_of = [],
    rounds =
      [\<lparr>protocol_version = ''1.0'', federation_id = ''fed'',
          round_id = ''r2'', model_schema_hash = ''h'',
          participant_manifest_hash = ''m'',
          aggregation_policy = ''EQUAL_WEIGHTED'', precision_bits = 16,
          model_schema_json =
            \<lparr>schema_aggregation_policy = ''EQUAL_WEIGHTED'',
               entries =
                 [\<lparr>tensor_name = ''w'', shape = [2], dtype = ''float32'',
                     policy = Mean_Policy\<rparr>],
               schema_precision_bits = 16\<rparr>,
          participants_json = [''a'', ''b'', ''c''], expected_count = 3,
          status = UPDATE_COLLECTION, state_version = 3, created_at = 0,
          deadline_at = 1800, completed_at = None, retention_at = 86400,
          failure_code = None, failure_detail = None\<rparr>],
    participants =
      [\<lparr>p_round = ''r2'', p_client = ''a'', p_state = UPDATE_SUBMITTED,
          p_public_key = Some \<lparr>key_text = ''k'', key_signature = ''s''\<rparr>,
          p_key_bundle = None, p_commitment = Some ''c'',
          p_update_artifact = Some ''ua'', p_update_digest = Some ''x'',
          p_integrity_tag = Some ''t'', p_completed = False,
          p_last_seen = 3\<rparr>,
       \<lparr>p_round = ''r2'', p_client = ''b'', p_state = UPDATE_SUBMITTED,
          p_public_key = Some \<lparr>key_text = ''k'', key_signature = ''s''\<rparr>,
          p_key_bundle = None, p_commitment = Some ''c'',
          p_update_artifact = Some ''ub'', p_update_digest = Some ''x'',
          p_integrity_tag = Some ''t'', p_completed = False,
          p_last_seen = 3\<rparr>,
       \<lparr>p_round = ''r2'', p_client = ''c'', p_state = READY_FOR_UPDATE,
          p_public_key = Some \<lparr>key_text = ''k'', key_signature = ''s''\<rparr>,
          p_key_bundle = None, p_commitment = Some ''c'',
          p_update_artifact = None, p_update_digest = None,
          p_integrity_tag = None, p_completed = False, p_last_seen = 2\<rparr>],
    artifacts =
      [\<lparr>a_id = ''ua'', a_round = ''r2'', a_client = Some ''a'',
          a_type = ''update'', a_path = ''/ua'', a_digest = ''x'',
          a_size = 20, a_created = 3\<rparr>,
       \<lparr>a_id = ''ub'', a_round = ''r2'', a_client = Some ''b'',
          a_type = ''update'', a_path = ''/ub'', a_digest = ''x'',
          a_size = 20, a_created = 3\<rparr>],
    idempotency =
      [\<lparr>i_client = ''operator'', i_round = ''fed'',
          i_operation = ''create'', i_key = ''r2'', i_digest = ''d'',
          i_response =
            RoundCreated
             \<lparr>protocol_version = ''1.0'', federation_id = ''fed'',
                round_id = ''r2'', model_schema_hash = ''h'',
                participant_manifest_hash = ''m'',
                aggregation_policy = ''EQUAL_WEIGHTED'',
                precision_bits = 16, response_state = REGISTRATION_OPEN,
                response_version = 1, response_expected = 3,
                response_deadline = 1800\<rparr>,
          i_created = 0\<rparr>,
       \<lparr>i_client = ''a'', i_round = ''r2'', i_operation = ''public_key'',
          i_key = ''k'', i_digest = ''d'', i_response = SlotAccepted ''d'',
          i_created = 1\<rparr>,
       \<lparr>i_client = ''b'', i_round = ''r2'', i_operation = ''public_key'',
          i_key = ''k'', i_digest = ''d'', i_response = SlotAccepted ''d'',
          i_created = 1\<rparr>,
       \<lparr>i_client = ''c'', i_round = ''r2'', i_operation = ''public_key'',
          i_key = ''k'', i_digest = ''d'', i_response = SlotAccepted ''d'',
          i_created = 1\<rparr>,
       \<lparr>i_client = ''a'', i_round = ''r2'', i_operation = ''key_complete'',
          i_key = ''k'', i_digest = ''d'', i_response = Accepted,
          i_created = 2\<rparr>,
       \<lparr>i_client = ''b'', i_round = ''r2'', i_operation = ''key_complete'',
          i_key = ''k'', i_digest = ''d'', i_response = Accepted,
          i_created = 2\<rparr>,
       \<lparr>i_client = ''c'', i_round = ''r2'', i_operation = ''key_complete'',
          i_key = ''k'', i_digest = ''d'', i_response = Accepted,
          i_created = 2\<rparr>,
       \<lparr>i_client = ''a'', i_round = ''r2'', i_operation = ''update'',
          i_key = ''k'', i_digest = ''d'',
          i_response = ArtifactAccepted ''ua'' ''x'' 20, i_created = 3\<rparr>,
       \<lparr>i_client = ''b'', i_round = ''r2'', i_operation = ''update'',
          i_key = ''k'', i_digest = ''d'',
          i_response = ArtifactAccepted ''ub'' ''x'' 20, i_created = 3\<rparr>],
    jobs = [],
    audit_events =
      [\<lparr>e_round = Some ''r2'', e_actor = ''operator'',
          e_event = ''ROUND_CREATED'', e_version = Some 1, e_created = 0,
          e_detail = None\<rparr>,
       \<lparr>e_round = Some ''r2'', e_actor = ''a'',
          e_event = ''PUBLIC_KEY_ACCEPTED'', e_version = None,
          e_created = 1, e_detail = None\<rparr>,
       \<lparr>e_round = Some ''r2'', e_actor = ''b'',
          e_event = ''PUBLIC_KEY_ACCEPTED'', e_version = None,
          e_created = 1, e_detail = None\<rparr>,
       \<lparr>e_round = Some ''r2'', e_actor = ''c'',
          e_event = ''PUBLIC_KEY_BARRIER'', e_version = Some 2,
          e_created = 1, e_detail = None\<rparr>,
       \<lparr>e_round = Some ''r2'', e_actor = ''c'',
          e_event = ''PUBLIC_KEY_ACCEPTED'', e_version = None,
          e_created = 1, e_detail = None\<rparr>,
       \<lparr>e_round = Some ''r2'', e_actor = ''a'',
          e_event = ''KEY_CONTEXT_ACCEPTED'', e_version = None,
          e_created = 2, e_detail = None\<rparr>,
       \<lparr>e_round = Some ''r2'', e_actor = ''b'',
          e_event = ''KEY_CONTEXT_ACCEPTED'', e_version = None,
          e_created = 2, e_detail = None\<rparr>,
       \<lparr>e_round = Some ''r2'', e_actor = ''c'',
          e_event = ''KEY_CONTEXT_ACCEPTED'', e_version = None,
          e_created = 2, e_detail = None\<rparr>,
       \<lparr>e_round = Some ''r2'', e_actor = ''c'',
          e_event = ''KEY_SETUP_BARRIER'', e_version = Some 3,
          e_created = 2, e_detail = None\<rparr>,
       \<lparr>e_round = Some ''r2'', e_actor = ''a'',
          e_event = ''UPDATE_ACCEPTED'', e_version = None, e_created = 3,
          e_detail = None\<rparr>,
       \<lparr>e_round = Some ''r2'', e_actor = ''b'',
          e_event = ''UPDATE_ACCEPTED'', e_version = None, e_created = 3,
          e_detail = None\<rparr>],
    tree_plans = [], key_tasks = [], task_dependencies = [],
    task_receipts = [], final_keys = [], final_key_receipts = []\<rparr>"

definition sample_claimed :: db where
  "sample_claimed = \<lparr>members_of = [],
    rounds =
      [\<lparr>protocol_version = ''1.0'', federation_id = ''fed'',
          round_id = ''r2'', model_schema_hash = ''h'',
          participant_manifest_hash = ''m'',
          aggregation_policy = ''EQUAL_WEIGHTED'', precision_bits = 16,
          model_schema_json =
            \<lparr>schema_aggregation_policy = ''EQUAL_WEIGHTED'',
               entries =
                 [\<lparr>tensor_name = ''w'', shape = [2], dtype = ''float32'',
                     policy = Mean_Policy\<rparr>],
               schema_precision_bits = 16\<rparr>,
          participants_json = [''a'', ''b'', ''c''], expected_count = 3,
          status = AGGREGATING, state_version = 4, created_at = 0,
          deadline_at = 1800, completed_at = None, retention_at = 86400,
          failure_code = None, failure_detail = None\<rparr>],
    participants =
      [\<lparr>p_round = ''r2'', p_client = ''a'', p_state = UPDATE_SUBMITTED,
          p_public_key = Some \<lparr>key_text = ''k'', key_signature = ''s''\<rparr>,
          p_key_bundle = None, p_commitment = Some ''c'',
          p_update_artifact = Some ''ua'', p_update_digest = Some ''x'',
          p_integrity_tag = Some ''t'', p_completed = False,
          p_last_seen = 3\<rparr>,
       \<lparr>p_round = ''r2'', p_client = ''b'', p_state = UPDATE_SUBMITTED,
          p_public_key = Some \<lparr>key_text = ''k'', key_signature = ''s''\<rparr>,
          p_key_bundle = None, p_commitment = Some ''c'',
          p_update_artifact = Some ''ub'', p_update_digest = Some ''x'',
          p_integrity_tag = Some ''t'', p_completed = False,
          p_last_seen = 3\<rparr>,
       \<lparr>p_round = ''r2'', p_client = ''c'', p_state = UPDATE_SUBMITTED,
          p_public_key = Some \<lparr>key_text = ''k'', key_signature = ''s''\<rparr>,
          p_key_bundle = None, p_commitment = Some ''c'',
          p_update_artifact = Some ''uc'', p_update_digest = Some ''x'',
          p_integrity_tag = Some ''t'', p_completed = False,
          p_last_seen = 3\<rparr>],
    artifacts =
      [\<lparr>a_id = ''ua'', a_round = ''r2'', a_client = Some ''a'',
          a_type = ''update'', a_path = ''/ua'', a_digest = ''x'',
          a_size = 20, a_created = 3\<rparr>,
       \<lparr>a_id = ''ub'', a_round = ''r2'', a_client = Some ''b'',
          a_type = ''update'', a_path = ''/ub'', a_digest = ''x'',
          a_size = 20, a_created = 3\<rparr>,
       \<lparr>a_id = ''uc'', a_round = ''r2'', a_client = Some ''c'',
          a_type = ''update'', a_path = ''/uc'', a_digest = ''x'',
          a_size = 20, a_created = 3\<rparr>],
    idempotency =
      [\<lparr>i_client = ''operator'', i_round = ''fed'',
          i_operation = ''create'', i_key = ''r2'', i_digest = ''d'',
          i_response =
            RoundCreated
             \<lparr>protocol_version = ''1.0'', federation_id = ''fed'',
                round_id = ''r2'', model_schema_hash = ''h'',
                participant_manifest_hash = ''m'',
                aggregation_policy = ''EQUAL_WEIGHTED'',
                precision_bits = 16, response_state = REGISTRATION_OPEN,
                response_version = 1, response_expected = 3,
                response_deadline = 1800\<rparr>,
          i_created = 0\<rparr>,
       \<lparr>i_client = ''a'', i_round = ''r2'', i_operation = ''public_key'',
          i_key = ''k'', i_digest = ''d'', i_response = SlotAccepted ''d'',
          i_created = 1\<rparr>,
       \<lparr>i_client = ''b'', i_round = ''r2'', i_operation = ''public_key'',
          i_key = ''k'', i_digest = ''d'', i_response = SlotAccepted ''d'',
          i_created = 1\<rparr>,
       \<lparr>i_client = ''c'', i_round = ''r2'', i_operation = ''public_key'',
          i_key = ''k'', i_digest = ''d'', i_response = SlotAccepted ''d'',
          i_created = 1\<rparr>,
       \<lparr>i_client = ''a'', i_round = ''r2'', i_operation = ''key_complete'',
          i_key = ''k'', i_digest = ''d'', i_response = Accepted,
          i_created = 2\<rparr>,
       \<lparr>i_client = ''b'', i_round = ''r2'', i_operation = ''key_complete'',
          i_key = ''k'', i_digest = ''d'', i_response = Accepted,
          i_created = 2\<rparr>,
       \<lparr>i_client = ''c'', i_round = ''r2'', i_operation = ''key_complete'',
          i_key = ''k'', i_digest = ''d'', i_response = Accepted,
          i_created = 2\<rparr>,
       \<lparr>i_client = ''a'', i_round = ''r2'', i_operation = ''update'',
          i_key = ''k'', i_digest = ''d'',
          i_response = ArtifactAccepted ''ua'' ''x'' 20, i_created = 3\<rparr>,
       \<lparr>i_client = ''b'', i_round = ''r2'', i_operation = ''update'',
          i_key = ''k'', i_digest = ''d'',
          i_response = ArtifactAccepted ''ub'' ''x'' 20, i_created = 3\<rparr>,
       \<lparr>i_client = ''c'', i_round = ''r2'', i_operation = ''update'',
          i_key = ''k'', i_digest = ''d'',
          i_response = ArtifactAccepted ''uc'' ''x'' 20, i_created = 3\<rparr>],
    jobs =
      [\<lparr>j_id = ''j'', j_round = ''r2'', j_state = CLAIMED, j_attempts = 1,
          j_max_attempts = 3, j_claimed_at = Some 4,
          j_lease_until = Some 904, j_claim_token = Some ''tok'',
          j_result_tag = None, j_last_error = None\<rparr>],
    audit_events =
      [\<lparr>e_round = Some ''r2'', e_actor = ''operator'',
          e_event = ''ROUND_CREATED'', e_version = Some 1, e_created = 0,
          e_detail = None\<rparr>,
       \<lparr>e_round = Some ''r2'', e_actor = ''a'',
          e_event = ''PUBLIC_KEY_ACCEPTED'', e_version = None,
          e_created = 1, e_detail = None\<rparr>,
       \<lparr>e_round = Some ''r2'', e_actor = ''b'',
          e_event = ''PUBLIC_KEY_ACCEPTED'', e_version = None,
          e_created = 1, e_detail = None\<rparr>,
       \<lparr>e_round = Some ''r2'', e_actor = ''c'',
          e_event = ''PUBLIC_KEY_BARRIER'', e_version = Some 2,
          e_created = 1, e_detail = None\<rparr>,
       \<lparr>e_round = Some ''r2'', e_actor = ''c'',
          e_event = ''PUBLIC_KEY_ACCEPTED'', e_version = None,
          e_created = 1, e_detail = None\<rparr>,
       \<lparr>e_round = Some ''r2'', e_actor = ''a'',
          e_event = ''KEY_CONTEXT_ACCEPTED'', e_version = None,
          e_created = 2, e_detail = None\<rparr>,
       \<lparr>e_round = Some ''r2'', e_actor = ''b'',
          e_event = ''KEY_CONTEXT_ACCEPTED'', e_version = None,
          e_created = 2, e_detail = None\<rparr>,
       \<lparr>e_round = Some ''r2'', e_actor = ''c'',
          e_event = ''KEY_CONTEXT_ACCEPTED'', e_version = None,
          e_created = 2, e_detail = None\<rparr>,
       \<lparr>e_round = Some ''r2'', e_actor = ''c'',
          e_event = ''KEY_SETUP_BARRIER'', e_version = Some 3,
          e_created = 2, e_detail = None\<rparr>,
       \<lparr>e_round = Some ''r2'', e_actor = ''a'',
          e_event = ''UPDATE_ACCEPTED'', e_version = None, e_created = 3,
          e_detail = None\<rparr>,
       \<lparr>e_round = Some ''r2'', e_actor = ''b'',
          e_event = ''UPDATE_ACCEPTED'', e_version = None, e_created = 3,
          e_detail = None\<rparr>,
       \<lparr>e_round = Some ''r2'', e_actor = ''c'',
          e_event = ''UPDATE_ACCEPTED'', e_version = None, e_created = 3,
          e_detail = None\<rparr>,
       \<lparr>e_round = Some ''r2'', e_actor = ''c'',
          e_event = ''UPDATE_BARRIER'', e_version = Some 4, e_created = 3,
          e_detail = None\<rparr>],
    tree_plans = [], key_tasks = [], task_dependencies = [],
    task_receipts = [], final_keys = [], final_key_receipts = []\<rparr>"

lemma sample_collection_run: "run_calls zero_digest
   [sample_create ''r2'' ''1.0'', sample_slot ''r2'' ''a'', sample_slot ''r2'' ''b'', sample_slot ''r2'' ''c'',
    sample_commit ''r2'' ''a'', sample_commit ''r2'' ''b'', sample_commit ''r2'' ''c'', sample_update ''r2'' ''a'',
    sample_update ''r2'' ''b''] empty_db = sample_collection"
  by code_simp

lemma sample_claimed_run: "run_calls zero_digest
   [sample_update ''r2'' ''c'', Claim_Job 4 (\<lambda>_. 4) ''tok'' 900] sample_collection = sample_claimed"
  by code_simp

lemma sample_claimed_reachable: "reachable zero_digest sample_claimed"
  unfolding sample_claimed_run [symmetric] sample_collection_run [symmetric]
  by (intro reachable_run reachable.empty)
    (simp_all add: sample_create_def sample_slot_def sample_commit_def sample_update_def)

end
