(* ===== verification/Members.thy ===== *)
theory Members
  imports Jobs
begin

text \<open>
  The enrolled members: no two rows have the same federation and client, none the same token, and only the
  enrolment at a start of the server writes them. So a token stands for one participant at most.
\<close>

definition members_ok :: "db \<Rightarrow> bool" where
  "members_ok s \<longleftrightarrow> distinct (map (\<lambda>m. (m_federation m, m_client m)) (members_of s)) \<and>
     distinct (map m_token_hash (members_of s))"

definition same_members :: "db \<Rightarrow> db \<Rightarrow> bool" where
  "same_members s s' \<longleftrightarrow> members_of s' = members_of s"

interpretation roster: statement_contract same_members "\<lambda>_. True"
proof unfold_locales
  show "guarantees same_members (claim_ready now token lease_seconds)" for now token lease_seconds
    by (rule claim_ready_guarantees) (auto simp: same_members_def)
  show "guarantees same_members (transition now rid source target actor event detail)"
    for now rid source target actor event detail
    by (rule transition_guarantees) (auto simp: same_members_def)
qed (auto simp: insert_defs stmt_guarantees_checked stmt_guarantees_always release_tasks_def same_members_def)

lemma perform_members: "perform sha c s = (res, s') \<Longrightarrow> members_of s' = members_of s"
proof (cases "is_purge c")
  case True
  then obtain now rid where c: "c = Purge_Round now rid" by (cases c) auto
  moreover assume "perform sha c s = (res, s')"
  ultimately have "s' = s \<or> s' = purged rid s" by (auto elim!: outcomeE dest: purge_result)
  then show ?thesis by (auto simp: purged_def)
next
  case False
  moreover assume "perform sha c s = (res, s')"
  ultimately show ?thesis using roster.g_perform [of c sha] by (auto simp: same_members_def dest: guaranteesD)
qed

text \<open>The upsert keeps both keys.\<close>

lemma distinct_upsert:
  assumes "distinct (map key xs)" "distinct (map h xs)" "\<And>n. n \<in> set xs \<Longrightarrow> key n \<noteq> k \<Longrightarrow> h n \<noteq> v"
  shows "distinct (map (\<lambda>n. if key n = k then v else h n) xs)"
  unfolding distinct_map
proof (intro conjI inj_onI)
  show "distinct xs" using assms(1) by (simp add: distinct_map)
  fix x y assume xy: "x \<in> set xs" "y \<in> set xs" "(if key x = k then v else h x) = (if key y = k then v else h y)"
  have "key x = key y \<or> h x = h y"
    using xy(3) assms(3) [OF xy(1)] assms(3) [OF xy(2)] by (cases "key x = k"; cases "key y = k") auto
  then show "x = y" using assms(1,2) xy(1,2) by (auto simp: distinct_map dest: inj_onD)
qed

lemma upsert_members:
  assumes "members_ok s" "upsert_member m s = Inr s'"
  shows "members_ok s'"
proof -
  let ?same = "\<lambda>n. m_federation n = m_federation m \<and> m_client n = m_client m"
  let ?ms = "members_of s"
  have others: "m_token_hash n \<noteq> m_token_hash m" if "n \<in> set ?ms" "\<not> ?same n" for n
    using assms(2) that by (auto simp: upsert_member_def Let_def checked_def list_ex_iff split: if_splits)
  have keys: "distinct (map (\<lambda>m. (m_federation m, m_client m)) ?ms)" "distinct (map m_token_hash ?ms)"
    using assms(1) by (auto simp: members_ok_def)
  show ?thesis
  proof (cases "list_ex ?same ?ms")
    case True
    let ?f = "\<lambda>n. n\<lparr>m_token_hash := m_token_hash m, m_signing_key := m_signing_key m, m_role := m_role m\<rparr>"
    have s': "members_of s' = update_where ?same ?f ?ms"
      using assms(2) True by (auto simp: upsert_member_def Let_def checked_def split: if_splits)
    have "distinct (map (\<lambda>n. if (m_federation n, m_client n) = (m_federation m, m_client m)
        then m_token_hash m else m_token_hash n) ?ms)"
      by (rule distinct_upsert [OF keys]) (use others in simp)
    then have "distinct (map m_token_hash (update_where ?same ?f ?ms))"
      by (simp add: update_where_def comp_def if_distrib [of m_token_hash] cong: if_cong)
    with keys(1) s' show ?thesis by (simp add: members_ok_def map_update_where)
  next
    case False
    then have "members_of s' = ?ms @ [m]"
      using assms(2) by (auto simp: upsert_member_def Let_def checked_def split: if_splits)
    moreover have "m_token_hash m \<notin> m_token_hash ` set ?ms"
      using False others by (fastforce simp: list_ex_iff)
    ultimately show ?thesis using False keys by (auto simp: members_ok_def list_ex_iff)
  qed
qed

interpretation admission: effect_contract "\<lambda>s s'. members_ok s \<longrightarrow> members_ok s'"
  by unfold_locales auto

lemma initialize_members_ok: "guarantees (\<lambda>s s'. members_ok s \<longrightarrow> members_ok s') (initialize_once sha federations)"
proof (induction sha federations rule: initialize_once.induct)
  case (2 sha federation client config rest)
  have "guarantees (\<lambda>s s'. members_ok s \<longrightarrow> members_ok s') (enrol sha federation client config)"
    unfolding enrol_def Let_def
    by (intro admission.flow) (auto simp: stmt_guarantees_def intro: upsert_members)
  with 2 show ?case by (simp del: call_def) (intro admission.g_call)
qed (simp add: admission.g_ret del: ret_apply)

lemma reachable_members: "reachable sha s \<Longrightarrow> members_ok s"
proof (induction rule: reachable.induct)
  case empty
  show ?case by (simp add: members_ok_def empty_db_def)
next
  case step
  then show ?case by (auto simp: members_ok_def dest: perform_members)
next
  case enrolled
  then show ?case using initialize_members_ok by (blast dest: guaranteesD)
qed

lemma member_for_token_iff:
  assumes "members_ok s"
  shows "member_for_token sha token s = Some m \<longleftrightarrow>
    m \<in> set (members_of s) \<and> m_token_hash m = hexdigest sha (encode token) \<and> \<not> m_revoked m"
proof
  assume "m \<in> set (members_of s) \<and> m_token_hash m = hexdigest sha (encode token) \<and> \<not> m_revoked m"
  then have m: "m \<in> set (members_of s)" "m_token_hash m = hexdigest sha (encode token)" "\<not> m_revoked m" by simp_all
  then have "member_for_token sha token s \<noteq> None"
    by (auto simp: member_for_token_def Let_def find_None_iff)
  then obtain n where n: "member_for_token sha token s = Some n" by blast
  then have "n \<in> set (members_of s)" "m_token_hash n = m_token_hash m"
    using m(2) by (auto simp: member_for_token_def Let_def dest!: find_SomeD)
  with assms m(1) have "n = m" by (auto simp: members_ok_def distinct_map inj_on_def)
  with n show "member_for_token sha token s = Some m" by simp
qed (auto simp: member_for_token_def Let_def dest!: find_SomeD)

end
