(* ===== verification/Quiet.thy ===== *)
theory Quiet
  imports Members
begin

text \<open>
  The calls that store no artifact: they leave the table of artifacts as it is and give no participant an
  integrity tag that another one did not have before. Together with the progress of rounds this is all that
  the files of the server rely on.
\<close>

lemma outcome_Inl: "outcome m s = (Inl e, s') \<longleftrightarrow> m s = (Inl e, s')"
  by (auto simp: outcome_def call_def split: prod.splits sum.splits)

lemma outcome_Inr: "outcome m s = (Inr u, s') \<longleftrightarrow> (\<exists>x. m s = (Inr x, s'))"
  by (auto simp: outcome_def call_def split: prod.splits sum.splits)

definition quiet :: "db \<Rightarrow> db \<Rightarrow> bool" where
  "quiet s s' \<longleftrightarrow> artifacts s' = artifacts s \<and>
     (\<forall>p\<in>set (participants s'). p_integrity_tag p = None \<or> p_integrity_tag p \<in> p_integrity_tag ` set (participants s))"

lemma quiet_same: "artifacts s' = artifacts s \<Longrightarrow> participants s' = participants s \<Longrightarrow> quiet s s'"
  by (auto simp: quiet_def)

interpretation hush: working_contract quiet "\<lambda>_. True"
proof unfold_locales
  show "quiet s s" for s by (rule quiet_same) simp_all
  show "quiet s t \<Longrightarrow> quiet t u \<Longrightarrow> quiet s u" for s t u
    unfolding quiet_def by (metis (no_types, lifting) imageE)
  show "guarantees quiet (claim_ready now token lease_seconds)" for now token lease_seconds
    by (rule claim_ready_guarantees) (auto intro: quiet_same)
  show "guarantees quiet (transition now rid source target actor event detail)"
    for now rid source target actor event detail
    by (rule transition_guarantees) (auto intro: quiet_same)
  show "(\<And>p. p_round (f p) = p_round p \<and> p_client (f p) = p_client p \<and> p_integrity_tag (f p) = p_integrity_tag p) \<Longrightarrow>
      stmt_guarantees quiet (always (participants_update (update_where (\<lambda>p. p_round p = rid \<and> p_client p = client) f)))"
    for rid client f
    by (auto simp: stmt_guarantees_always quiet_def set_update_where)
  show "p_integrity_tag p = None \<Longrightarrow> stmt_guarantees quiet (insert_participant p)" for p
    by (auto simp: insert_participant_def stmt_guarantees_checked quiet_def)
qed (auto simp: insert_defs stmt_guarantees_checked stmt_guarantees_always release_tasks_def intro: quiet_same)

fun stores :: "db_call \<Rightarrow> bool" where
  "stores (Record_Task_Artifact now rid client tid stored cd nonce sig k dg) = True"
| "stores (Record_Final_Key now rid client stored cd nonce sig k dg) = True"
| "stores (Record_Update now tnow job_id rid client stored tag k dg) = True"
| "stores (Complete_Job now tnow job_id rid token stored tag) = True"
| "stores (Purge_Round now rid) = True"
| "stores _ = False"

lemma perform_quiet: "\<not> stores c \<Longrightarrow> guarantees quiet (perform sha c)"
  by (cases c)
    (auto intro!: hush.g_outcome hush.g_create_round hush.g_record_json_slot hush.g_key_complete
      hush.g_acknowledge_task hush.g_acknowledge_final_key hush.g_claim_job hush.g_renew_job hush.g_fail_job
      hush.g_complete_participant hush.g_abort hush.g_fail_round hush.g_get_round hush.g_expire_rounds)

lemma perform_progress: "\<not> is_purge c \<Longrightarrow> guarantees rounds_progress (perform sha c)"
  by (rule progress.g_perform) simp

end
