(* ===== verification/Database_Properties.thy ===== *)
theory Database_Properties
  imports Sample_Run Quiet
begin

text \<open>
  The properties of the database as a state machine: what holds in every state that admitted
  calls reach, and what one call may do. Each property is checked at a state of \<open>Sample_Run\<close>.
\<close>

section \<open>Barriers\<close>

text \<open>C1. The barriers hold in every reachable state. The participant rows of a round are its
  participant list; from KEY_SETUP on all public keys are registered, from KEY_AGGREGATION on all
  participants committed to one key context, from UPDATE_COLLECTION on (protocol 1.1) all acknowledged the
  final key, from AGGREGATING on all updates are in, and a completed round was completed by all.\<close>

theorem barriers_hold:
  assumes "reachable sha s" "r \<in> set (rounds s)"
  shows "map p_client (participants_of (round_id r) s) = participants_json r
    \<and> expected_count r = length (participants_json r) \<and> distinct (participants_json r)
    \<and> (reached KEY_SETUP (status r) \<longrightarrow> (\<forall>p\<in>set (participants_of (round_id r) s). p_public_key p \<noteq> None))
    \<and> (reached KEY_AGGREGATION (status r) \<longrightarrow>
         (\<exists>c. c \<noteq> '''' \<and> (\<forall>p\<in>set (participants_of (round_id r) s). p_commitment p = Some c)))
    \<and> (reached UPDATE_COLLECTION (status r) \<and> protocol_version r = ''1.1'' \<longrightarrow>
         (\<forall>c\<in>set (participants_json r). \<exists>f\<in>set (final_key_receipts s). fr_round f = round_id r \<and> fr_client f = c))
    \<and> (reached AGGREGATING (status r) \<longrightarrow> (\<forall>p\<in>set (participants_of (round_id r) s). p_update_artifact p \<noteq> None))
    \<and> (status r = COMPLETED \<longrightarrow> (\<forall>p\<in>set (participants_of (round_id r) s). p_completed p))"
proof -
  note inv = invariantD [OF reachable_invariant [OF assms(1)]]
  have b: "barriers s r" using inv(3) assms(2) by (simp add: barriers_ok_def)
  have clients: "set (participants_json r) = p_client ` set (participants_of (round_id r) s)"
    using barriersD(1) [OF b] by (metis list.set_map)
  show ?thesis
    using b participants_distinct [OF inv(1) b]
    by (auto simp: barriers_def Let_def list_all_iff list_ex_iff receipts_of_def clients reached_def)
qed

theorem barriers_hold_witness:
  "map p_client (participants_of ''r2'' sample_claimed) = [''a'', ''b'', ''c''] \<and>
   p_update_artifact (hd (participants_of ''r2'' sample_claimed)) \<noteq> None"
proof -
  have "hd (rounds sample_claimed) \<in> set (rounds sample_claimed)" by (simp add: sample_claimed_def)
  from barriers_hold [OF sample_claimed_reachable this] show ?thesis
    by (simp add: sample_claimed_def reached_def participants_of_def)
qed

section \<open>The life of a round\<close>

lemma find_filter: "List.find P xs = (case filter P xs of [] \<Rightarrow> None | x # _ \<Rightarrow> Some x)"
  by (induction xs) auto

lemma same_tables_round: "same_tables gone q s s' \<Longrightarrow> round_of q s' = round_of q s"
  by (simp add: round_of_def same_tables_def find_filter)

text \<open>C2. The rounds table refines the transition table. Whatever one call does, but for the purge of this very
  round, the round stays, keeps its identity, model, participants and deadline, and moves along a path of allowed
  transitions, each of which counts the state version up by one; a terminal round does not change at all.\<close>

theorem rounds_refine_lifecycle:
  assumes "perform sha c s = (res, s')" "\<forall>now. c \<noteq> Purge_Round now rid" "round_of rid s = Some r"
  shows "\<exists>r' path. round_of rid s' = Some r' \<and> lifecycle (path @ [status r']) \<and> hd (path @ [status r']) = status r
    \<and> state_version r' = state_version r + length path \<and> frozen r' = frozen r
    \<and> (status r \<in> TERMINAL_STATES \<longrightarrow> r' = r)"
proof -
  obtain r' where r': "round_of rid s' = Some r'" "round_step\<^sup>*\<^sup>* r r'"
  proof (cases "is_purge c")
    case True
    then obtain now q where c: "c = Purge_Round now q" by (cases c) auto
    with assms(2) perform_isolated [OF _ assms(1), of q] have "same_tables {q} rid s s'" by (auto simp: others_same_def)
    then have "round_of rid s' = Some r" using assms(3) by (simp add: same_tables_round)
    then show ?thesis using that by blast
  next
    case False
    with progress.g_perform [of c sha] assms(1,3) that show ?thesis
      by (fastforce simp: rounds_progress_def dest: guaranteesD)
  qed
  with round_steps_path [OF r'(2)] round_steps_frozen [OF r'(2)] round_steps_terminal [OF r'(2)]
  show ?thesis by blast
qed

theorem rounds_refine_lifecycle_witness:
  "\<exists>r' path. round_of ''r1'' sample_aggregation = Some r' \<and> lifecycle (path @ [status r'])
    \<and> hd (path @ [status r']) = KEY_SETUP"
proof -
  have "perform zero_digest (sample_commit ''r1'' ''c'') sample_setup
      = (fst (perform zero_digest (sample_commit ''r1'' ''c'') sample_setup), sample_aggregation)"
    using sample_aggregation_run by (simp add: prod_eq_iff)
  from rounds_refine_lifecycle [OF this, of "''r1''" "hd (rounds sample_setup)"] show ?thesis
    by (auto simp: sample_commit_def sample_setup_def round_of_def)
qed

text \<open>C18. Rounds do not interfere: a call on one round, its purge included, leaves all that every other round has in
  the database as it was: its row, its participants, artifacts, jobs, audit events, tree plans, key tasks,
  dependencies, receipts and final keys, and the recorded answers about it; of those only one that is recorded under a
  federation with the name of the round of the call is left open.\<close>

theorem rounds_isolated:
  assumes "reachable sha s" "perform sha c s = (res, s')" "target_round c = Some rid" "q \<noteq> rid"
  shows "same_round {rid} q s s' \<and> round_of q s' = round_of q s"
proof -
  have "same_round {rid} q s s'"
    by (rule perform_same_round [OF invariantD(1) [OF reachable_invariant [OF assms(1)]] assms(3,2,4)])
  then show ?thesis by (auto simp: same_round_def dest: same_tables_round)
qed

theorem rounds_isolated_witness: "round_of ''r2'' (snd (perform zero_digest (sample_create ''r1'' ''1.1'') sample_claimed))
    = round_of ''r2'' sample_claimed"
  using rounds_isolated [OF sample_claimed_reachable prod.collapse [symmetric],
    of "sample_create ''r1'' ''1.1''" "''r1''" "''r2''"]
  by (simp add: sample_create_def)

section \<open>Errors\<close>

lemma get_round_error: "get_round expire now now' tnow rid s = (Inl e, s') \<Longrightarrow> s' = s"
  by (auto simp: get_round_def reconcile_def dest: transaction_Inl split: option.splits if_splits)

lemma key_commit_mismatch:
  assumes "keys_ok s" "key_commit sha now tnow rid client commitment k dg s = (Inr (resp, True), s')"
  shows "\<exists>r. round_of rid s' = Some r \<and> status r = FAILED \<and> failure_code r = Some ''KEY_CONTEXT_MISMATCH''"
  using assms(2)
  by (auto simp: key_commit_def method_simps keys_okD(1) [OF assms(1)] transition_ok advance_def
      dest: round_of_id split: option.splits if_splits)

text \<open>C15. Errors leave no trace: a call that raises leaves the database as it was, but for the one
  error that the code raises on purpose after committing, a key-context mismatch, which has failed
  the round.\<close>

theorem errors_roll_back:
  assumes "reachable sha s" "perform sha c s = (Inl e, s')"
  shows "s' = s \<or> e = ValueError ''KEY_CONTEXT_MISMATCH'' \<and>
    (\<exists>rid r. target_round c = Some rid \<and> round_of rid s' = Some r \<and> status r = FAILED \<and>
       failure_code r = Some ''KEY_CONTEXT_MISMATCH'')"
proof (cases "\<exists>now tnow rid client commitment k dg. c = Key_Complete now tnow rid client commitment k dg")
  case True
  then obtain now tnow rid client commitment k dg where c: "c = Key_Complete now tnow rid client commitment k dg"
    by blast
  note keys = invariantD(1) [OF reachable_invariant [OF assms(1)]]
  from assms(2) c have run: "key_complete sha now tnow rid client commitment k dg s = (Inl e, s')"
    by (simp add: outcome_Inl)
  show ?thesis
  proof (cases "key_commit sha now tnow rid client commitment k dg s")
    case (Pair v t)
    show ?thesis
    proof (cases v)
      case (Inl e')
      with Pair run have "s' = t" by (simp add: key_complete_def call_def)
      moreover have "t = s" using Pair Inl unfolding key_commit_def by (auto dest: transaction_Inl)
      ultimately show ?thesis by simp
    next
      case (Inr w)
      with Pair run obtain resp where "w = (resp, True)" "e = ValueError ''KEY_CONTEXT_MISMATCH''" "s' = t"
        by (cases w) (auto simp: key_complete_def call_def split: if_splits)
      with Pair Inr key_commit_mismatch [OF keys] c show ?thesis by auto
    qed
  qed
next
  case False
  with assms(2) have "s' = s"
    by (cases c) (auto simp: outcome_Inl dest: method_errors get_round_error)
  then show ?thesis ..
qed

theorem errors_roll_back_witness: "snd (perform zero_digest (Purge_Round 5 ''r2'') sample_claimed) = sample_claimed"
proof -
  have "perform zero_digest (Purge_Round 5 ''r2'') sample_claimed = (Inl (ValueError ''ROUND_CONFLICT''), sample_claimed)"
    by (simp add: outcome_Inl purge_round_def transaction_def round_of_def sample_claimed_def)
  from errors_roll_back [OF sample_claimed_reachable this] this show ?thesis by simp
qed

section \<open>History\<close>

text \<open>C33. History is append-only: no call but the purge of a round removes or changes a row of the artifacts,
  the recorded answers, the audit log, the tree plans, the task dependencies, the receipts or the final keys; it can
  only add rows after them.\<close>

theorem history_append_only:
  assumes "perform sha c s = (res, s')" "\<not> is_purge c"
  shows "prefix (artifacts s) (artifacts s') \<and> prefix (idempotency s) (idempotency s')
    \<and> prefix (audit_events s) (audit_events s') \<and> prefix (tree_plans s) (tree_plans s')
    \<and> prefix (task_dependencies s) (task_dependencies s') \<and> prefix (task_receipts s) (task_receipts s')
    \<and> prefix (final_keys s) (final_keys s') \<and> prefix (final_key_receipts s) (final_key_receipts s')"
proof -
  from append.g_perform [of c sha] assms have "extended s s'" by (blast dest: guaranteesD)
  then show ?thesis by (simp add: extended_def)
qed

theorem history_append_only_witness: "prefix (audit_events sample_setup) (audit_events sample_aggregation)"
proof -
  have "perform zero_digest (sample_commit ''r1'' ''c'') sample_setup
      = (fst (perform zero_digest (sample_commit ''r1'' ''c'') sample_setup), sample_aggregation)"
    using sample_aggregation_run by (simp add: prod_eq_iff)
  from history_append_only [OF this] show ?thesis by (simp add: sample_commit_def)
qed

section \<open>Key aggregation\<close>

text \<open>C6. A round in key aggregation follows its committed plan: the plan is the one derived from the registered
  public keys and its hash is the recorded one, the task rows are the tasks of the plan in plan order, a task waits
  exactly while one of its dependencies is not completed, and a task is completed exactly when it has a
  receipt.\<close>

theorem tasks_follow_plan:
  assumes "reachable sha s" "round_of rid s = Some r" "status r = KEY_AGGREGATION"
  shows "\<exists>p. plan_of rid s = Some p
    \<and> derive_tree_plan sha r (manifest_of (sort_key p_client (participants_of rid s))) = Inr (tp_plan p)
    \<and> tp_hash p = tree_plan_hash sha (tp_plan p)
    \<and> map task_metadata (tasks_of rid s) = plan_tasks (tp_plan p)
    \<and> (\<forall>t\<in>set (tasks_of rid s). t_state t = WAITING \<longleftrightarrow> \<not> set (dependencies t) \<subseteq> done_ids (tasks_of rid s))
    \<and> tr_task ` set (task_receipts_of rid s) = done_ids (tasks_of rid s)"
proof -
  note inv = invariantD [OF reachable_invariant [OF assms(1)]]
  from inv(3,4) assms(2,3) obtain p ps where
    p: "plan_of rid s = Some p" "plan_followed sha s r p" "round_id r = rid" by (rule aggregation_plan)
  note f = plan_followedD [OF p(2), unfolded p(3)]
  have "\<forall>t\<in>set (tasks_of rid s). t_state t = WAITING \<longleftrightarrow> \<not> set (dependencies t) \<subseteq> done_ids (tasks_of rid s)"
    using f(7) by (simp add: progress_ok_def)
  with p(1) f(2-5,8) show ?thesis by auto
qed

theorem tasks_follow_plan_witness: "\<exists>p. plan_of ''r1'' sample_aggregation = Some p
    \<and> map task_metadata (tasks_of ''r1'' sample_aggregation) = plan_tasks (tp_plan p)"
  using tasks_follow_plan [OF sample_aggregation_reachable, of "''r1''" "hd (rounds sample_aggregation)"]
  by (auto simp: round_of_def sample_aggregation_def)

text \<open>C23. Nobody waits for an input: when a task of a round in key aggregation may run, every dependency of it can be
  downloaded by the participant who runs it, as the artifact of that dependency.\<close>

theorem task_inputs_available:
  assumes "reachable sha s" "round_of rid s = Some r" "status r = KEY_AGGREGATION"
    and "t \<in> set (tasks_of rid s)" "t_state t \<noteq> WAITING" "d \<in> set (dependencies t)"
  shows "\<exists>a m. task_artifact rid d (sender t) s = Inr (a, m) \<and> task_id m = d \<and> artifact_of (a_id a) s = Some a"
proof -
  note inv = invariantD [OF reachable_invariant [OF assms(1)]]
  from inv(3,4) assms(2,3) obtain p ps where
    p: "plan_of rid s = Some p" "plan_followed sha s r p" "round_id r = rid" by (rule aggregation_plan)
  show ?thesis
    using inputs_available [OF inv(2) p(2), unfolded p(3), OF p(1) assms(2) assms(4-6)] .
qed

text \<open>Steps of key aggregation are admitted calls.\<close>

lemma key_step_reachable: "key_step rid s s' \<Longrightarrow> reachable sha s \<Longrightarrow> reachable sha s'"
proof (induction rule: key_step.induct)
  case (upload now client tid stored dg nonce sig idem_key digest s resp s')
  then have "perform sha (Record_Task_Artifact now rid client tid stored dg nonce sig idem_key digest) s = (Inr (), s')" by (auto simp: outcome_eq)
  from reachable.step [OF upload.prems _ this] show ?case by simp
next
  case (acknowledge client tid idem_key s now ad digest resp s')
  then have "perform sha (Acknowledge_Task now rid client tid ad idem_key digest) s = (Inr (), s')" by (auto simp: outcome_eq)
  from reachable.step [OF acknowledge.prems _ this] show ?case by simp
next
  case (publish now client stored dg nonce sig idem_key digest s resp s')
  then have "perform sha (Record_Final_Key now rid client stored dg nonce sig idem_key digest) s = (Inr (), s')" by (auto simp: outcome_eq)
  from reachable.step [OF publish.prems _ this] show ?case by simp
next
  case (receipt client idem_key s now tnow ad digest resp s')
  then have "perform sha (Acknowledge_Final_Key now tnow rid client ad idem_key digest) s = (Inr (), s')" by (auto simp: outcome_eq)
  from reachable.step [OF receipt.prems _ this] receipt.hyps(2) show ?case by (simp split: option.split)
qed

text \<open>The first task of the sample round is uploaded and acknowledged, so the second one may run.\<close>

definition sample_uploaded :: db where
  "sample_uploaded = snd (record_task_artifact 3 ''r1'' ''b'' ''g0-start'' (sample_object ''t'') ''cd'' ''n'' ''sg''
     ''k'' ''d'' sample_aggregation)"

definition sample_progress :: db where
  "sample_progress = snd (perform zero_digest (Acknowledge_Task 4 ''r1'' ''b'' ''g0-start'' ''cd'' ''k'' ''d'') sample_uploaded)"

lemma sample_upload_run: "record_task_artifact 3 ''r1'' ''b'' ''g0-start'' (sample_object ''t'') ''cd'' ''n'' ''sg''
     ''k'' ''d'' sample_aggregation = (Inr (ArtifactAccepted ''t'' ''cd'' 20, False), sample_uploaded)"
proof -
  have "fst (record_task_artifact 3 ''r1'' ''b'' ''g0-start'' (sample_object ''t'') ''cd'' ''n'' ''sg''
     ''k'' ''d'' sample_aggregation) = Inr (ArtifactAccepted ''t'' ''cd'' 20, False)" by code_simp
  then show ?thesis by (simp add: sample_uploaded_def prod_eq_iff)
qed

lemma sample_uploaded_reachable: "reachable zero_digest sample_uploaded"
  by (rule key_step_reachable [OF key_step.upload [OF sample_upload_run] sample_aggregation_reachable])

lemma sample_progress_reachable: "reachable zero_digest sample_progress"
  unfolding sample_progress_def
  by (rule reachable.step [OF sample_uploaded_reachable _ prod.collapse [symmetric]]) simp

theorem task_inputs_available_witness:
  "\<exists>a m. task_artifact ''r1'' ''g0-start'' ''c'' sample_progress = Inr (a, m) \<and> task_id m = ''g0-start''"
proof -
  let ?t = "tasks_of ''r1'' sample_progress ! 1"
  have "map_option status (round_of ''r1'' sample_progress) = Some KEY_AGGREGATION" by code_simp
  then obtain r where r: "round_of ''r1'' sample_progress = Some r" "status r = KEY_AGGREGATION" by auto
  have "length (tasks_of ''r1'' sample_progress) = 4" by code_simp
  then have t: "?t \<in> set (tasks_of ''r1'' sample_progress)" by simp
  have "t_state ?t = READY" "dependencies ?t = [''g0-start'']" "sender ?t = ''c''" by code_simp+
  with task_inputs_available [OF sample_progress_reachable r t] show ?thesis by auto
qed

text \<open>C7. Key aggregation cannot deadlock: as long as a round is in it, some uploaded task only needs its
  acknowledgement, or some participant is offered an action.\<close>

theorem key_aggregation_never_stuck:
  assumes "reachable sha s" "round_of rid s = Some r" "status r = KEY_AGGREGATION"
  shows "(\<exists>t\<in>set (tasks_of rid s). t_state t = ARTIFACT_UPLOADED) \<or>
    (\<exists>c\<in>set (participants_json r). \<exists>a. next_key_action rid c s = Inr (Some a))"
proof -
  note inv = invariantD [OF reachable_invariant [OF assms(1)]]
  show ?thesis by (rule somebody_acts [OF inv(1,3,4) assms(2,3)])
qed

theorem key_aggregation_never_stuck_witness:
  "\<exists>c\<in>{''a'', ''b'', ''c''}. \<exists>a. next_key_action ''r1'' c sample_aggregation = Inr (Some a)"
  using key_aggregation_never_stuck [OF sample_aggregation_reachable, of "''r1''" "hd (rounds sample_aggregation)"]
  by (auto simp: round_of_def tasks_of_def sample_aggregation_def)

text \<open>C8. Key aggregation ends: every accepted upload, acknowledgement, publication or receipt that is not a replay takes
  one unit of the work that is left, which counts two units for a task, one for the final key and one for
  each receipt; so no more than that many are ever accepted.\<close>

theorem key_aggregation_terminates:
  assumes "reachable sha s" "(key_step rid ^^ n) s s'"
  shows "key_work rid s' + n = key_work rid s \<and>
    n \<le> 2 * length (tasks_of rid s) + 1 + (case round_of rid s of None \<Rightarrow> 0 | Some r \<Rightarrow> expected_count r)"
proof -
  have "key_work rid s' + n = key_work rid s \<and> reachable sha s'"
    using assms(2)
  proof (induction n arbitrary: s')
    case 0
    then show ?case using assms(1) by simp
  next
    case (Suc n)
    then obtain t where t: "(key_step rid ^^ n) s t" "key_step rid t s'" by auto
    with Suc.IH have ih: "key_work rid t + n = key_work rid s" "reachable sha t" by auto
    note inv = invariantD [OF reachable_invariant [OF ih(2)]]
    have "key_work rid s' + 1 = key_work rid t"
      by (rule key_step_work [OF t(2) inv(1,3,4)])
    with ih key_step_reachable [OF t(2) ih(2)] show ?case by simp
  qed
  moreover have "key_work rid s \<le> 2 * length (tasks_of rid s) + 1 +
      (case round_of rid s of None \<Rightarrow> 0 | Some r \<Rightarrow> expected_count r)"
  proof -
    have "(\<Sum>t\<leftarrow>ts. task_work (t_state t)) \<le> 2 * length ts" for ts :: "key_task_row list"
    proof (induction ts)
      case (Cons t ts)
      then show ?case by (cases "t_state t") auto
    qed simp
    then have "(\<Sum>t\<leftarrow>tasks_of rid s. task_work (t_state t)) \<le> 2 * length (tasks_of rid s)" .
    then show ?thesis by (cases "round_of rid s") (auto simp: key_work_def)
  qed
  ultimately show ?thesis by linarith
qed

theorem key_aggregation_terminates_witness: "key_work ''r1'' sample_uploaded + 1 = key_work ''r1'' sample_aggregation"
proof -
  have "(key_step ''r1'' ^^ 1) sample_aggregation sample_uploaded"
    using key_step.upload [OF sample_upload_run] by (simp add: eq_OO)
  from key_aggregation_terminates [OF sample_aggregation_reachable this] show ?thesis by simp
qed

section \<open>Aggregation jobs\<close>

text \<open>C22. The worker gets every update: from AGGREGATING on, the inputs of the job are exactly one update artifact per
  participant, in the order of the client identifiers, each with the integrity tag its participant sent.\<close>

theorem worker_inputs_complete:
  assumes "reachable sha s" "round_of rid s = Some r" "reached AGGREGATING (status r)"
  shows "\<exists>inputs. job_inputs rid s = Inr (r, inputs)
    \<and> map (\<lambda>(a, tag). the (a_client a)) inputs = sort (participants_json r)
    \<and> (\<forall>(a, tag)\<in>set inputs. a_round a = rid \<and> a_type a = ''update'' \<and> tag \<noteq> None \<and>
         (\<exists>p\<in>set (participants_of rid s). a_client a = Some (p_client p) \<and> p_update_artifact p = Some (a_id a) \<and>
            p_integrity_tag p = tag))"
proof -
  note inv = invariantD [OF reachable_invariant [OF assms(1)]]
  show ?thesis
    by (rule job_inputs_complete [OF inv(1,5) _ assms(2,3)]) (use barriers_of [OF inv(3) assms(2)] in blast)
qed

theorem worker_inputs_complete_witness:
  "\<exists>r inputs. job_inputs ''r2'' sample_claimed = Inr (r, inputs) \<and> map (\<lambda>(a, tag). the (a_client a)) inputs = [''a'', ''b'', ''c'']"
proof -
  let ?r = "hd (rounds sample_claimed)"
  have "round_of ''r2'' sample_claimed = Some ?r" "reached AGGREGATING (status ?r)"
    "sort (participants_json ?r) = [''a'', ''b'', ''c'']"
    by (simp_all add: round_of_def sample_claimed_def reached_def)
  with worker_inputs_complete [OF sample_claimed_reachable, of "''r2''" ?r] show ?thesis by force
qed

text \<open>C16. The job table refines the abstract job machine: no call but the purge of the job's own round removes it or takes it
  elsewhere, and each job only moves by claims, lease renewals, returns to the queue, failure or completion; finished jobs stay as they are. In reachable states a job is claimed
  at most three times, and it holds a token and a lease exactly while it is claimed.\<close>

theorem jobs_refine_machine:
  assumes "reachable sha s" "perform sha c s = (res, s')" "\<forall>now. c \<noteq> Purge_Round now (j_round j)" "j \<in> set (jobs s)"
  shows "j_attempts j \<le> 3 \<and> (j_claim_token j \<noteq> None \<longleftrightarrow> j_state j = CLAIMED) \<and>
    (j_lease_until j \<noteq> None \<longleftrightarrow> j_state j = CLAIMED) \<and>
    (\<exists>j'\<in>set (jobs s'). job_step\<^sup>*\<^sup>* j j' \<and> j_id j' = j_id j \<and> j_attempts j \<le> j_attempts j' \<and>
       (j_state j \<in> {JOB_COMPLETED, JOB_FAILED} \<longrightarrow> j' = j))"
proof -
  note fine = reachable_jobs [OF assms(1)]
  then have "job_ok j" "j_max_attempts j = 3" using assms(4) by (auto simp: jobs_fine_def)
  moreover obtain j' where "j' \<in> set (jobs s')" "job_step\<^sup>*\<^sup>* j j'"
  proof (cases "is_purge c")
    case True
    then obtain now q where c: "c = Purge_Round now q" by (cases c) auto
    with assms(3) perform_jobs_apart [OF invariantD(1) [OF reachable_invariant [OF assms(1)]] _ assms(2), of q]
    have "same_jobs (j_round j) s s'" by (auto simp: other_jobs_same_def)
    moreover have "j \<in> set (filter (\<lambda>k. j_round k = j_round j) (jobs s))" using assms(4) by simp
    ultimately have "j \<in> set (filter (\<lambda>k. j_round k = j_round j) (jobs s'))" by (simp only: same_jobs_def)
    then show ?thesis using that by auto
  next
    case False
    show ?thesis using perform_job_steps [OF fine assms(2) False assms(4)] that by blast
  qed
  ultimately show ?thesis
    using job_steps_keys job_steps_attempts job_steps_final by (fastforce simp: job_ok_def)
qed

theorem jobs_refine_machine_witness:
  "\<exists>j'\<in>set (jobs (snd (perform zero_digest (Renew_Job 5 ''j'' ''tok'' 900) sample_claimed))).
     job_step\<^sup>*\<^sup>* (hd (jobs sample_claimed)) j'"
proof -
  let ?c = "Renew_Job 5 ''j'' ''tok'' 900"
  have "hd (jobs sample_claimed) \<in> set (jobs sample_claimed)" by (simp add: sample_claimed_def)
  from jobs_refine_machine [OF sample_claimed_reachable prod.collapse [symmetric] _ this, of ?c]
  show ?thesis by auto
qed

text \<open>C17. A claim is exclusive while its lease runs: a claim by any worker leaves every claimed job whose lease ends later as it
  is, and what it returns is a job of an aggregating round before its deadline, now owned under its token with the full lease.\<close>

theorem claim_exclusive:
  assumes "reachable sha s" "claim_job now tnow token lease s = (res, s')"
  shows "(\<forall>k\<in>set (jobs s). j_state k = CLAIMED \<longrightarrow> (\<exists>t. j_lease_until k = Some t \<and> now < t) \<longrightarrow> k \<in> set (jobs s'))
    \<and> (\<forall>j. res = Inr (Some j) \<longrightarrow> j \<in> set (jobs s') \<and> owned (j_id j) token j \<and> j_lease_until j = Some (now + lease) \<and>
         (\<exists>r\<in>set (rounds s'). round_id r = j_round j \<and> status r = AGGREGATING \<and> now < deadline_at r))"
proof -
  note fine = reachable_jobs [OF assms(1)]
  have "k \<in> set (jobs s')" if "k \<in> set (jobs s)" "j_state k = CLAIMED" "j_lease_until k = Some t" "now < t" for k t
    using claim_job_spares [OF fine assms(2) that] .
  moreover have "j \<in> set (jobs s') \<and> owned (j_id j) token j \<and> j_lease_until j = Some (now + lease) \<and>
      (\<exists>r\<in>set (rounds s'). round_id r = j_round j \<and> status r = AGGREGATING \<and> now < deadline_at r)"
    if "res = Inr (Some j)" for j
    using claim_job_ok [OF fine, of now tnow token lease j s'] assms(2) that by blast
  ultimately show ?thesis by blast
qed

theorem claim_exclusive_witness:
  "hd (jobs sample_claimed) \<in> set (jobs (snd (claim_job 5 (\<lambda>_. 5) ''other'' 900 sample_claimed)))"
  using claim_exclusive [OF sample_claimed_reachable prod.collapse [symmetric], of 5 "\<lambda>_. 5" "''other''" 900]
  by (simp add: sample_claimed_def)

section \<open>Purging\<close>





end
