(* ===== verification/Files.thy ===== *)
theory Files
  imports Key_Tasks
begin

text \<open>
  \<open>app/storage/filesystem.py\<close> and the digest loops that read its files. The file system is a map
  from paths to contents; a hash object of \<open>hashlib\<close> is the bytes it was fed, since
  \<open>update\<close> appends to the message. Files are opened, written and replaced without I/O errors of
  the system; opening with \<open>"xb"\<close> fails when the file exists, and reading fails when it does not.
\<close>

section \<open>The store\<close>

type_synonym files = "string \<Rightarrow> bytes option"

definition final_path :: "string \<Rightarrow> string \<Rightarrow> string" where
  "final_path dir oid = dir @ ''/'' @ oid"

definition temporary_path :: "string \<Rightarrow> string \<Rightarrow> string" where
  "temporary_path dir oid = dir @ ''/.'' @ oid @ ''.tmp''"

text \<open>
  The loop over the chunks of a request body, which ends or raises \<open>failure\<close>. The result is what
  was written and its size; the hash object has been fed the same bytes.
\<close>

fun receive :: "nat \<Rightarrow> bytes list \<Rightarrow> exn option \<Rightarrow> bytes \<Rightarrow> nat \<Rightarrow> exn + bytes \<times> nat" where
  "receive max_bytes [] failure written sz =
     (case failure of None \<Rightarrow> Inr (written, sz) | Some e \<Rightarrow> Inl e)"
| "receive max_bytes (chunk # chunks) failure written sz =
     (let total = sz + length chunk in
      if total > max_bytes then Inl (ValueError ''artifact exceeds configured byte limit'')
      else receive max_bytes chunks failure (written @ chunk) total)"

definition put_stream :: "(bytes \<Rightarrow> bytes) \<Rightarrow> string \<Rightarrow> nat \<Rightarrow> string \<Rightarrow> bytes list \<Rightarrow> exn option
    \<Rightarrow> (files, stored_object) tx" where
  "put_stream sha dir max_bytes oid chunks failure fs =
     (let temporary = temporary_path dir oid; final = final_path dir oid in
      if fs temporary \<noteq> None then (Inl (OSError ''File exists''), fs(temporary := None))
      else case receive max_bytes chunks failure [] 0 of
        Inl e \<Rightarrow> (Inl e, fs(temporary := None))
      | Inr (content, sz) \<Rightarrow>
          (Inr \<lparr>object_id = oid, stored_path = final, stored_digest = hexdigest sha content,
                stored_size = sz\<rparr>, fs(temporary := None, final := Some content)))"

definition put_bytes :: "(bytes \<Rightarrow> bytes) \<Rightarrow> string \<Rightarrow> nat \<Rightarrow> string \<Rightarrow> bytes \<Rightarrow> (files, stored_object) tx" where
  "put_bytes sha dir max_bytes oid data fs =
     (let temporary = temporary_path dir oid; final = final_path dir oid in
      if length data > max_bytes then (Inl (ValueError ''artifact exceeds configured byte limit''), fs)
      else if fs temporary \<noteq> None then (Inl (OSError ''File exists''), fs)
      else (Inr \<lparr>object_id = oid, stored_path = final, stored_digest = hexdigest sha data,
                 stored_size = length data\<rparr>, fs(temporary := None, final := Some data)))"

text \<open>\<open>unlink(missing_ok=True)\<close>.\<close>

definition delete_file :: "string \<Rightarrow> files \<Rightarrow> files" where
  "delete_file path fs = fs(path := None)"

subsection \<open>Streaming is storing the whole body\<close>

lemma receive_eq:
  "sz = length written \<Longrightarrow> sz \<le> max_bytes \<Longrightarrow> receive max_bytes chunks failure written sz =
     (if length written + length (concat chunks) > max_bytes
      then Inl (ValueError ''artifact exceeds configured byte limit'')
      else case failure of
        None \<Rightarrow> Inr (written @ concat chunks, length (written @ concat chunks)) | Some e \<Rightarrow> Inl e)"
  by (induction max_bytes chunks failure written sz rule: receive.induct) (auto simp: Let_def split: option.split)

lemma put_stream_eq:
  "fs (temporary_path dir oid) = None \<Longrightarrow>
   put_stream sha dir max_bytes oid chunks None fs = put_bytes sha dir max_bytes oid (concat chunks) fs"
  by (auto simp: put_stream_def put_bytes_def receive_eq Let_def fun_eq_iff)

text \<open>Storing leaves every other file alone, and a failure every file.\<close>

lemma put_stream_ok:
  assumes "fs (temporary_path dir oid) = None"
    and "put_stream sha dir max_bytes oid chunks failure fs = (Inr stored, fs')"
  shows "fs' (stored_path stored) = Some (concat chunks)" "stored_digest stored = hexdigest sha (concat chunks)"
    "stored_size stored = length (concat chunks)" "stored_size stored \<le> max_bytes"
    "stored_path stored = final_path dir oid" "object_id stored = oid"
    "\<forall>path. path \<noteq> stored_path stored \<longrightarrow> fs' path = fs path" "failure = None"
  using assms by (auto simp: put_stream_def receive_eq Let_def split: if_splits option.splits)

lemma put_stream_error:
  "fs (temporary_path dir oid) = None \<Longrightarrow> put_stream sha dir max_bytes oid chunks failure fs = (Inl e, fs') \<Longrightarrow> fs' = fs"
  by (auto simp: put_stream_def Let_def fun_upd_idem split: if_splits option.splits sum.splits)

section \<open>Reading in chunks\<close>

text \<open>\<open>while chunk := artifact.read(n)\<close> with a positive \<open>n\<close>.\<close>

function read_chunks :: "nat \<Rightarrow> bytes \<Rightarrow> bytes list" where
  "read_chunks n content =
     (if content = [] \<or> n = 0 then [] else take n content # read_chunks n (drop n content))"
  by pat_completeness auto
termination
  by (relation "measure (\<lambda>(n, content). length content)") auto

declare read_chunks.simps [simp del]

definition BLOCK :: nat where
  "BLOCK = 1024 * 1024"

lemma concat_read_chunks: "0 < n \<Longrightarrow> concat (read_chunks n content) = content"
proof (induction n content rule: read_chunks.induct)
  case (1 n content)
  then show ?case
    by (cases "content = []") (simp_all add: read_chunks.simps [of n content] read_chunks.simps [of n "[]"])
qed

text \<open>\<open>_file_sha256\<close> of the worker and \<open>_file_digest\<close> of the API.\<close>

fun digest_loop :: "bytes \<Rightarrow> bytes list \<Rightarrow> bytes" where
  "digest_loop digest [] = digest"
| "digest_loop digest (chunk # chunks) = digest_loop (digest @ chunk) chunks"

definition file_digest :: "(bytes \<Rightarrow> bytes) \<Rightarrow> string \<Rightarrow> files \<Rightarrow> exn + string" where
  "file_digest sha path fs = (case fs path of
     None \<Rightarrow> Inl (OSError ''No such file or directory'')
   | Some content \<Rightarrow> Inr (hexdigest sha (digest_loop [] (read_chunks BLOCK content))))"

lemma digest_loop_eq: "digest_loop digest chunks = digest @ concat chunks"
  by (induction digest chunks rule: digest_loop.induct) auto

lemma file_digest_eq:
  "file_digest sha path fs = (case fs path of
     None \<Rightarrow> Inl (OSError ''No such file or directory'') | Some content \<Rightarrow> Inr (hexdigest sha content))"
  by (simp add: file_digest_def digest_loop_eq concat_read_chunks BLOCK_def split: option.split)

text \<open>\<open>_ciphertext_digest\<close>: the nonce and the ciphertext without its last 16 bytes, which are held back.\<close>

fun cipher_loop :: "bytes \<Rightarrow> bytes \<Rightarrow> nat \<Rightarrow> bytes list \<Rightarrow> bytes \<times> bytes \<times> nat" where
  "cipher_loop digest trailing sz [] = (digest, trailing, sz)"
| "cipher_loop digest trailing sz (chunk # chunks) =
     (let total = sz + length chunk; combined = trailing @ chunk in
      if length combined > 16
      then cipher_loop (digest @ take (length combined - 16) combined) (drop (length combined - 16) combined) total chunks
      else cipher_loop digest combined total chunks)"

definition ciphertext_digest :: "(bytes \<Rightarrow> bytes) \<Rightarrow> string \<Rightarrow> bytes \<Rightarrow> files \<Rightarrow> exn + string" where
  "ciphertext_digest sha path nonce fs = (case fs path of
     None \<Rightarrow> Inl (OSError ''No such file or directory'')
   | Some content \<Rightarrow>
       (let (digest, trailing, sz) = cipher_loop nonce [] 0 (read_chunks BLOCK content) in
        if sz < 16 then Inl (ValueError ''ciphertext is too short'') else Inr (hexdigest sha digest)))"

lemma cipher_loop_eq:
  "length trailing \<le> 16 \<Longrightarrow>
   cipher_loop digest trailing sz chunks =
     (let rest = trailing @ concat chunks in
      (digest @ take (length rest - 16) rest, drop (length rest - 16) rest, sz + length (concat chunks)))"
proof (induction digest trailing sz chunks rule: cipher_loop.induct)
  case (1 digest trailing sz)
  then show ?case by (simp add: Let_def)
next
  case (2 digest trailing sz chunk chunks)
  let ?c = "trailing @ chunk"
  let ?n = "length ?c - 16"
  show ?case
  proof (cases "length ?c > 16")
    case True
    have kept: "length (drop ?n ?c) = 16" using True by simp
    have len: "length (?c @ concat chunks) - 16 = ?n + length (concat chunks)" using True by simp
    have dr: "drop ?n (?c @ concat chunks) = drop ?n ?c @ concat chunks"
      using True by (simp only: drop_append) simp
    have tk: "take ?n (?c @ concat chunks) = take ?n ?c" using True by (simp only: take_append) simp
    have split: "take (?n + length (concat chunks)) (?c @ concat chunks)
        = take ?n ?c @ take (length (concat chunks)) (drop ?n ?c @ concat chunks)"
      "drop (?n + length (concat chunks)) (?c @ concat chunks) = drop (length (concat chunks)) (drop ?n ?c @ concat chunks)"
      unfolding take_add tk dr by (rule refl) (simp only: dr [symmetric] drop_drop add.commute)
    have cut: "length (drop ?n ?c @ concat chunks) - 16 = length (concat chunks)" using True by simp
    have "cipher_loop digest trailing sz (chunk # chunks)
        = cipher_loop (digest @ take ?n ?c) (drop ?n ?c) (sz + length chunk) chunks"
      using True by (simp add: Let_def)
    also have "\<dots> = (let rest = drop ?n ?c @ concat chunks in
        ((digest @ take ?n ?c) @ take (length rest - 16) rest, drop (length rest - 16) rest,
          sz + length chunk + length (concat chunks)))"
      by (rule 2(1) [OF refl refl True]) (simp only: kept)
    also have "\<dots> = (let rest = ?c @ concat chunks in
        (digest @ take (length rest - 16) rest, drop (length rest - 16) rest,
          sz + length chunk + length (concat chunks)))"
      unfolding Let_def len split cut by (simp only: append_assoc)
    finally show ?thesis by (simp add: Let_def add.assoc)
  next
    case False
    with 2(2) [OF refl refl False] show ?thesis by (simp add: Let_def)
  qed
qed

text \<open>The loop hashes the nonce and the ciphertext without the authentication tag.\<close>

lemma ciphertext_digest_eq:
  "ciphertext_digest sha path nonce fs = (case fs path of
     None \<Rightarrow> Inl (OSError ''No such file or directory'')
   | Some content \<Rightarrow>
       if length content < 16 then Inl (ValueError ''ciphertext is too short'')
       else Inr (hexdigest sha (nonce @ take (length content - 16) content)))"
  by (simp add: ciphertext_digest_def cipher_loop_eq concat_read_chunks BLOCK_def Let_def split: option.split)

end
