(* ===== verification/Hex_Text.thy ===== *)
theory Hex_Text
  imports Json
begin

text \<open>
  How Python reads the hexadecimal integrity tags: \<open>bytes.fromhex(text)\<close> skips ASCII white space between
  the bytes, \<open>int(text, 16)\<close> strips it at both ends and allows a sign, a prefix and single
  underscores. Both raise \<open>ValueError\<close> otherwise, which is \<open>None\<close> here. A tag that is accepted has
  passed \<open>fromhex\<close>, so it is ASCII; the non-ASCII digits and spaces of \<open>int\<close> do not occur.
\<close>

definition hex_value :: "char \<Rightarrow> nat option" where
  "hex_value c =
     (let n = of_char c in
      if 48 \<le> n \<and> n \<le> 57 then Some (n - 48)
      else if 97 \<le> n \<and> n \<le> 102 then Some (n - 87)
      else if 65 \<le> n \<and> n \<le> 70 then Some (n - 55) else None)"

definition hex_space :: "char \<Rightarrow> bool" where
  "hex_space c \<longleftrightarrow> c = CHR 0x20 \<or> (let n = of_char c :: nat in 9 \<le> n \<and> n \<le> 13)"

definition int_space :: "char \<Rightarrow> bool" where
  "int_space c \<longleftrightarrow> hex_space c \<or> (let n = of_char c :: nat in 28 \<le> n \<and> n \<le> 31)"

fun from_hex :: "string \<Rightarrow> bytes option" where
  "from_hex [] = Some []"
| "from_hex [c] = (if hex_space c then Some [] else None)"
| "from_hex (c # d # rest) =
     (if hex_space c then from_hex (d # rest)
      else case (hex_value c, hex_value d) of
        (Some hi, Some lo) \<Rightarrow> map_option ((#) (of_nat (16 * hi + lo))) (from_hex rest)
      | _ \<Rightarrow> None)"

text \<open>The digits; the flag tells whether the last character was one.\<close>

fun hex_run :: "bool \<Rightarrow> int \<Rightarrow> string \<Rightarrow> int option" where
  "hex_run after acc [] = (if after then Some acc else None)"
| "hex_run after acc (c # cs) =
     (if c = CHR ''_'' then (if after then hex_run False acc cs else None)
      else case hex_value c of None \<Rightarrow> None | Some d \<Rightarrow> hex_run True (16 * acc + int d) cs)"

text \<open>The prefix \<open>0x\<close>, after which one underscore may follow.\<close>

definition drop_prefix :: "string \<Rightarrow> string" where
  "drop_prefix s =
     (if take 2 s = ''0x'' \<or> take 2 s = ''0X''
      then (if take 1 (drop 2 s) = ''_'' then drop 3 s else drop 2 s) else s)"

definition strip :: "string \<Rightarrow> string" where
  "strip s = rev (dropWhile int_space (rev (dropWhile int_space s)))"

definition int_base16 :: "string \<Rightarrow> int option" where
  "int_base16 s = (case strip s of
     [] \<Rightarrow> None
   | c # cs \<Rightarrow>
       if c = CHR ''-'' then map_option uminus (hex_run False 0 (drop_prefix cs))
       else if c = CHR ''+'' then hex_run False 0 (drop_prefix cs)
       else hex_run False 0 (drop_prefix (c # cs)))"

section \<open>Reading what \<open>hex\<close> wrote\<close>

lemma below_16:
  assumes "list_all P (upt 0 16)" and "d < 16"
  shows "P d"
  using assms by (simp add: list_all_iff)

lemma hex_digit_read:
  assumes "d < 16"
  shows "hex_value (hex_digit d) = Some d" and "\<not> int_space (hex_digit d)" and "\<not> hex_space (hex_digit d)"
    and "hex_digit d \<notin> {CHR ''_'', CHR ''-'', CHR ''+'', CHR ''x'', CHR ''X''}"
proof -
  have "list_all (\<lambda>d. hex_value (hex_digit d) = Some d \<and> \<not> int_space (hex_digit d) \<and>
      \<not> hex_space (hex_digit d) \<and>
      hex_digit d \<notin> {CHR ''_'', CHR ''-'', CHR ''+'', CHR ''x'', CHR ''X''}) (upt 0 16)"
    by code_simp
  then show "hex_value (hex_digit d) = Some d" "\<not> int_space (hex_digit d)" "\<not> hex_space (hex_digit d)"
    "hex_digit d \<notin> {CHR ''_'', CHR ''-'', CHR ''+'', CHR ''x'', CHR ''X''}"
    using below_16 [OF _ assms] by blast+
qed

lemma hex_Cons: "hex (b # bs) = hex_digit (unat b div 16) # hex_digit (unat b mod 16) # hex bs"
  by (simp add: hex_def)

lemma hex_Nil [simp]: "hex [] = []"
  by (simp add: hex_def)

lemma length_hex [simp]: "length (hex bs) = 2 * length bs"
  by (induction bs) (simp_all add: hex_Cons)

lemma byte_digits: "unat (b :: 8 word) div 16 < 16" "unat b mod 16 < 16"
  using unsigned_less [of b, where ?'a = nat] by (auto simp: less_mult_imp_div_less)

lemma from_hex_hex [simp]: "from_hex (hex bs) = Some bs"
proof (induction bs)
  case (Cons b bs)
  have "16 * (unat b div 16) + unat b mod 16 = unat b" by simp
  then show ?case
    using Cons hex_digit_read [OF byte_digits(1) [of b]] hex_digit_read [OF byte_digits(2) [of b]]
    by (simp add: hex_Cons)
qed simp

definition hex_number :: "int \<Rightarrow> bytes \<Rightarrow> int" where
  "hex_number acc bs = foldl (\<lambda>n b. 256 * n + uint b) acc bs"

lemma hex_run_hex: "bs \<noteq> [] \<or> after \<Longrightarrow> hex_run after acc (hex bs) = Some (hex_number acc bs)"
proof (induction bs arbitrary: after acc)
  case (Cons b bs)
  have "16 * (unat b div 16) + unat b mod 16 = unat b" by simp
  then have "16 * int (unat b div 16) + int (unat b mod 16) = uint b"
    by (metis of_nat_add of_nat_mult of_nat_numeral uint_nat)
  then have "256 * acc + 16 * int (unat b div 16) + int (unat b mod 16) = 256 * acc + uint b"
    by simp
  then have "hex_number (256 * acc + 16 * int (unat b div 16) + int (unat b mod 16)) bs =
      hex_number (256 * acc + uint b) bs"
    by (rule arg_cong)
  then show ?case
    using Cons.IH [of True] hex_digit_read [OF byte_digits(1) [of b]] hex_digit_read [OF byte_digits(2) [of b]]
    by (simp add: hex_Cons hex_number_def)
qed (simp add: hex_number_def)

lemma hex_chars: "c \<in> set (hex bs) \<Longrightarrow> \<exists>d<16. c = hex_digit d"
  by (induction bs) (auto simp: hex_Cons intro: byte_digits)

lemma strip_hex: "strip (hex bs) = hex bs"
proof -
  have plain: "\<not> int_space c" if "c \<in> set (hex bs)" for c
    using hex_chars [OF that] hex_digit_read(2) by blast
  have "dropWhile int_space (hex bs) = hex bs"
    using plain by (cases "hex bs") auto
  moreover have "dropWhile int_space (rev (hex bs)) = rev (hex bs)"
    using plain by (cases "rev (hex bs)") (auto dest: arg_cong [where f = set])
  ultimately show ?thesis by (simp add: strip_def)
qed

lemma int_base16_hex:
  assumes "bs \<noteq> []"
  shows "int_base16 (hex bs) = Some (int_from_bytes_big bs)"
proof -
  obtain b rest where bs: "bs = b # rest" using assms by (cases bs) auto
  note digits = hex_digit_read [OF byte_digits(1) [of b]] hex_digit_read [OF byte_digits(2) [of b]]
  have "drop_prefix (hex bs) = hex bs"
    using digits by (auto simp: bs hex_Cons drop_prefix_def)
  then show ?thesis
    using digits hex_run_hex [of bs False 0] assms
    strip_hex [of bs]
    by (auto simp: int_base16_def bs hex_Cons int_from_bytes_big_def hex_number_def)
qed

end
