(* ===== verification/World.thy ===== *)
theory World
  imports Jobs Files Hex_Text
begin

text \<open>
  The server's two stores together, the metadata database and the artifact files, and the control flow that
  request handlers and the worker use around them: \<open>try\<close> blocks that catch some exceptions, and
  calculations that may raise. A handler or worker run is one sequence of calls; each database method is
  atomic, and the theorems of \<open>Database_Properties\<close> hold however the calls of several of them interleave.
\<close>

record world =
  wdb :: db
  wfiles :: files

definition on_db :: "(db, 'a) tx \<Rightarrow> (world, 'a) tx" where
  "on_db m w = (case m (wdb w) of (v, s) \<Rightarrow> (v, w\<lparr>wdb := s\<rparr>))"

definition on_files :: "(files, 'a) tx \<Rightarrow> (world, 'a) tx" where
  "on_files m w = (case m (wfiles w) of (v, fs) \<Rightarrow> (v, w\<lparr>wfiles := fs\<rparr>))"

text \<open>A calculation on the current world that may raise and changes nothing.\<close>

definition look :: "(world \<Rightarrow> exn + 'a) \<Rightarrow> (world, 'a) tx" where
  "look q w = (q w, w)"

text \<open>\<open>store.delete(path)\<close>.\<close>

definition delete_stored :: "string \<Rightarrow> (world, unit) tx" where
  "delete_stored path w = (Inr (), w\<lparr>wfiles := delete_file path (wfiles w)\<rparr>)"

text \<open>\<open>try: m\<close> with \<open>except P as exc: h exc\<close>.\<close>

definition rescue :: "(exn \<Rightarrow> bool) \<Rightarrow> (exn \<Rightarrow> ('s, 'a) tx) \<Rightarrow> ('s, 'a) tx \<Rightarrow> ('s, 'a) tx" where
  "rescue P h m s = (case m s of
     (Inl e, s') \<Rightarrow> if P e then h e s' else (Inl e, s')
   | (Inr x, s') \<Rightarrow> (Inr x, s'))"

fun value_error :: "exn \<Rightarrow> bool" where
  "value_error (ValueError m) = True"
| "value_error _ = False"

text \<open>\<open>except Exception\<close>: every exception of the model is one.\<close>

definition any_exception :: "exn \<Rightarrow> bool" where
  "any_exception e = True"

text \<open>\<open>except (OSError, sqlite3.OperationalError)\<close>.\<close>

fun transient :: "exn \<Rightarrow> bool" where
  "transient (OSError m) = True"
| "transient (OperationalError m) = True"
| "transient _ = False"

text \<open>\<open>str(exc)\<close>; the text of the exceptions that the code does not build itself is \<open>describe\<close>.\<close>

fun exn_text :: "(exn \<Rightarrow> string) \<Rightarrow> exn \<Rightarrow> string" where
  "exn_text describe (ValueError m) = m"
| "exn_text describe (RuntimeError m) = m"
| "exn_text describe e = describe e"

section \<open>Inversion\<close>

lemma on_db_eq: "on_db m w = (v, w') \<longleftrightarrow> (\<exists>s. m (wdb w) = (v, s) \<and> w' = w\<lparr>wdb := s\<rparr>)"
  by (auto simp: on_db_def split: prod.split)

lemma on_files_eq: "on_files m w = (v, w') \<longleftrightarrow> (\<exists>fs. m (wfiles w) = (v, fs) \<and> w' = w\<lparr>wfiles := fs\<rparr>)"
  by (auto simp: on_files_def split: prod.split)

lemma look_apply [simp]: "look q w = (q w, w)"
  by (simp add: look_def)

lemma delete_stored_apply [simp]: "delete_stored path w = (Inr (), w\<lparr>wfiles := (wfiles w)(path := None)\<rparr>)"
  by (simp add: delete_stored_def delete_file_def)

lemma rescue_Inr: "rescue P h m s = (Inr x, s') \<longleftrightarrow>
    m s = (Inr x, s') \<or> (\<exists>e t. m s = (Inl e, t) \<and> P e \<and> h e t = (Inr x, s'))"
  by (auto simp: rescue_def split: prod.split sum.split)

lemma rescue_Inl: "rescue P h m s = (Inl e, s') \<longleftrightarrow>
    (m s = (Inl e, s') \<and> \<not> P e) \<or> (\<exists>e' t. m s = (Inl e', t) \<and> P e' \<and> h e' t = (Inl e, s'))"
  by (auto simp: rescue_def split: prod.split sum.split)

lemma call_Inl: "call m k s = (Inl e, s') \<longleftrightarrow>
    m s = (Inl e, s') \<or> (\<exists>x t. m s = (Inr x, t) \<and> k x t = (Inl e, s'))"
  by (auto simp: call_def split: prod.split sum.split)

lemma world_db_same [simp]: "w\<lparr>wdb := wdb w\<rparr> = w"
  by simp

section \<open>Effects\<close>

context effect_contract
begin

lemma g_rescue: "guarantees R m \<Longrightarrow> (\<And>e. guarantees R (h e)) \<Longrightarrow> guarantees R (rescue P h m)"
  unfolding guarantees_def rescue_def
  by (auto split: prod.split sum.split) (metis snd_conv trans, metis snd_conv, metis snd_conv)

text \<open>The same from one state, where what follows may rely on the answer.\<close>

lemma g_call_from:
  "R s (snd (m s)) \<Longrightarrow> (\<And>x t. m s = (Inr x, t) \<Longrightarrow> R t (snd (k x t))) \<Longrightarrow> R s (snd (call m k s))"
  by (cases "m s") (auto simp: call_def intro: trans split: sum.split)

lemma g_rescue_from:
  "R s (snd (m s)) \<Longrightarrow> (\<And>e. guarantees R (h e)) \<Longrightarrow> R s (snd (rescue P h m s))"
  by (cases "m s") (auto simp: rescue_def guarantees_def intro: trans split: sum.split)

end

text \<open>An effect on the database, and one on the files, seen from the world.\<close>

lemma guarantees_look: "(\<And>w. R w w) \<Longrightarrow> guarantees R (look q)"
  by (simp add: guarantees_def)

lemma guarantees_on_db:
  "guarantees Q m \<Longrightarrow> (\<And>w s. Q (wdb w) s \<Longrightarrow> R w (w\<lparr>wdb := s\<rparr>)) \<Longrightarrow> guarantees R (on_db m)"
  by (auto simp: guarantees_def on_db_def split: prod.split) (metis snd_conv)

end
