(* ===== verification/Worker.thy ===== *)
theory Worker
  imports World "HOL-Library.AList"
begin

text \<open>
  \<open>app/worker/aggregation.py\<close>: claim a job, sum the masked updates of the round tensor by tensor and
  their integrity tags in the prime field, store and publish the result; and the maintenance that expires
  rounds and removes what is past its retention. The tensor format is that of \<open>safetensors\<close> and
  \<open>torch\<close>, which the definitions take as parameters: reading a file gives its named tensors or raises.
\<close>

section \<open>Tensors\<close>

text \<open>A tensor with its elements in row-major order; 64-bit integer tensors wrap around when added.\<close>

record tensor =
  t_dtype :: string
  t_shape :: "int list"
  t_data :: "64 word list"

type_synonym tensors = "(string \<times> tensor) list"

definition add_tensor :: "tensor \<Rightarrow> tensor \<Rightarrow> tensor" where
  "add_tensor a b = a\<lparr>t_data := map2 (+) (t_data a) (t_data b)\<rparr>"

definition FIELD_PRIME :: int where
  "FIELD_PRIME = 2 ^ 127 - 1"

text \<open>
  What the worker gets from outside: the hash, the readers and writers of the tensor format, the texts of
  foreign exceptions and of \<open>repr\<close>, the object identifier of the result and the settings.
\<close>

record worker_env =
  w_sha :: "bytes \<Rightarrow> bytes"
  load_file :: "bytes \<Rightarrow> exn + tensors"
  save_tensors :: "tensors \<Rightarrow> bytes"
  w_describe :: "exn \<Rightarrow> string"
  w_repr :: "string \<Rightarrow> string"
  w_dir :: string
  w_max_bytes :: nat
  lease_seconds :: real

section \<open>One update\<close>

text \<open>\<open>{entry["name"]: entry for entry in schema["entries"] if ...}\<close>; a later entry replaces an earlier one.\<close>

definition expected_entries :: "model_schema \<Rightarrow> string \<rightharpoonup> tensor_schema" where
  "expected_entries schema = map_of (rev (map (\<lambda>e. (tensor_name e, e)) (filter uploaded (entries schema))))"

definition expected_names :: "model_schema \<Rightarrow> string list" where
  "expected_names schema = map tensor_name (filter uploaded (entries schema))"

definition bad_tensor :: "model_schema \<Rightarrow> string \<times> tensor \<Rightarrow> bool" where
  "bad_tensor schema = (\<lambda>(name, t). t_dtype t \<noteq> ''int64'' \<or>
     (case expected_entries schema name of None \<Rightarrow> True | Some e \<Rightarrow> t_shape t \<noteq> shape e))"

definition check_tensors :: "model_schema \<Rightarrow> tensors \<Rightarrow> exn + unit" where
  "check_tensors schema ts =
     (if set (map fst ts) \<noteq> set (expected_names schema)
      then Inl (ValueError ''artifact tensor names do not match schema'')
      else if list_ex (bad_tensor schema) ts
      then Inl (ValueError ''artifact tensor shape or dtype does not match schema'')
      else Inr ())"

text \<open>\<open>for name in sorted(aggregate): aggregate[name] = aggregate[name] + tensors[name]\<close>.\<close>

fun add_named :: "string list \<Rightarrow> tensors \<Rightarrow> tensors \<Rightarrow> exn + tensors" where
  "add_named [] aggregate ts = Inr aggregate"
| "add_named (name # names) aggregate ts =
     (case (map_of aggregate name, map_of ts name) of
        (Some a, Some b) \<Rightarrow> add_named names (AList.update name (add_tensor a b) aggregate) ts
      | _ \<Rightarrow> Inl KeyError)"

definition add_update :: "tensors option \<Rightarrow> tensors \<Rightarrow> exn + tensors" where
  "add_update aggregate ts =
     (case aggregate of None \<Rightarrow> Inr ts | Some agg \<Rightarrow> add_named (sort (map fst agg)) agg ts)"

text \<open>\<open>int(str(artifact["integrity_tag"]), 16)\<close> and the range check.\<close>

definition read_tag :: "(string \<Rightarrow> string) \<Rightarrow> string option \<Rightarrow> exn + int" where
  "read_tag repr tag =
     (let text = (case tag of None \<Rightarrow> ''None'' | Some t \<Rightarrow> t) in
      case int_base16 text of
        None \<Rightarrow> Inl (ValueError (''invalid literal for int() with base 16: '' @ repr text))
      | Some n \<Rightarrow> if 0 \<le> n \<and> n < FIELD_PRIME then Inr n
                  else Inl (ValueError ''integrity tag outside field''))"

definition load_artifact :: "worker_env \<Rightarrow> string \<Rightarrow> files \<Rightarrow> exn + tensors" where
  "load_artifact env path fs = (case fs path of
     None \<Rightarrow> Inl (OSError ''No such file or directory'') | Some content \<Rightarrow> load_file env content)"

text \<open>The loop over the artifacts; the clock of the \<open>i\<close>-th renewal is \<open>t i\<close>.\<close>

fun aggregate_loop :: "worker_env \<Rightarrow> (nat \<Rightarrow> real) \<Rightarrow> string \<Rightarrow> string \<Rightarrow> model_schema
    \<Rightarrow> (artifact_row \<times> string option) list \<Rightarrow> tensors option \<Rightarrow> int \<Rightarrow> (world, tensors option \<times> int) tx" where
  "aggregate_loop env t job_id token schema [] aggregate aggregate_tag = ret (aggregate, aggregate_tag)"
| "aggregate_loop env t job_id token schema ((artifact, itag) # rest) aggregate aggregate_tag =
     call (on_db (renew_job (t 0) job_id token (lease_seconds env))) (\<lambda>_.
     call (look (\<lambda>w. file_digest (w_sha env) (a_path artifact) (wfiles w))) (\<lambda>digest.
     if digest \<noteq> a_digest artifact then throw (ValueError ''artifact content digest changed'')
     else
     call (look (\<lambda>w. load_artifact env (a_path artifact) (wfiles w))) (\<lambda>tensors.
     call (look (\<lambda>_. check_tensors schema tensors)) (\<lambda>_.
     call (look (\<lambda>_. add_update aggregate tensors)) (\<lambda>aggregate'.
     call (look (\<lambda>_. read_tag (w_repr env) itag)) (\<lambda>tag.
     aggregate_loop env (\<lambda>i. t (i + 1)) job_id token schema rest (Some aggregate')
       ((aggregate_tag + tag) mod FIELD_PRIME)))))))"

section \<open>One run\<close>

definition tag_hex :: "int \<Rightarrow> exn + string" where
  "tag_hex tag = attempt (int_to_bytes_big 16 tag) (\<lambda>bs. Inr (hex bs))"

text \<open>\<open>{name: aggregate[name].contiguous() for name in sorted(aggregate)}\<close>.\<close>

definition sorted_tensors :: "tensors \<Rightarrow> tensors" where
  "sorted_tensors aggregate = map (\<lambda>name. (name, the (map_of aggregate name))) (sort (map fst aggregate))"

text \<open>The \<open>try\<close> block of \<open>run_once\<close>. The clock readings after the loop follow those of the loop.\<close>

definition aggregate_job :: "worker_env \<Rightarrow> (nat \<Rightarrow> real) \<Rightarrow> string \<Rightarrow> string \<Rightarrow> string \<Rightarrow> string \<Rightarrow> (world, unit) tx" where
  "aggregate_job env t oid rid job_id token =
     call (look (\<lambda>w. job_inputs rid (wdb w))) (\<lambda>(r, inputs).
     let n = length inputs in
     if n \<noteq> expected_count r then throw (ValueError ''submission count changed after barrier'')
     else
     call (aggregate_loop env t job_id token (model_schema_json r) inputs None 0) (\<lambda>(aggregate, aggregate_tag).
     case aggregate of None \<Rightarrow> throw (ValueError ''aggregation job has no inputs'')
     | Some agg \<Rightarrow>
         call (on_db (renew_job (t n) job_id token (lease_seconds env))) (\<lambda>_.
         call (on_files (put_bytes (w_sha env) (w_dir env) (w_max_bytes env) oid
           (save_tensors env (sorted_tensors agg)))) (\<lambda>stored.
         rescue any_exception (\<lambda>e. call (delete_stored (stored_path stored)) (\<lambda>_. throw e))
           (call (look (\<lambda>_. tag_hex aggregate_tag)) (\<lambda>tag.
            on_db (complete_job (t (n + 1)) (t (n + 2)) job_id rid token stored tag)))))))"

definition run_once :: "worker_env \<Rightarrow> real \<Rightarrow> (string \<Rightarrow> real) \<Rightarrow> (nat \<Rightarrow> real) \<Rightarrow> real \<Rightarrow> string \<Rightarrow> string
    \<Rightarrow> (world, bool) tx" where
  "run_once env now tnow t tfail token oid =
     call (on_db (claim_job now tnow token (lease_seconds env))) (\<lambda>job.
     case job of None \<Rightarrow> ret False
     | Some j \<Rightarrow>
         let rid = j_round j; job_id = j_id j;
             claim = (case j_claim_token j of None \<Rightarrow> ''None'' | Some k \<Rightarrow> k) in
         call (rescue any_exception
           (\<lambda>e. call (on_db (fail_job tfail job_id rid claim (exn_text (w_describe env) e) (transient e))) (\<lambda>_. ret ()))
           (aggregate_job env t oid rid job_id claim)) (\<lambda>_. ret True))"

section \<open>Maintenance\<close>

fun delete_paths :: "string list \<Rightarrow> (world, unit) tx" where
  "delete_paths [] = ret ()"
| "delete_paths (path # paths) = call (delete_stored path) (\<lambda>_. delete_paths paths)"

fun purge_loop :: "(nat \<Rightarrow> real) \<Rightarrow> (string \<times> string list) list \<Rightarrow> nat \<Rightarrow> (world, nat) tx" where
  "purge_loop t [] n = ret n"
| "purge_loop t ((rid, paths) # rest) n =
     call (delete_paths paths) (\<lambda>_.
     call (on_db (purge_round (t 0) rid)) (\<lambda>_.
     purge_loop (\<lambda>i. t (i + 1)) rest (n + 1)))"

definition run_maintenance :: "real \<Rightarrow> (string \<Rightarrow> real) \<Rightarrow> real \<Rightarrow> (nat \<Rightarrow> real) \<Rightarrow> (world, nat) tx" where
  "run_maintenance now tnow scan t =
     call (on_db (expire_rounds now None tnow)) (\<lambda>_.
     call (look (\<lambda>w. Inr (retention_candidates scan None (wdb w)))) (\<lambda>candidates.
     purge_loop t candidates 0))"

section \<open>The main loop\<close>

text \<open>
  One round of \<open>while not stopping\<close>: the new time of the next maintenance, and whether the loop sleeps
  because there was no job. \<open>clock\<close> is the monotonic clock that schedules the maintenance.
\<close>

definition main_iteration :: "real \<Rightarrow> real \<Rightarrow> real \<Rightarrow> (world, nat) tx \<Rightarrow> (world, bool) tx
    \<Rightarrow> (world, real \<times> bool) tx" where
  "main_iteration clock next_maintenance interval maintenance once =
     call (if next_maintenance \<le> clock then call maintenance (\<lambda>_. ret (clock + interval)) else ret next_maintenance)
       (\<lambda>following. call once (\<lambda>worked. ret (following, \<not> worked)))"

end
