(* ===== verification/Requests.thy ===== *)
theory Requests
  imports Worker
begin

text \<open>
  The parts of \<open>app/api/v1.py\<close> below the handlers: authentication, error answers, signed values and the
  checks of uploaded files. What the code takes from libraries is a field of \<open>api_env\<close>: the hash, Ed25519
  verification, the JSON and tensor readers and the texts of foreign exceptions. Header values and tokens are
  texts in UTF-8, like every \<open>string\<close> of the development.
\<close>

section \<open>Environment\<close>

text \<open>
  What \<open>json.loads\<close> returns; a float that is not finite is \<open>None\<close>, and a dictionary is the list of its
  items.
\<close>

datatype python =
    PNone
  | PBool bool
  | PInt int
  | PFloat "real option"
  | PStr string
  | PList "python list"
  | PDict "(string \<times> python) list"

record api_env =
  a_sha :: "bytes \<Rightarrow> bytes"
  ed25519_verify :: "bytes \<Rightarrow> bytes \<Rightarrow> bytes \<Rightarrow> bool"
  load_json :: "bytes \<Rightarrow> python option"
  safe_open :: "bytes \<Rightarrow> exn + tensors"
  a_describe :: "exn \<Rightarrow> string"
  python_str :: "python \<Rightarrow> string"
  base64_error :: "string \<Rightarrow> string"
  admin_token :: string
  store_root :: string
  max_artifact_bytes :: nat
  round_ttl_seconds :: int
  retention_seconds :: int
  max_participants :: "nat option"

definition api_error :: "nat \<Rightarrow> string \<Rightarrow> string \<Rightarrow> string option \<Rightarrow> exn" where
  "api_error st code message rid =
     HTTPException st code message (case rid of None \<Rightarrow> None | Some r \<Rightarrow> if r = '''' then None else Some r)"

section \<open>Authentication\<close>

definition bearer :: "string option \<Rightarrow> exn + string" where
  "bearer authorization =
     (let v = (case authorization of None \<Rightarrow> '''' | Some h \<Rightarrow> h) in
      if \<not> starts_with ''Bearer '' v \<or> text_length v \<le> 7
      then Inl (api_error 401 ''AUTHENTICATION_FAILED'' ''valid bearer authentication is required'' None)
      else Inr (drop 7 v))"

definition participant_identity :: "api_env \<Rightarrow> string option \<Rightarrow> db \<Rightarrow> exn + member_row" where
  "participant_identity env authorization s =
     attempt (bearer authorization) (\<lambda>token.
     case member_for_token (a_sha env) token s of
       None \<Rightarrow> Inl (api_error 401 ''AUTHENTICATION_FAILED'' ''credential is invalid or revoked'' None)
     | Some m \<Rightarrow> Inr m)"

text \<open>\<open>hmac.compare_digest\<close> of two texts raises on characters outside ASCII.\<close>

definition ascii :: "string \<Rightarrow> bool" where
  "ascii s \<longleftrightarrow> list_all (\<lambda>c. of_char c < (128 :: nat)) s"

definition compare_digest :: "string \<Rightarrow> string \<Rightarrow> exn + bool" where
  "compare_digest a b = (if ascii a \<and> ascii b then Inr (a = b) else Inl TypeError)"

definition operator_identity :: "api_env \<Rightarrow> string option \<Rightarrow> exn + string" where
  "operator_identity env authorization =
     attempt (bearer authorization) (\<lambda>token.
     attempt (compare_digest token (admin_token env)) (\<lambda>same.
     if \<not> same then Inl (api_error 403 ''AUTHORIZATION_FAILED'' ''operator authorization is required'' None)
     else Inr ''operator''))"

definition idem :: "string option \<Rightarrow> exn + string" where
  "idem header = (case header of
     None \<Rightarrow> Inl (api_error 400 ''IDEMPOTENCY_KEY_REQUIRED'' ''a bounded Idempotency-Key is required'' None)
   | Some v \<Rightarrow> if v = '''' \<or> text_length v > 128
       then Inl (api_error 400 ''IDEMPOTENCY_KEY_REQUIRED'' ''a bounded Idempotency-Key is required'' None)
       else Inr v)"

text \<open>The readings \<open>t 0\<close>, \<open>t 1\<close> and \<open>t 2\<close> of the clock belong to \<open>get_round\<close>.\<close>

definition round_for_member :: "(nat \<Rightarrow> real) \<Rightarrow> string \<Rightarrow> member_row \<Rightarrow> (world, round_row) tx" where
  "round_for_member t rid m =
     call (on_db (get_round True (t 0) (t 1) (t 2) rid)) (\<lambda>row.
     case row of
       None \<Rightarrow> throw (api_error 404 ''ROUND_NOT_FOUND'' ''round does not exist'' (Some rid))
     | Some r \<Rightarrow>
         if federation_id r \<noteq> m_federation m then
           throw (api_error 403 ''AUTHORIZATION_FAILED'' ''caller is not a round participant'' (Some rid))
         else call (look (\<lambda>w. Inr (participant rid (m_client m) (wdb w)))) (\<lambda>p.
           if p = None then
             throw (api_error 403 ''AUTHORIZATION_FAILED'' ''caller is not a round participant'' (Some rid))
           else ret r))"

section \<open>Signatures\<close>

definition message_domain :: "round_row \<Rightarrow> string \<Rightarrow> string \<Rightarrow> bytes" where
  "message_domain row client purpose =
     encode (join [CHR 0x00]
       [purpose, protocol_version row, federation_id row, round_id row, model_schema_hash row,
        participant_manifest_hash row, aggregation_policy row, str_int (precision_bits row)])"

definition signature_valid :: "api_env \<Rightarrow> round_row \<Rightarrow> member_row \<Rightarrow> string \<Rightarrow> json \<Rightarrow> string \<Rightarrow> bool" where
  "signature_valid env row m purpose v sig =
     (case (b64decode (m_signing_key m), b64decode sig) of
        (Some key, Some sig_bytes) \<Rightarrow> length key = 32 \<and>
          ed25519_verify env key sig_bytes (message_domain row (m_client m) purpose @ encode (canonical_json v))
      | _ \<Rightarrow> False)"

definition verify_signature :: "api_env \<Rightarrow> round_row \<Rightarrow> member_row \<Rightarrow> string \<Rightarrow> json \<Rightarrow> string \<Rightarrow> exn + unit" where
  "verify_signature env row m purpose v sig =
     (if signature_valid env row m purpose v sig then Inr ()
      else Inl (api_error 422 ''ARTIFACT_INVALID'' ''identity signature is invalid'' (Some (round_id row))))"

section \<open>Error answers\<close>

definition translated :: "string \<Rightarrow> nat \<times> string \<times> string" where
  "translated code =
     (if code = ''IDEMPOTENCY_CONFLICT'' then (409, code, ''idempotency key was reused with different content'')
      else if code = ''ROUND_CONFLICT'' then (409, code, ''operation is not allowed in the current round state'')
      else if code = ''ROUND_NOT_FOUND'' then (404, code, ''round does not exist'')
      else if code = ''NOT_READY'' then (409, ''ROUND_CONFLICT'', ''round barrier is not complete'')
      else if code = ''KEY_CONTEXT_MISMATCH'' then (422, ''ROUND_FAILED'', ''clients committed different key contexts'')
      else if code = ''KEY_BUNDLE_INVALID'' then (422, ''ARTIFACT_INVALID'', ''key bundle is incomplete'')
      else (422, ''ARTIFACT_INVALID'', ''artifact validation failed''))"

definition translate :: "api_env \<Rightarrow> string option \<Rightarrow> exn \<Rightarrow> ('s, 'a) tx" where
  "translate env rid e =
     (let (st, code, message) = translated (exn_text (a_describe env) e) in throw (api_error st code message rid))"

definition fail_tree :: "real \<Rightarrow> string \<Rightarrow> string \<Rightarrow> string \<Rightarrow> (world, 'a) tx" where
  "fail_tree tnow rid client message =
     call (on_db (fail_round tnow rid client ''KEY_ARTIFACT_REJECTED'' message)) (\<lambda>_.
     throw (api_error 422 ''ROUND_FAILED'' ''encrypted key artifact was rejected'' (Some rid)))"

section \<open>Signed metadata\<close>

definition artifact_value :: "task \<Rightarrow> string \<Rightarrow> string \<Rightarrow> string \<Rightarrow> string \<Rightarrow> nat \<Rightarrow> (string \<times> json) list" where
  "artifact_value tk plan_hash schema_hash nonce digest sz =
     [(''task_id'', JStr (task_id tk)), (''action'', JStr (action_value (action tk))),
      (''stage'', JStr (stage_value (stage tk))), (''level'', JInt (level tk)),
      (''sender'', JStr (sender tk)), (''receiver'', JStr (receiver tk)),
      (''dependencies'', JList (map JStr (dependencies tk))), (''plan_hash'', JStr plan_hash),
      (''model_schema_hash'', JStr schema_hash), (''nonce'', JStr nonce),
      (''ciphertext_digest'', JStr digest), (''ciphertext_size'', JInt (int sz))]"

definition final_key_value :: "round_row \<Rightarrow> string \<Rightarrow> string \<Rightarrow> string \<Rightarrow> string \<Rightarrow> nat \<Rightarrow> (string \<times> json) list" where
  "final_key_value row plan_hash sender_id nonce digest sz =
     [(''task_id'', JStr ''final-key''), (''stage'', JStr ''FINAL_DISTRIBUTION''), (''level'', JInt (- 1)),
      (''sender'', JStr sender_id), (''receiver'', JStr ''ALL_PARTICIPANTS''), (''dependencies'', JList []),
      (''round_id'', JStr (round_id row)), (''plan_hash'', JStr plan_hash),
      (''model_schema_hash'', JStr (model_schema_hash row)), (''nonce'', JStr nonce),
      (''ciphertext_digest'', JStr digest), (''ciphertext_size'', JInt (int sz))]"

text \<open>
  \<open>metadata == expected\<close> in Python, where the expected values are texts, integers and lists of texts; a
  Boolean and a float equal the integer of the same value.
\<close>

fun scalar_equal :: "python \<Rightarrow> json \<Rightarrow> bool" where
  "scalar_equal (PStr s) (JStr s') = (s = s')"
| "scalar_equal (PInt i) (JInt j) = (i = j)"
| "scalar_equal (PBool b) (JInt j) = (of_bool b = j)"
| "scalar_equal (PFloat (Some x)) (JInt j) = (x = of_int j)"
| "scalar_equal _ _ = False"

fun value_equal :: "python \<Rightarrow> json \<Rightarrow> bool" where
  "value_equal (PList vs) (JList js) = list_all2 scalar_equal vs js"
| "value_equal v j = scalar_equal v j"

definition dict_equal :: "(string \<times> python) list \<Rightarrow> (string \<times> json) list \<Rightarrow> bool" where
  "dict_equal kvs expected \<longleftrightarrow> set (map fst kvs) = set (map fst expected) \<and>
     list_all (\<lambda>(k, j). case map_of kvs k of None \<Rightarrow> False | Some v \<Rightarrow> value_equal v j) expected"

text \<open>\<open>str(metadata.get("nonce"))\<close>.\<close>

definition nonce_text :: "api_env \<Rightarrow> (string \<times> python) list \<Rightarrow> string" where
  "nonce_text env metadata = (case map_of metadata ''nonce'' of
     None \<Rightarrow> ''None'' | Some (PStr s) \<Rightarrow> s | Some v \<Rightarrow> python_str env v)"

definition decode_metadata :: "api_env \<Rightarrow> string option \<Rightarrow> string \<Rightarrow> exn + (string \<times> python) list" where
  "decode_metadata env encoded rid =
     (case (case encoded of None \<Rightarrow> None | Some text \<Rightarrow> Option.bind (b64decode text) (load_json env)) of
        Some (PDict kvs) \<Rightarrow> Inr kvs
      | _ \<Rightarrow> Inl (api_error 422 ''ARTIFACT_INVALID'' ''encrypted artifact metadata is malformed'' (Some rid)))"

text \<open>The digest that makes the upload of an encrypted artifact idempotent.\<close>

definition upload_digest :: "api_env \<Rightarrow> (string \<times> json) list \<Rightarrow> string \<Rightarrow> stored_object \<Rightarrow> string" where
  "upload_digest env expected sig stored = hexdigest (a_sha env) (encode (canonical_json (JObj
     [(''metadata'', JObj expected), (''signature'', JStr sig), (''content'', JStr (stored_digest stored))])))"

section \<open>Uploaded tensors\<close>

text \<open>
  \<open>_validate_safetensors\<close>: the same names, and for every expected entry the type and the shape. Any
  exception is turned into one \<open>ValueError\<close>.
\<close>

definition tensor_matches :: "tensors \<Rightarrow> tensor_schema \<Rightarrow> bool" where
  "tensor_matches ts e = (case map_of ts (tensor_name e) of None \<Rightarrow> False
     | Some t \<Rightarrow> ''torch.'' @ t_dtype t = ''torch.int64'' \<and> t_shape t = shape e)"

definition validate_safetensors :: "api_env \<Rightarrow> string \<Rightarrow> model_schema \<Rightarrow> files \<Rightarrow> exn + unit" where
  "validate_safetensors env path schema fs =
     (case fs path of
        None \<Rightarrow> Inl (ValueError ''invalid safetensors/schema'')
      | Some content \<Rightarrow>
          (case safe_open env content of
             Inl e \<Rightarrow> Inl (ValueError ''invalid safetensors/schema'')
           | Inr ts \<Rightarrow>
               if set (map fst ts) = set (expected_names schema) \<and>
                 list_all (\<lambda>name. case expected_entries schema name of None \<Rightarrow> False | Some e \<Rightarrow> tensor_matches ts e)
                   (expected_names schema)
               then Inr () else Inl (ValueError ''invalid safetensors/schema'')))"

definition tag_acceptable :: "string \<Rightarrow> bool" where
  "tag_acceptable tag \<longleftrightarrow> (case from_hex tag of None \<Rightarrow> False
     | Some bs \<Rightarrow> length bs = 16 \<and> (case int_base16 tag of None \<Rightarrow> False | Some n \<Rightarrow> n < FIELD_PRIME))"

end
