(* ===== verification/Api.thy ===== *)
theory Api
  imports Requests
begin

text \<open>
  The handlers of \<open>app/api/v1.py\<close>, one definition each, and \<open>serve\<close>, which is what the framework does
  with a request: resolve the dependencies of the handler in their order, refuse a body that its model
  rejects, and run the handler. The clock readings of a request are \<open>t 0\<close>, \<open>t 1\<close> and so on; fresh
  identifiers are arguments. An exception that leaves a handler is answered by the framework, an
  \<open>HTTPException\<close> with its own status, any other one with status 500.
\<close>

section \<open>Answers\<close>

record round_view = round_context +
  view_state :: round_state
  view_version :: nat
  view_expected :: nat
  view_deadline :: real
  view_failure :: "string option \<times> string option"

datatype reply =
    Recorded response bool
  | Answered response
  | Round_View round_view
  | Participant_View string participant_state bool real
  | Public_Keys "(string \<times> public_key_artifact) list"
  | Key_Bundles "(string \<times> key_bundle_artifact) list"
  | No_Content
  | Tree_Plan string tree_plan "manifest_entry list"
  | Next_Action key_action
  | Encrypted_File string string string string
  | Result_File string string string

section \<open>Rounds\<close>

text \<open>\<open>for client_id in sorted(body.participants)\<close>.\<close>

fun enrolled_manifest :: "string \<Rightarrow> string list \<Rightarrow> db \<Rightarrow> exn + json list" where
  "enrolled_manifest federation [] s = Inr []"
| "enrolled_manifest federation (client # clients) s =
     (case member federation client s of
        None \<Rightarrow> Inl (api_error 422 ''UNKNOWN_CLIENT'' ''participant is not an enrolled federation member'' None)
      | Some m \<Rightarrow>
          if m_role m \<noteq> ''participant''
          then Inl (api_error 422 ''UNKNOWN_CLIENT'' ''participant is not an enrolled federation member'' None)
          else attempt (enrolled_manifest federation clients s) (\<lambda>rest.
            Inr (JObj [(''client_id'', JStr client), (''signing_public_key'', JStr (m_signing_key m))] # rest)))"

definition uploaded_elements :: "model_schema \<Rightarrow> int" where
  "uploaded_elements schema = sum_list (map (\<lambda>e. prod_list (shape e)) (filter uploaded (entries schema)))"

definition json_digest :: "api_env \<Rightarrow> json \<Rightarrow> string" where
  "json_digest env v = hexdigest (a_sha env) (encode (canonical_json v))"

definition handle_create_round :: "api_env \<Rightarrow> (nat \<Rightarrow> real) \<Rightarrow> string \<Rightarrow> string \<Rightarrow> create_round_request \<Rightarrow> string
    \<Rightarrow> (world, reply) tx" where
  "handle_create_round env t new_id federation body idem_key =
     (let schema = request_schema body; clients = sort (request_participants body) in
      if request_protocol_version body \<notin> {''1.0'', ''1.1''} then
        throw (api_error 422 ''PROTOCOL_VERSION_UNSUPPORTED'' ''supported protocols are 1.0 and 1.1'' None)
      else if (case max_participants env of None \<Rightarrow> False | Some n \<Rightarrow> length (request_participants body) > n) then
        throw (api_error 422 ''PARTICIPANT_LIMIT_EXCEEDED'' (''round exceeds the configured limit of ''
          @ str_nat (the (max_participants env)) @ '' participants'') None)
      else if length (remdups (request_participants body)) \<noteq> length (request_participants body) then
        throw (api_error 422 ''ARTIFACT_INVALID'' ''participant IDs must be unique'' None)
      else if uploaded_elements schema > int (max_artifact_bytes env) div 8 then
        throw (api_error 422 ''ARTIFACT_INVALID'' ''encoded model exceeds the configured artifact limit'' None)
      else if json_digest env (schema_json schema) \<noteq> request_schema_hash body then
        throw (api_error 422 ''SCHEMA_MISMATCH'' ''schema hash does not match canonical schema'' None)
      else
        call (look (\<lambda>w. enrolled_manifest federation clients (wdb w))) (\<lambda>manifest.
        call (rescue value_error (translate env None)
          (on_db (create_round (t 0) new_id federation (request_protocol_version body) schema
             (request_schema_hash body) clients (json_digest env (JList manifest))
             (case request_deadline_seconds body of None \<Rightarrow> round_ttl_seconds env
                | Some d \<Rightarrow> if d = 0 then round_ttl_seconds env else d)
             (retention_seconds env) ''operator'' idem_key (json_digest env (create_request_json body)))))
          (\<lambda>(resp, replay). ret (Recorded resp replay))))"

definition round_view_of :: "round_row \<Rightarrow> round_view" where
  "round_view_of r = \<lparr>protocol_version = protocol_version r, federation_id = federation_id r,
     round_id = round_id r, model_schema_hash = model_schema_hash r,
     participant_manifest_hash = participant_manifest_hash r, aggregation_policy = aggregation_policy r,
     precision_bits = precision_bits r, view_state = status r, view_version = state_version r,
     view_expected = expected_count r, view_deadline = deadline_at r,
     view_failure = (failure_code r, failure_detail r)\<rparr>"

definition handle_get_round :: "(nat \<Rightarrow> real) \<Rightarrow> string \<Rightarrow> member_row \<Rightarrow> (world, reply) tx" where
  "handle_get_round t rid m = call (round_for_member t rid m) (\<lambda>row. ret (Round_View (round_view_of row)))"

definition handle_get_me :: "(nat \<Rightarrow> real) \<Rightarrow> string \<Rightarrow> member_row \<Rightarrow> (world, reply) tx" where
  "handle_get_me t rid m =
     call (round_for_member t rid m) (\<lambda>_.
     call (look (\<lambda>w. Inr (participant rid (m_client m) (wdb w)))) (\<lambda>p.
     case p of
       None \<Rightarrow> throw (api_error 403 ''AUTHORIZATION_FAILED'' ''caller is not a round participant'' (Some rid))
     | Some row \<Rightarrow> ret (Participant_View (p_client row) (p_state row) (p_completed row) (p_last_seen row))))"

section \<open>Key setup\<close>

definition handle_put_public_key :: "api_env \<Rightarrow> (nat \<Rightarrow> real) \<Rightarrow> string \<Rightarrow> public_key_artifact \<Rightarrow> member_row \<Rightarrow> string
    \<Rightarrow> (world, reply) tx" where
  "handle_put_public_key env t rid body m idem_key =
     call (round_for_member t rid m) (\<lambda>row.
     if (case b64decode (key_text body) of None \<Rightarrow> True | Some raw \<Rightarrow> length raw \<noteq> 32) then
       throw (api_error 422 ''ARTIFACT_INVALID'' ''X25519 public key is invalid'' (Some rid))
     else
       call (look (\<lambda>_. verify_signature env row m ''ephemeral-public-key''
         (JObj [(''public_key'', JStr (key_text body))]) (key_signature body))) (\<lambda>_.
       call (rescue value_error (translate env (Some rid))
         (on_db (record_json_slot (t 3) (t 4) rid (m_client m) (PublicKeyBody body) idem_key
           (json_digest env (public_key_json body)))))
         (\<lambda>(resp, replay). ret (Recorded resp replay))))"

definition handle_get_public_keys :: "api_env \<Rightarrow> (nat \<Rightarrow> real) \<Rightarrow> string \<Rightarrow> member_row \<Rightarrow> (world, reply) tx" where
  "handle_get_public_keys env t rid m =
     call (round_for_member t rid m) (\<lambda>_.
     rescue value_error (translate env (Some rid))
       (call (look (\<lambda>w. public_keys rid (wdb w))) (\<lambda>ks. ret (Public_Keys ks))))"

definition bad_envelope :: "key_envelope \<Rightarrow> bool" where
  "bad_envelope e \<longleftrightarrow> (case b64decode (envelope_nonce e) of None \<Rightarrow> True | Some bs \<Rightarrow> length bs \<noteq> 12) \<or>
     (case b64decode (envelope_ciphertext e) of None \<Rightarrow> True | Some bs \<Rightarrow> length bs > 4096)"

definition handle_put_key_bundle :: "api_env \<Rightarrow> (nat \<Rightarrow> real) \<Rightarrow> string \<Rightarrow> key_bundle_artifact \<Rightarrow> member_row \<Rightarrow> string
    \<Rightarrow> (world, reply) tx" where
  "handle_put_key_bundle env t rid body m idem_key =
     call (round_for_member t rid m) (\<lambda>row.
     if set (map fst (messages body)) \<noteq> set (participants_json row) - {m_client m} then
       throw (api_error 422 ''ARTIFACT_INVALID'' ''key bundle recipients do not match the committed manifest'' (Some rid))
     else
       call (look (\<lambda>_. verify_signature env row m ''key-bundle''
         (JObj [(''messages'', messages_json (messages body))]) (bundle_signature body))) (\<lambda>_.
       if list_ex (\<lambda>(_, e). bad_envelope e) (messages body) then
         throw (api_error 422 ''ARTIFACT_INVALID'' ''key envelope is malformed'' (Some rid))
       else
         call (rescue value_error (translate env (Some rid))
           (on_db (record_json_slot (t 3) (t 4) rid (m_client m) (KeyBundleBody body) idem_key
             (json_digest env (key_bundle_json body)))))
           (\<lambda>(resp, replay). ret (Recorded resp replay))))"

definition handle_get_key_bundles :: "api_env \<Rightarrow> (nat \<Rightarrow> real) \<Rightarrow> string \<Rightarrow> member_row \<Rightarrow> (world, reply) tx" where
  "handle_get_key_bundles env t rid m =
     call (round_for_member t rid m) (\<lambda>_.
     call (rescue value_error (translate env (Some rid))
       (look (\<lambda>w. incoming_bundles rid (m_client m) (wdb w)))) (\<lambda>bundles.
     case bundles of None \<Rightarrow> ret No_Content | Some bs \<Rightarrow> ret (Key_Bundles bs)))"

definition handle_key_setup_complete :: "api_env \<Rightarrow> (nat \<Rightarrow> real) \<Rightarrow> string \<Rightarrow> string \<Rightarrow> member_row \<Rightarrow> string
    \<Rightarrow> (world, reply) tx" where
  "handle_key_setup_complete env t rid commitment m idem_key =
     call (round_for_member t rid m) (\<lambda>_.
     rescue value_error (translate env (Some rid))
       (call (on_db (key_complete (a_sha env) (t 3) (t 4) rid (m_client m) commitment idem_key
          (json_digest env (JObj [(''context_commitment'', JStr commitment)])))) (\<lambda>resp.
        ret (Answered resp))))"

section \<open>Key aggregation\<close>

definition handle_get_tree_plan :: "(nat \<Rightarrow> real) \<Rightarrow> string \<Rightarrow> member_row \<Rightarrow> (world, reply) tx" where
  "handle_get_tree_plan t rid m =
     call (round_for_member t rid m) (\<lambda>row.
     if protocol_version row \<noteq> ''1.1'' then
       throw (api_error 409 ''ROUND_CONFLICT'' ''tree plans are only available for protocol 1.1'' (Some rid))
     else
       call (look (\<lambda>w. Inr (tree_plan_record rid (wdb w)))) (\<lambda>plan.
       case plan of
         None \<Rightarrow> throw (api_error 409 ''ROUND_CONFLICT'' ''tree plan is not ready'' (Some rid))
       | Some (plan_hash, p, manifest) \<Rightarrow> ret (Tree_Plan plan_hash p manifest)))"

definition handle_get_next_key_action :: "api_env \<Rightarrow> (nat \<Rightarrow> real) \<Rightarrow> string \<Rightarrow> member_row \<Rightarrow> (world, reply) tx" where
  "handle_get_next_key_action env t rid m =
     call (round_for_member t rid m) (\<lambda>_.
     call (rescue value_error (translate env (Some rid))
       (look (\<lambda>w. next_key_action rid (m_client m) (wdb w)))) (\<lambda>act.
     case act of None \<Rightarrow> ret No_Content | Some a \<Rightarrow> ret (Next_Action a)))"

text \<open>The block of both encrypted uploads that checks the stored file against the signed metadata.\<close>

definition check_upload :: "api_env \<Rightarrow> round_row \<Rightarrow> member_row \<Rightarrow> string \<Rightarrow> string \<Rightarrow> (string \<times> python) list
    \<Rightarrow> (string \<Rightarrow> string \<Rightarrow> (string \<times> json) list) \<Rightarrow> string \<Rightarrow> stored_object
    \<Rightarrow> (world, string \<times> string) tx" where
  "check_upload env row m purpose message metadata expected_for sig stored =
     (let nonce = nonce_text env metadata in
      call (look (\<lambda>_. case b64decode nonce of None \<Rightarrow> Inl (ValueError (base64_error env nonce)) | Some bs \<Rightarrow> Inr bs))
        (\<lambda>nonce_bytes.
      call (look (\<lambda>w. ciphertext_digest (a_sha env) (stored_path stored) nonce_bytes (wfiles w))) (\<lambda>digest.
      let expected = expected_for nonce digest in
      if length nonce_bytes \<noteq> 12 \<or> \<not> dict_equal metadata expected then throw (ValueError message)
      else
        call (look (\<lambda>_. verify_signature env row m purpose (JObj expected) sig)) (\<lambda>_.
        ret (digest, upload_digest env expected sig stored)))))"

definition handle_put_key_task_artifact :: "api_env \<Rightarrow> (nat \<Rightarrow> real) \<Rightarrow> string \<Rightarrow> string \<Rightarrow> string
    \<Rightarrow> string option \<Rightarrow> string option \<Rightarrow> bytes list \<Rightarrow> exn option \<Rightarrow> member_row \<Rightarrow> string \<Rightarrow> (world, reply) tx" where
  "handle_put_key_task_artifact env t oid rid tid encoded sig_header chunks failure m idem_key =
     call (round_for_member t rid m) (\<lambda>row.
     let client = m_client m; tfail = t 4 in
     call (rescue any_exception (\<lambda>_. fail_tree tfail rid client ''tree artifact metadata is malformed'')
       (look (\<lambda>_. decode_metadata env encoded rid))) (\<lambda>metadata.
     call (look (\<lambda>w. Inr (tree_plan_record rid (wdb w)))) (\<lambda>plan_record.
     case plan_record of
       None \<Rightarrow> fail_tree tfail rid client ''tree task is unavailable''
     | Some (plan_hash, plan, manifest) \<Rightarrow>
         if protocol_version row \<noteq> ''1.1'' then fail_tree tfail rid client ''tree task is unavailable''
         else
           (case (List.find (\<lambda>item. task_id item = tid) (plan_tasks plan), sig_header) of
              (Some tk, Some sig) \<Rightarrow>
                if sender tk \<noteq> client then fail_tree tfail rid client ''tree task actor or identifier is invalid''
                else
                  call (rescue any_exception (\<lambda>e. fail_tree tfail rid client (exn_text (a_describe env) e))
                    (on_files (put_stream (a_sha env) (store_root env) (max_artifact_bytes env) oid chunks failure)))
                    (\<lambda>stored.
                  call (rescue any_exception
                      (\<lambda>e. call (delete_stored (stored_path stored)) (\<lambda>_.
                           fail_tree tfail rid client (exn_text (a_describe env) e)))
                      (call (check_upload env row m ''tree-artifact''
                         ''artifact metadata differs from the authorized task'' metadata
                         (\<lambda>nonce digest. artifact_value tk plan_hash (model_schema_hash row) nonce digest
                            (stored_size stored)) sig stored) (\<lambda>(digest, request_digest).
                       on_db (record_task_artifact (t 3) rid client tid stored digest (nonce_text env metadata) sig
                         idem_key request_digest)))) (\<lambda>(resp, replay).
                  call (if replay then delete_stored (stored_path stored) else ret ()) (\<lambda>_.
                  ret (Recorded resp replay))))
            | _ \<Rightarrow> fail_tree tfail rid client ''tree task actor or identifier is invalid''))))"

text \<open>The metadata of a downloaded task artifact without the signature, in the order of \<open>canonical_json\<close>'s keys.\<close>

definition metadata_json :: "artifact_metadata \<Rightarrow> json" where
  "metadata_json md = JObj
     [(''task_id'', JStr (task_id md)), (''action'', JStr (action_value (action md))),
      (''stage'', JStr (stage_value (stage md))), (''level'', JInt (level md)),
      (''sender'', JStr (sender md)), (''receiver'', JStr (receiver md)),
      (''dependencies'', JList (map JStr (dependencies md))),
      (''model_schema_hash'', JStr (meta_schema_hash md)),
      (''nonce'', case meta_nonce md of None \<Rightarrow> JNull | Some n \<Rightarrow> JStr n),
      (''ciphertext_digest'', case meta_digest md of None \<Rightarrow> JNull | Some d \<Rightarrow> JStr d),
      (''ciphertext_size'', JInt (int (meta_size md))), (''plan_hash'', JStr (meta_plan_hash md))]"

text \<open>Reading the stored file again before it is handed out.\<close>

definition check_stored :: "api_env \<Rightarrow> real \<Rightarrow> string \<Rightarrow> string \<Rightarrow> artifact_row \<Rightarrow> string \<Rightarrow> string \<Rightarrow> (world, unit) tx" where
  "check_stored env tfail rid client artifact missing changed =
     call (rescue (\<lambda>e. case e of OSError _ \<Rightarrow> True | _ \<Rightarrow> False) (\<lambda>_. fail_tree tfail rid client missing)
       (look (\<lambda>w. file_digest (a_sha env) (a_path artifact) (wfiles w)))) (\<lambda>digest.
     call (look (\<lambda>_. compare_digest digest (a_digest artifact))) (\<lambda>same.
     if \<not> same then fail_tree tfail rid client changed else ret ()))"

definition handle_get_key_task_artifact :: "api_env \<Rightarrow> (nat \<Rightarrow> real) \<Rightarrow> string \<Rightarrow> string \<Rightarrow> member_row \<Rightarrow> (world, reply) tx" where
  "handle_get_key_task_artifact env t rid tid m =
     call (round_for_member t rid m) (\<lambda>_.
     call (rescue value_error (translate env (Some rid))
       (look (\<lambda>w. task_artifact rid tid (m_client m) (wdb w)))) (\<lambda>(artifact, md).
     call (check_stored env (t 3) rid (m_client m) artifact ''stored tree artifact is unavailable''
       ''stored tree artifact digest changed'') (\<lambda>_.
     ret (Encrypted_File (a_path artifact) (b64encode (encode (canonical_json (metadata_json md))))
       (case meta_signature md of None \<Rightarrow> ''None'' | Some sig \<Rightarrow> sig) (a_digest artifact)))))"

definition handle_acknowledge_key_task :: "api_env \<Rightarrow> (nat \<Rightarrow> real) \<Rightarrow> string \<Rightarrow> string \<Rightarrow> string \<Rightarrow> member_row \<Rightarrow> string
    \<Rightarrow> (world, reply) tx" where
  "handle_acknowledge_key_task env t rid tid artifact_digest m idem_key =
     call (round_for_member t rid m) (\<lambda>_.
     rescue value_error (\<lambda>e. fail_tree (t 4) rid (m_client m) (exn_text (a_describe env) e))
       (call (on_db (acknowledge_task (t 3) rid (m_client m) tid artifact_digest idem_key
          (json_digest env (JObj [(''artifact_digest'', JStr artifact_digest)])))) (\<lambda>resp.
        ret (Answered resp))))"

section \<open>The final key\<close>

definition handle_put_final_key :: "api_env \<Rightarrow> (nat \<Rightarrow> real) \<Rightarrow> string \<Rightarrow> string \<Rightarrow> string option \<Rightarrow> string option
    \<Rightarrow> bytes list \<Rightarrow> exn option \<Rightarrow> member_row \<Rightarrow> string \<Rightarrow> (world, reply) tx" where
  "handle_put_final_key env t oid rid encoded sig_header chunks failure m idem_key =
     call (round_for_member t rid m) (\<lambda>row.
     let client = m_client m; tfail = t 4 in
     call (rescue any_exception (\<lambda>_. fail_tree tfail rid client ''final key metadata is malformed'')
       (look (\<lambda>_. decode_metadata env encoded rid))) (\<lambda>metadata.
     call (look (\<lambda>w. Inr (tree_plan_record rid (wdb w)))) (\<lambda>plan_record.
     case (plan_record, sig_header) of
       (Some (plan_hash, plan, manifest), Some sig) \<Rightarrow>
         if client \<noteq> root_client_id plan
         then fail_tree tfail rid client ''only the tree root may publish the final key''
         else
           call (rescue any_exception (\<lambda>e. fail_tree tfail rid client (exn_text (a_describe env) e))
             (on_files (put_stream (a_sha env) (store_root env) (max_artifact_bytes env) oid chunks failure)))
             (\<lambda>stored.
           call (rescue any_exception
               (\<lambda>e. call (delete_stored (stored_path stored)) (\<lambda>_.
                    fail_tree tfail rid client (exn_text (a_describe env) e)))
               (call (check_upload env row m ''final-key''
                  ''final key metadata differs from the authorized action'' metadata
                  (\<lambda>nonce digest. final_key_value row plan_hash (root_client_id plan) nonce digest
                     (stored_size stored)) sig stored) (\<lambda>(digest, request_digest).
                on_db (record_final_key (t 3) rid client stored digest (nonce_text env metadata) sig
                  idem_key request_digest)))) (\<lambda>(resp, replay).
           call (if replay then delete_stored (stored_path stored) else ret ()) (\<lambda>_.
           ret (Recorded resp replay))))
     | _ \<Rightarrow> fail_tree tfail rid client ''final key metadata is unavailable'')))"

definition handle_get_final_key :: "api_env \<Rightarrow> (nat \<Rightarrow> real) \<Rightarrow> string \<Rightarrow> member_row \<Rightarrow> (world, reply) tx" where
  "handle_get_final_key env t rid m =
     call (round_for_member t rid m) (\<lambda>row.
     call (look (\<lambda>w. Inr (final_key rid (wdb w)))) (\<lambda>final.
     case final of
       None \<Rightarrow> throw (api_error 409 ''ROUND_CONFLICT'' ''final key is not ready'' (Some rid))
     | Some (artifact, md) \<Rightarrow>
         call (check_stored env (t 3) rid (m_client m) artifact ''stored final key is unavailable''
           ''stored final key digest changed'') (\<lambda>_.
         ret (Encrypted_File (a_path artifact)
           (b64encode (encode (canonical_json (JObj (final_key_value row (final_plan_hash md) (final_sender md)
              (final_nonce md) (final_digest md) (final_size md))))))
           (final_signature md) (a_digest artifact)))))"

definition handle_acknowledge_final_key :: "api_env \<Rightarrow> (nat \<Rightarrow> real) \<Rightarrow> string \<Rightarrow> string \<Rightarrow> member_row \<Rightarrow> string
    \<Rightarrow> (world, reply) tx" where
  "handle_acknowledge_final_key env t rid artifact_digest m idem_key =
     call (round_for_member t rid m) (\<lambda>_.
     rescue value_error (\<lambda>e. fail_tree (t 5) rid (m_client m) (exn_text (a_describe env) e))
       (call (on_db (acknowledge_final_key (t 3) (t 4) rid (m_client m) artifact_digest idem_key
          (json_digest env (JObj [(''artifact_digest'', JStr artifact_digest)])))) (\<lambda>resp.
        ret (Answered resp))))"

section \<open>Updates, results and the end of a round\<close>

text \<open>The \<open>except\<close> clauses of \<open>put_update\<close>; a stored file is deleted in both.\<close>

definition handle_put_update :: "api_env \<Rightarrow> (nat \<Rightarrow> real) \<Rightarrow> string \<Rightarrow> string \<Rightarrow> string \<Rightarrow> string option \<Rightarrow> string option
    \<Rightarrow> bytes list \<Rightarrow> exn option \<Rightarrow> member_row \<Rightarrow> string \<Rightarrow> (world, reply) tx" where
  "handle_put_update env t oid job_id rid tag_header schema_hash chunks failure m idem_key =
     call (round_for_member t rid m) (\<lambda>row.
     if schema_hash \<noteq> Some (model_schema_hash row) then
       throw (api_error 422 ''SCHEMA_MISMATCH'' ''update schema hash does not match the round'' (Some rid))
     else (case tag_header of
       None \<Rightarrow> throw (api_error 422 ''ARTIFACT_INVALID'' ''integrity tag is malformed'' (Some rid))
     | Some tag \<Rightarrow>
         if \<not> tag_acceptable tag then
           throw (api_error 422 ''ARTIFACT_INVALID'' ''integrity tag is malformed'' (Some rid))
         else
           call (rescue value_error (translate env (Some rid))
             (on_files (put_stream (a_sha env) (store_root env) (max_artifact_bytes env) oid chunks failure)))
             (\<lambda>stored.
           call (rescue any_exception
               (\<lambda>e. call (delete_stored (stored_path stored)) (\<lambda>_.
                    if value_error e then translate env (Some rid) e else throw e))
               (call (look (\<lambda>w. validate_safetensors env (stored_path stored) (model_schema_json row) (wfiles w))) (\<lambda>_.
                on_db (record_update (t 3) (t 4) job_id rid (m_client m) stored tag idem_key
                  (hexdigest (a_sha env) (encode (stored_digest stored @ tag)))))))
               (\<lambda>(resp, replay).
           call (if replay then delete_stored (stored_path stored) else ret ()) (\<lambda>_.
           ret (Recorded resp replay))))))"

definition handle_get_result :: "(nat \<Rightarrow> real) \<Rightarrow> string \<Rightarrow> member_row \<Rightarrow> (world, reply) tx" where
  "handle_get_result t rid m =
     call (round_for_member t rid m) (\<lambda>row.
     if status row \<notin> {RESULT_READY, COMPLETED} then
       throw (api_error 409 ''ROUND_CONFLICT'' ''result is not ready'' (Some rid))
     else
       call (look (\<lambda>w. Inr (result rid (wdb w)))) (\<lambda>res.
       case res of
         None \<Rightarrow> throw (api_error 503 ''RESULT_NOT_READY'' ''result metadata is not committed'' (Some rid))
       | Some (artifact, tag) \<Rightarrow> ret (Result_File (a_path artifact) tag (a_digest artifact))))"

definition handle_complete :: "api_env \<Rightarrow> (nat \<Rightarrow> real) \<Rightarrow> string \<Rightarrow> member_row \<Rightarrow> string \<Rightarrow> (world, reply) tx" where
  "handle_complete env t rid m idem_key =
     call (round_for_member t rid m) (\<lambda>_.
     rescue value_error (translate env (Some rid))
       (call (on_db (complete_participant (t 3) (t 4) rid (m_client m) idem_key
          (hexdigest (a_sha env) (encode ''{}'')))) (\<lambda>resp.
        ret (Answered resp))))"

definition handle_abort :: "api_env \<Rightarrow> (nat \<Rightarrow> real) \<Rightarrow> string \<Rightarrow> string \<Rightarrow> string \<Rightarrow> (world, reply) tx" where
  "handle_abort env t rid reason idem_key =
     call (rescue value_error (translate env (Some rid))
       (on_db (abort (t 0) (t 1) rid ''operator'' reason idem_key
         (json_digest env (JObj [(''reason'', JStr reason)])))))
       (\<lambda>(resp, replay). ret (Recorded resp replay))"

section \<open>Requests\<close>

datatype endpoint =
    Post_Round string create_round_request
  | Get_Round_State string
  | Get_Me string
  | Put_Public_Key string public_key_artifact
  | Get_Public_Keys string
  | Put_Key_Bundle string key_bundle_artifact
  | Get_Key_Bundles string
  | Post_Key_Complete string string
  | Get_Tree_Plan string
  | Get_Next_Action string
  | Put_Task_Artifact string string "string option" "string option" "bytes list" "exn option"
  | Get_Task_Artifact string string
  | Post_Task_Ack string string string
  | Put_Final_Key string "string option" "string option" "bytes list" "exn option"
  | Get_Final_Key string
  | Post_Final_Ack string string
  | Put_Update string "string option" "string option" "bytes list" "exn option"
  | Get_Result string
  | Post_Complete string
  | Post_Abort string string

record api_request =
  authorization :: "string option"
  idempotency_header :: "string option"
  endpoint_of :: endpoint
  request_clock :: "nat \<Rightarrow> real"
  fresh_round :: string
  fresh_object :: string
  fresh_job :: string

text \<open>The framework's validation of a body by its model; a rejected one is answered with status 422.\<close>

definition with_body :: "bool \<Rightarrow> (world, reply) tx \<Rightarrow> (world, reply) tx" where
  "with_body valid m = (if valid then m else throw (HTTPException 422 '''' '''' None))"

definition as_member :: "api_env \<Rightarrow> api_request \<Rightarrow> (member_row \<Rightarrow> (world, reply) tx) \<Rightarrow> (world, reply) tx" where
  "as_member env req k = call (look (\<lambda>w. participant_identity env (authorization req) (wdb w))) k"

definition as_operator :: "api_env \<Rightarrow> api_request \<Rightarrow> (world, reply) tx \<Rightarrow> (world, reply) tx" where
  "as_operator env req m = call (look (\<lambda>_. operator_identity env (authorization req))) (\<lambda>_. m)"

definition with_key :: "api_request \<Rightarrow> (string \<Rightarrow> (world, reply) tx) \<Rightarrow> (world, reply) tx" where
  "with_key req k = call (look (\<lambda>_. idem (idempotency_header req))) k"

definition serve :: "api_env \<Rightarrow> api_request \<Rightarrow> (world, reply) tx" where
  "serve env req =
     (let t = request_clock req; oid = fresh_object req in
      case endpoint_of req of
        Post_Round federation body \<Rightarrow> as_operator env req (with_key req (\<lambda>k. with_body (valid_create_request body)
          (handle_create_round env t (fresh_round req) federation body k)))
      | Get_Round_State rid \<Rightarrow> as_member env req (handle_get_round t rid)
      | Get_Me rid \<Rightarrow> as_member env req (handle_get_me t rid)
      | Put_Public_Key rid body \<Rightarrow> as_member env req (\<lambda>m. with_key req (\<lambda>k. with_body (valid_public_key body)
          (handle_put_public_key env t rid body m k)))
      | Get_Public_Keys rid \<Rightarrow> as_member env req (handle_get_public_keys env t rid)
      | Put_Key_Bundle rid body \<Rightarrow> as_member env req (\<lambda>m. with_key req (\<lambda>k. with_body (valid_key_bundle body)
          (handle_put_key_bundle env t rid body m k)))
      | Get_Key_Bundles rid \<Rightarrow> as_member env req (handle_get_key_bundles env t rid)
      | Post_Key_Complete rid commitment \<Rightarrow> as_member env req (\<lambda>m. with_key req (\<lambda>k.
          with_body (valid_key_complete commitment) (handle_key_setup_complete env t rid commitment m k)))
      | Get_Tree_Plan rid \<Rightarrow> as_member env req (handle_get_tree_plan t rid)
      | Get_Next_Action rid \<Rightarrow> as_member env req (handle_get_next_key_action env t rid)
      | Put_Task_Artifact rid tid md sig chunks failure \<Rightarrow> as_member env req (\<lambda>m. with_key req
          (handle_put_key_task_artifact env t oid rid tid md sig chunks failure m))
      | Get_Task_Artifact rid tid \<Rightarrow> as_member env req (handle_get_key_task_artifact env t rid tid)
      | Post_Task_Ack rid tid dg \<Rightarrow> as_member env req (\<lambda>m. with_key req (\<lambda>k. with_body (valid_receipt dg)
          (handle_acknowledge_key_task env t rid tid dg m k)))
      | Put_Final_Key rid md sig chunks failure \<Rightarrow> as_member env req (\<lambda>m. with_key req
          (handle_put_final_key env t oid rid md sig chunks failure m))
      | Get_Final_Key rid \<Rightarrow> as_member env req (handle_get_final_key env t rid)
      | Post_Final_Ack rid dg \<Rightarrow> as_member env req (\<lambda>m. with_key req (\<lambda>k. with_body (valid_receipt dg)
          (handle_acknowledge_final_key env t rid dg m k)))
      | Put_Update rid tag hash chunks failure \<Rightarrow> as_member env req (\<lambda>m. with_key req
          (handle_put_update env t oid (fresh_job req) rid tag hash chunks failure m))
      | Get_Result rid \<Rightarrow> as_member env req (handle_get_result t rid)
      | Post_Complete rid \<Rightarrow> as_member env req (\<lambda>m. with_key req (handle_complete env t rid m))
      | Post_Abort rid reason \<Rightarrow> as_operator env req (with_key req (\<lambda>k. with_body (valid_abort reason)
          (handle_abort env t rid reason k))))"

end
