(* ===== verification/Calm.thy ===== *)
theory Calm
  imports Api Quiet
begin

text \<open>
  What the handlers do to the two stores: a calm step leaves the files and the artifacts alone and takes the
  database from one reachable state to another. Every database call that stores nothing is a calm step, and
  \<open>effect_contract\<close> carries it through the handlers.
\<close>

definition calm :: "(bytes \<Rightarrow> bytes) \<Rightarrow> world \<Rightarrow> world \<Rightarrow> bool" where
  "calm sha w w' \<longleftrightarrow> wfiles w' = wfiles w \<and> (reachable sha (wdb w) \<longrightarrow>
     reachable sha (wdb w') \<and> quiet (wdb w) (wdb w') \<and> rounds_progress (wdb w) (wdb w'))"

interpretation calm: effect_contract "calm sha" for sha
  by unfold_locales (auto simp: calm_def intro: hush.refl progress.refl hush.trans progress.trans)

lemma calmD:
  assumes "calm sha w w'"
  shows "wfiles w' = wfiles w" "reachable sha (wdb w) \<Longrightarrow> reachable sha (wdb w')"
    "reachable sha (wdb w) \<Longrightarrow> quiet (wdb w) (wdb w')"
    "reachable sha (wdb w) \<Longrightarrow> rounds_progress (wdb w) (wdb w')"
  using assms by (auto simp: calm_def)

section \<open>Database calls\<close>

lemma calm_perform:
  assumes "outcome m = perform sha c" "\<not> stores c" "reachable sha (wdb w) \<Longrightarrow> admitted c (wdb w)"
    "on_db m w = (v, w')"
  shows "calm sha w w'"
proof -
  from assms(4) obtain s where s: "m (wdb w) = (v, s)" "w' = w\<lparr>wdb := s\<rparr>" by (auto simp: on_db_eq)
  have run: "perform sha c (wdb w) = (map_sum id (\<lambda>_. ()) v, s)"
    using s(1) assms(1) outcome_eq [of m "wdb w"] by metis
  have "\<not> is_purge c" using assms(2) by (cases c) auto
  then show ?thesis
    using s(2) guaranteesD [OF perform_quiet [OF assms(2)] run] guaranteesD [OF perform_progress run]
      reachable.step [OF _ assms(3) run]
    by (auto simp: calm_def)
qed

lemma calm_call:
  assumes "outcome m = perform sha c" "\<not> stores c" "\<And>s. admitted c s"
  shows "guarantees (calm sha) (on_db m)"
  unfolding guarantees_def
proof
  fix w
  show "calm sha w (snd (on_db m w))"
    by (cases "on_db m w") (use calm_perform [OF assms(1,2) assms(3)] in simp)
qed

lemma calm_calls:
  "guarantees (calm sha) (on_db (create_round now rid fed ver sch sh cl mh ttl rt actor k dg))"
  "guarantees (calm sha) (on_db (record_json_slot now tnow rid client body k dg))"
  "guarantees (calm sha) (on_db (key_complete sha now tnow rid client commitment k dg))"
  "guarantees (calm sha) (on_db (acknowledge_task now rid client tid ad k dg))"
  "guarantees (calm sha) (on_db (claim_job now etnow token lease))"
  "guarantees (calm sha) (on_db (renew_job now jid token lease))"
  "guarantees (calm sha) (on_db (fail_job tnow jid rid token detail retryable))"
  "guarantees (calm sha) (on_db (complete_participant now tnow rid client k dg))"
  "guarantees (calm sha) (on_db (abort tnow now rid actor reason k dg))"
  "guarantees (calm sha) (on_db (fail_round tnow rid actor code detail))"
  "guarantees (calm sha) (on_db (get_round expire now now' tnow rid))"
  "guarantees (calm sha) (on_db (expire_rounds clock nw etnow))"
  by (rule calm_call [OF perform.simps(1) [symmetric]] calm_call [OF perform.simps(2) [symmetric]]
      calm_call [OF perform.simps(3) [symmetric]] calm_call [OF perform.simps(5) [symmetric]]
      calm_call [OF perform.simps(9) [symmetric]] calm_call [OF perform.simps(10) [symmetric]]
      calm_call [OF perform.simps(12) [symmetric]] calm_call [OF perform.simps(13) [symmetric]]
      calm_call [OF perform.simps(14) [symmetric]] calm_call [OF perform.simps(15) [symmetric]]
      calm_call [OF perform.simps(16) [symmetric]] calm_call [OF perform.simps(17) [symmetric]]; simp)+

lemma calm_look: "guarantees (calm sha) (look q)"
  by (rule guarantees_look) (rule calm.refl)

text \<open>A case of an answer, as the handlers write them.\<close>

lemma calm_pair: "(\<And>x y. guarantees (calm sha) (k x y)) \<Longrightarrow> guarantees (calm sha) (case v of (x, y) \<Rightarrow> k x y)"
  by (rule calm.g_prod)

lemmas calm_rules = calm.flow calm.g_rescue calm_look calm_calls

lemma calm_translate: "guarantees (calm sha) (translate env rid e)"
  unfolding translate_def Let_def by (intro calm_rules)

lemma calm_fail_tree: "guarantees (calm sha) (fail_tree tnow rid client message)"
  unfolding fail_tree_def by (intro calm_rules)

lemma calm_round_for_member: "guarantees (calm sha) (round_for_member t rid m)"
  unfolding round_for_member_def by (intro calm_rules)

lemmas handler_rules = calm_rules calm_translate calm_fail_tree calm_round_for_member

section \<open>The handlers that store nothing\<close>

lemma calm_check_stored: "guarantees (calm sha) (check_stored env tfail rid client a missing changed)"
  unfolding check_stored_def by (intro handler_rules)

lemma calm_handlers:
  "guarantees (calm sha) (handle_create_round env t new_id federation body k)"
  "guarantees (calm sha) (handle_get_round t rid m)"
  "guarantees (calm sha) (handle_get_me t rid m)"
  "guarantees (calm sha) (handle_put_public_key env t rid key m k)"
  "guarantees (calm sha) (handle_get_public_keys env t rid m)"
  "guarantees (calm sha) (handle_put_key_bundle env t rid bundle m k)"
  "guarantees (calm sha) (handle_get_key_bundles env t rid m)"
  "guarantees (calm (a_sha env)) (handle_key_setup_complete env t rid commitment m k)"
  "guarantees (calm sha) (handle_get_tree_plan t rid m)"
  "guarantees (calm sha) (handle_get_next_key_action env t rid m)"
  "guarantees (calm sha) (handle_get_key_task_artifact env t rid tid m)"
  "guarantees (calm sha) (handle_acknowledge_key_task env t rid tid dg m k)"
  "guarantees (calm sha) (handle_get_final_key env t rid m)"
  "guarantees (calm sha) (handle_get_result t rid m)"
  "guarantees (calm sha) (handle_complete env t rid m k)"
  "guarantees (calm sha) (handle_abort env t rid reason k)"
  unfolding handle_create_round_def handle_get_round_def handle_get_me_def handle_put_public_key_def
    handle_get_public_keys_def handle_put_key_bundle_def handle_get_key_bundles_def handle_key_setup_complete_def
    handle_get_tree_plan_def handle_get_next_key_action_def handle_get_key_task_artifact_def
    handle_acknowledge_key_task_def handle_get_final_key_def handle_get_result_def handle_complete_def handle_abort_def
    Let_def
  by (intro handler_rules calm_check_stored)+

section \<open>Members of a round\<close>

lemma get_round_Some: "get_round e now now' tnow rid s = (Inr (Some r), s') \<Longrightarrow> round_of rid s' = Some r"
  by (auto simp: get_round_def reconcile_def transaction_Inr tx_simps Let_def call_Inr split: option.splits if_splits)

text \<open>What \<open>_round_for_member\<close> has checked when it returns.\<close>

lemma round_for_member_Inr:
  assumes "round_for_member t rid m w = (Inr r, w')"
  shows "round_of rid (wdb w') = Some r" "federation_id r = m_federation m"
    "participant_of rid (m_client m) (wdb w') \<noteq> None" "calm sha w w'"
proof -
  from assms obtain s where s: "get_round True (t 0) (t 1) (t 2) rid (wdb w) = (Inr (Some r), s)"
    "w' = w\<lparr>wdb := s\<rparr>" "federation_id r = m_federation m" "participant_of rid (m_client m) s \<noteq> None"
    by (auto simp: round_for_member_def call_Inr on_db_eq participant_def split: option.splits if_splits)
  with get_round_Some [OF s(1)] show "round_of rid (wdb w') = Some r" "federation_id r = m_federation m"
    "participant_of rid (m_client m) (wdb w') \<noteq> None" by simp_all
  show "calm sha w w'" using calm_round_for_member assms by (rule guaranteesD)
qed

lemma reachable_participant:
  assumes "reachable sha s" "round_of rid s = Some r" "participant_of rid client s \<noteq> None"
  shows "client \<in> set (participants_json r)"
proof -
  from assms(3) obtain p where p: "p \<in> set (participants s)" "p_round p = rid" "p_client p = client"
    by (auto dest: participant_of_in participant_of_keys)
  have "barriers s r"
    using invariantD(3) [OF reachable_invariant [OF assms(1)]] round_of_in [OF assms(2)]
    by (simp add: barriers_ok_def)
  then have "map p_client (participants_of (round_id r) s) = participants_json r" by (rule barriersD)
  moreover have "p \<in> set (participants_of (round_id r) s)"
    using p round_of_id [OF assms(2)] by (simp add: participants_of_def)
  ultimately show ?thesis using p(3) by (metis image_eqI list.set_map)
qed

text \<open>So the acknowledgement of the final key is an admitted call.\<close>

lemma calm_acknowledge_final_key:
  "guarantees (calm sha) (handle_acknowledge_final_key env t rid dg m k)"
  unfolding guarantees_def
proof
  fix w
  let ?ack = "\<lambda>d. acknowledge_final_key (t 3) (t 4) rid (m_client m) dg k d"
  show "calm sha w (snd (handle_acknowledge_final_key env t rid dg m k w))"
    unfolding handle_acknowledge_final_key_def
  proof (rule calm.g_call_from)
    show "calm sha w (snd (round_for_member t rid m w))"
      using calm_round_for_member by (simp add: guarantees_def)
    fix r w1 assume "round_for_member t rid m w = (Inr r, w1)"
    note found = round_for_member_Inr [OF this]
    have "calm sha w1 (snd (on_db (?ack d) w1))" for d
    proof (cases "on_db (?ack d) w1")
      case (Pair v w2)
      have "calm sha w1 w2"
        by (rule calm_perform [OF perform.simps(7) [symmetric] _ _ Pair])
          (use found(1,3) reachable_participant in auto)
      with Pair show ?thesis by simp
    qed
    then show "calm sha w1 (snd (rescue value_error
        (\<lambda>e. fail_tree (t 5) rid (m_client m) (exn_text (a_describe env) e))
        (call (on_db (?ack (json_digest env (JObj [(''artifact_digest'', JStr dg)])))) (\<lambda>resp. ret (Answered resp))) w1))"
      by (intro calm.g_rescue_from calm.g_call_from calm_fail_tree) (simp_all add: calm.refl)
  qed
qed

end
