(* ===== verification/Stored_World.thy ===== *)
theory Stored_World
  imports Calm
begin

text \<open>
  The files of the server and the rows that name them. In a sound world the files are exactly those of the
  artifact rows, with their digests and sizes, and the updates of every round passed the checks of the upload.
  A request keeps a world sound: it either stores nothing, or it adds one file together with its row.
\<close>

section \<open>Sound worlds\<close>

definition tracked :: "(bytes \<Rightarrow> bytes) \<Rightarrow> world \<Rightarrow> bool" where
  "tracked sha w \<longleftrightarrow> dom (wfiles w) = a_path ` set (artifacts (wdb w)) \<and>
     (\<forall>a\<in>set (artifacts (wdb w)). \<forall>c. wfiles w (a_path a) = Some c \<longrightarrow> hexdigest sha c = a_digest a \<and> length c = a_size a)"

definition vetted :: "api_env \<Rightarrow> world \<Rightarrow> bool" where
  "vetted env w \<longleftrightarrow>
     (\<forall>a\<in>set (artifacts (wdb w)). a_type a = ''update'' \<longrightarrow> (\<exists>r. round_of (a_round a) (wdb w) = Some r \<and>
        validate_safetensors env (a_path a) (model_schema_json r) (wfiles w) = Inr ())) \<and>
     (\<forall>p\<in>set (participants (wdb w)). \<forall>tag. p_integrity_tag p = Some tag \<longrightarrow> tag_acceptable tag)"

definition sound :: "api_env \<Rightarrow> world \<Rightarrow> bool" where
  "sound env w \<longleftrightarrow> reachable (a_sha env) (wdb w) \<and> tracked (a_sha env) w \<and> vetted env w"

lemma validate_file: "fs path = fs' path' \<Longrightarrow> validate_safetensors env path schema fs = validate_safetensors env path' schema fs'"
  by (simp add: validate_safetensors_def)

lemma progress_schema:
  assumes "rounds_progress s s'" "round_of rid s = Some r"
  shows "\<exists>r'. round_of rid s' = Some r' \<and> model_schema_json r' = model_schema_json r"
proof -
  from assms obtain r' where "round_of rid s' = Some r'" "round_step\<^sup>*\<^sup>* r r'"
    unfolding rounds_progress_def by blast
  with round_steps_frozen show ?thesis by (fastforce simp: frozen_def)
qed

lemma sound_calm:
  assumes "sound env w" "calm (a_sha env) w w'"
  shows "sound env w'"
proof -
  note c = calmD [OF assms(2)]
  have reach: "reachable (a_sha env) (wdb w)" using assms(1) by (simp add: sound_def)
  have q: "artifacts (wdb w') = artifacts (wdb w)"
    "\<forall>p\<in>set (participants (wdb w')). p_integrity_tag p = None \<or> p_integrity_tag p \<in> p_integrity_tag ` set (participants (wdb w))"
    using c(3) [OF reach] by (simp_all add: quiet_def)
  have "vetted env w'"
    unfolding vetted_def
  proof (intro conjI ballI allI impI)
    fix a assume "a \<in> set (artifacts (wdb w'))" "a_type a = ''update''"
    with assms(1) q(1) obtain r where r: "round_of (a_round a) (wdb w) = Some r"
      "validate_safetensors env (a_path a) (model_schema_json r) (wfiles w) = Inr ()"
      by (auto simp: sound_def vetted_def)
    with progress_schema [OF c(4) [OF reach] r(1)] c(1)
    show "\<exists>r. round_of (a_round a) (wdb w') = Some r \<and>
        validate_safetensors env (a_path a) (model_schema_json r) (wfiles w') = Inr ()" by auto
  next
    fix p tag assume "p \<in> set (participants (wdb w'))" "p_integrity_tag p = Some tag"
    with q(2) obtain p' where "p' \<in> set (participants (wdb w))" "p_integrity_tag p' = Some tag" by fastforce
    with assms(1) show "tag_acceptable tag" by (auto simp: sound_def vetted_def)
  qed
  with assms(1) c(1) c(2) [OF reach] q(1) show ?thesis by (simp add: sound_def tracked_def)
qed

section \<open>Deposits\<close>

text \<open>The row \<open>a\<close> is new; an update row comes with checked tensors, and a tag with an acceptable text.\<close>

definition row_added :: "api_env \<Rightarrow> artifact_row \<Rightarrow> world \<Rightarrow> world \<Rightarrow> bool" where
  "row_added env a w w' \<longleftrightarrow>
     reachable (a_sha env) (wdb w') \<and> rounds_progress (wdb w) (wdb w') \<and>
     artifacts (wdb w') = artifacts (wdb w) @ [a] \<and>
     (\<forall>p\<in>set (participants (wdb w')). p_integrity_tag p = None \<or>
        p_integrity_tag p \<in> p_integrity_tag ` set (participants (wdb w)) \<or> tag_acceptable (the (p_integrity_tag p))) \<and>
     (a_type a = ''update'' \<longrightarrow> (\<exists>r. round_of (a_round a) (wdb w') = Some r \<and>
        validate_safetensors env (a_path a) (model_schema_json r) (wfiles w') = Inr ()))"

lemma row_addedD:
  assumes "row_added env a w w'"
  shows "reachable (a_sha env) (wdb w')" "rounds_progress (wdb w) (wdb w')"
    "artifacts (wdb w') = artifacts (wdb w) @ [a]"
    "\<And>p. p \<in> set (participants (wdb w')) \<Longrightarrow> p_integrity_tag p = None \<or>
        p_integrity_tag p \<in> p_integrity_tag ` set (participants (wdb w)) \<or> tag_acceptable (the (p_integrity_tag p))"
    "a_type a = ''update'' \<Longrightarrow> \<exists>r. round_of (a_round a) (wdb w') = Some r \<and>
        validate_safetensors env (a_path a) (model_schema_json r) (wfiles w') = Inr ()"
  using assms by (auto simp: row_added_def)

text \<open>The file \<open>path\<close> is new, and so is its row.\<close>

definition deposit :: "api_env \<Rightarrow> string \<Rightarrow> world \<Rightarrow> world \<Rightarrow> bool" where
  "deposit env path w w' \<longleftrightarrow> (\<exists>c a. wfiles w' = (wfiles w)(path \<mapsto> c) \<and>
     a_path a = path \<and> a_digest a = hexdigest (a_sha env) c \<and> a_size a = length c \<and>
     (reachable (a_sha env) (wdb w) \<longrightarrow> row_added env a w w'))"

lemma sound_deposit:
  assumes "sound env w" "wfiles w path = None" "deposit env path w w'"
  shows "sound env w'"
proof -
  from assms(1,3) obtain c a where files: "wfiles w' = (wfiles w)(path \<mapsto> c)" "a_path a = path"
      "a_digest a = hexdigest (a_sha env) c" "a_size a = length c" and added: "row_added env a w w'"
    unfolding deposit_def sound_def by blast
  note db = row_addedD [OF added]
  have others: "a_path b \<noteq> path" if "b \<in> set (artifacts (wdb w))" for b
  proof
    assume "a_path b = path"
    with that have "path \<in> dom (wfiles w)" using assms(1) by (auto simp: sound_def tracked_def)
    with assms(2) show False by blast
  qed
  have "tracked (a_sha env) w'"
    using assms(1) files db(3) others by (auto simp: sound_def tracked_def)
  moreover have "vetted env w'"
    unfolding vetted_def
  proof (intro conjI ballI allI impI)
    fix b assume b: "b \<in> set (artifacts (wdb w'))" "a_type b = ''update''"
    show "\<exists>r. round_of (a_round b) (wdb w') = Some r \<and>
        validate_safetensors env (a_path b) (model_schema_json r) (wfiles w') = Inr ()"
    proof (cases "b \<in> set (artifacts (wdb w))")
      case True
      with assms(1) b(2) obtain r where r: "round_of (a_round b) (wdb w) = Some r"
        "validate_safetensors env (a_path b) (model_schema_json r) (wfiles w) = Inr ()"
        by (auto simp: sound_def vetted_def)
      moreover have "wfiles w' (a_path b) = wfiles w (a_path b)" using others [OF True] files(1) by simp
      ultimately show ?thesis
        using progress_schema [OF db(2) r(1)] validate_file [of "wfiles w'" "a_path b" "wfiles w" "a_path b"] by metis
    next
      case False
      with b db(3,5) show ?thesis by auto
    qed
  next
    fix p tag assume p: "p \<in> set (participants (wdb w'))" "p_integrity_tag p = Some tag"
    have "Some tag \<in> p_integrity_tag ` set (participants (wdb w)) \<or> tag_acceptable tag"
      using db(4) [OF p(1)] p(2) by simp
    with assms(1) show "tag_acceptable tag" by (auto simp: sound_def vetted_def)
  qed
  ultimately show ?thesis using db(1) by (simp add: sound_def)
qed

lemma calm_row_added:
  assumes "calm (a_sha env) w w1" "reachable (a_sha env) (wdb w)" "row_added env a w1 w2"
  shows "row_added env a w w2"
proof -
  note db = row_addedD [OF assms(3)] and c = calmD [OF assms(1)]
  have q: "artifacts (wdb w1) = artifacts (wdb w)"
    "p_integrity_tag ` set (participants (wdb w1)) \<subseteq> insert None (p_integrity_tag ` set (participants (wdb w)))"
    using c(3) [OF assms(2)] by (auto simp: quiet_def)
  have "rounds_progress (wdb w) (wdb w2)" using db(2) c(4) [OF assms(2)] progress.trans by blast
  moreover have "p_integrity_tag p = None \<or> p_integrity_tag p \<in> p_integrity_tag ` set (participants (wdb w)) \<or>
      tag_acceptable (the (p_integrity_tag p))" if "p \<in> set (participants (wdb w2))" for p
    using db(4) [OF that] q(2) by auto
  ultimately show ?thesis using db(1,3,5) q(1) by (auto simp: row_added_def)
qed

lemma calm_deposit:
  assumes "calm (a_sha env) w w1" "deposit env path w1 w2"
  shows "deposit env path w w2"
proof -
  from assms(2) obtain c a where d: "wfiles w2 = (wfiles w1)(path \<mapsto> c)" "a_path a = path"
    "a_digest a = hexdigest (a_sha env) c" "a_size a = length c"
    "reachable (a_sha env) (wdb w1) \<longrightarrow> row_added env a w1 w2"
    unfolding deposit_def by blast
  with calm_row_added [OF assms(1)] calmD(2) [OF assms(1)]
  have "reachable (a_sha env) (wdb w) \<longrightarrow> row_added env a w w2" by blast
  with d(1-4) calmD(1) [OF assms(1)] show ?thesis unfolding deposit_def by metis
qed

end
