(* ===== verification/Uploads.thy ===== *)
theory Uploads
  imports Stored_World
begin

text \<open>
  The three handlers that store a file. They share a frame: the body is streamed into a fresh file, checked and
  recorded, and the file is deleted again when that raises or turns out to be a replay. So an upload either
  deposits one file with its row or is a calm step.
\<close>

definition fresh :: "string \<Rightarrow> string \<Rightarrow> files \<Rightarrow> bool" where
  "fresh dir oid fs \<longleftrightarrow> fs (temporary_path dir oid) = None \<and> fs (final_path dir oid) = None"

text \<open>The effect of a request, told by its answer.\<close>

definition served :: "api_env \<Rightarrow> string \<Rightarrow> world \<Rightarrow> exn + reply \<Rightarrow> world \<Rightarrow> bool" where
  "served env oid w res w' \<longleftrightarrow> calm (a_sha env) w w' \<or>
     (\<exists>resp. res = Inr (Recorded resp False)) \<and> deposit env (final_path (store_root env) oid) w w'"

lemma served_calm: "calm (a_sha env) w w' \<Longrightarrow> served env oid w res w'"
  by (simp add: served_def)

lemma calm_served: "calm (a_sha env) w w1 \<Longrightarrow> served env oid w1 res w2 \<Longrightarrow> served env oid w res w2"
  using calm.trans calm_deposit unfolding served_def by blast

section \<open>The frame\<close>

text \<open>What is known of a stored object when the upload is checked.\<close>

definition received :: "api_env \<Rightarrow> string \<Rightarrow> world \<Rightarrow> stored_object \<Rightarrow> world \<Rightarrow> bool" where
  "received env oid w stored w1 \<longleftrightarrow> (\<exists>c. w1 = w\<lparr>wfiles := (wfiles w)(final_path (store_root env) oid \<mapsto> c)\<rparr> \<and>
     stored_path stored = final_path (store_root env) oid \<and>
     stored_digest stored = hexdigest (a_sha env) c \<and> stored_size stored = length c)"

lemma put_stream_received:
  assumes "fresh (store_root env) oid (wfiles w)"
    and "on_files (put_stream (a_sha env) (store_root env) (max_artifact_bytes env) oid chunks failure) w = (v, w1)"
  shows "case v of Inl e \<Rightarrow> w1 = w | Inr stored \<Rightarrow> received env oid w stored w1"
proof -
  from assms(2) obtain fs where fs:
    "put_stream (a_sha env) (store_root env) (max_artifact_bytes env) oid chunks failure (wfiles w) = (v, fs)"
    "w1 = w\<lparr>wfiles := fs\<rparr>" by (auto simp: on_files_eq)
  from assms(1) have tmp: "wfiles w (temporary_path (store_root env) oid) = None" by (simp add: fresh_def)
  show ?thesis
  proof (cases v)
    case (Inl e)
    with fs put_stream_error [of "wfiles w", OF tmp] show ?thesis by simp
  next
    case (Inr stored)
    note ok = put_stream_ok [of "wfiles w", OF tmp fs(1) [unfolded Inr]]
    have "fs = (wfiles w)(stored_path stored \<mapsto> concat chunks)"
      using ok(1,7) by (auto simp: fun_eq_iff)
    with Inr fs(2) ok show ?thesis by (auto simp: received_def)
  qed
qed

text \<open>What recording has to do, from the world before the upload.\<close>

definition after_recording :: "api_env \<Rightarrow> string \<Rightarrow> world \<Rightarrow> world \<Rightarrow> exn + response \<times> bool \<Rightarrow> world \<Rightarrow> bool" where
  "after_recording env path w w1 v w2 \<longleftrightarrow> (case v of
     Inr (resp, False) \<Rightarrow> deposit env path w w2
   | _ \<Rightarrow> calm (a_sha env) w1 w2)"

definition raises :: "('s, 'a) tx \<Rightarrow> bool" where
  "raises m \<longleftrightarrow> (\<forall>s. isl (fst (m s)))"

lemma raisesE:
  assumes "raises m"
  obtains e s' where "m s = (Inl e, s')"
  using assms by (cases "m s") (auto simp: raises_def isl_def dest: spec [of _ s])

lemma raises_rules: "raises (throw e)" "raises (translate env rid e)" "raises (fail_tree tnow q client message)"
  "raises m \<Longrightarrow> raises n \<Longrightarrow> raises (if b then m else n)"
  by (auto simp: raises_def translate_def fail_tree_def Let_def call_def split: prod.split sum.split)

lemma calm_removed:
  assumes "fresh (store_root env) oid (wfiles w)" "received env oid w stored w1" "calm (a_sha env) w1 w2"
  shows "calm (a_sha env) w (w2\<lparr>wfiles := (wfiles w2)(stored_path stored := None)\<rparr>)"
proof -
  from assms(2) obtain c where "w1 = w\<lparr>wfiles := (wfiles w)(final_path (store_root env) oid \<mapsto> c)\<rparr>"
    "stored_path stored = final_path (store_root env) oid"
    by (auto simp: received_def)
  with assms(1,3) show ?thesis by (simp add: calm_def fresh_def fun_upd_idem)
qed

lemma upload_frame:
  assumes fresh: "fresh (store_root env) oid (wfiles w)"
    and h: "\<And>e. guarantees (calm (a_sha env)) (h e)" "\<And>e. raises (h e)"
    and g: "\<And>e. guarantees (calm (a_sha env)) (g e)" "\<And>e. raises (g e)"
    and body: "\<And>stored w1 v w2. received env oid w stored w1 \<Longrightarrow> body stored w1 = (v, w2) \<Longrightarrow>
      after_recording env (final_path (store_root env) oid) w w1 v w2"
    and run: "call (rescue P h
        (on_files (put_stream (a_sha env) (store_root env) (max_artifact_bytes env) oid chunks failure))) (\<lambda>stored.
      call (rescue any_exception (\<lambda>e. call (delete_stored (stored_path stored)) (\<lambda>_. g e)) (body stored))
        (\<lambda>(resp, replay). call (if replay then delete_stored (stored_path stored) else ret ())
          (\<lambda>_. ret (Recorded resp replay)))) w = (res, w')"
  shows "served env oid w res w'"
proof -
  obtain v0 w0 where put: "on_files (put_stream (a_sha env) (store_root env) (max_artifact_bytes env) oid chunks failure) w
    = (v0, w0)" by fastforce
  note got = put_stream_received [OF fresh put]
  show ?thesis
  proof (cases v0)
    case (Inl e)
    then have "w0 = w" using got by simp
    obtain e' w1 where raised: "h e w = (Inl e', w1)" using h(2) by (rule raisesE)
    have "w' = w \<or> w' = w1"
      using run put Inl \<open>w0 = w\<close> raised by (auto simp: call_def rescue_def split: if_splits)
    with guaranteesD [OF h(1) raised] show ?thesis by (auto intro: served_calm calm.refl)
  next
    case (Inr stored)
    then have at: "received env oid w stored w0" using got by simp
    obtain v w2 where b: "body stored w0 = (v, w2)" by fastforce
    let ?w = "w2\<lparr>wfiles := (wfiles w2)(stored_path stored := None)\<rparr>"
    note outcome = body [OF at b]
    show ?thesis
    proof (cases v)
      case (Inl e)
      obtain e' w3 where raised: "g e ?w = (Inl e', w3)" using g(2) by (rule raisesE)
      have "w' = w3"
        using run put Inr b Inl raised by (simp add: call_def rescue_def any_exception_def)
      moreover have "calm (a_sha env) w ?w"
        using calm_removed [OF fresh at] outcome Inl by (simp add: after_recording_def)
      ultimately show ?thesis using guaranteesD [OF g(1) raised] by (blast intro: served_calm calm.trans)
    next
      case answered: (Inr x)
      obtain resp replay where x: "x = (resp, replay)" by (cases x)
      show ?thesis
      proof (cases replay)
        case True
        have "w' = ?w"
          using run put Inr b answered x True by (simp add: call_def rescue_def)
        with calm_removed [OF fresh at] outcome answered x True show ?thesis
          by (simp add: after_recording_def served_calm)
      next
        case False
        have "w' = w2" "res = Inr (Recorded resp False)"
          using run put Inr b answered x False by (simp_all add: call_def rescue_def)
        with outcome answered x False show ?thesis by (simp add: after_recording_def served_def)
      qed
    qed
  qed
qed

section \<open>Recording\<close>

text \<open>A database call that stores: it raises and changes nothing, or replays quietly, or adds its row.\<close>

lemma storing_call:
  assumes "outcome m = perform (a_sha env) c" "\<not> is_purge c" "\<And>s. admitted c s"
    and at: "received env oid w stored w1"
    and run: "on_db m w1 = (v, w2)"
    and fails: "\<And>e s s'. m s = (Inl e, s') \<Longrightarrow> s' = s"
    and replays: "\<And>resp s'. reachable (a_sha env) (wdb w) \<Longrightarrow> m (wdb w) = (Inr (resp, True), s') \<Longrightarrow> quiet (wdb w) s'"
    and a: "a_path a = stored_path stored" "a_digest a = stored_digest stored" "a_size a = stored_size stored"
    and adds: "\<And>resp s'. reachable (a_sha env) (wdb w) \<Longrightarrow> m (wdb w) = (Inr (resp, False), s') \<Longrightarrow>
      rounds_progress (wdb w) s' \<Longrightarrow> artifacts s' = artifacts (wdb w) @ [a] \<and>
      (\<forall>p\<in>set (participants s'). p_integrity_tag p = None \<or>
        p_integrity_tag p \<in> p_integrity_tag ` set (participants (wdb w)) \<or> tag_acceptable (the (p_integrity_tag p))) \<and>
      (a_type a = ''update'' \<longrightarrow> (\<exists>r. round_of (a_round a) s' = Some r \<and>
        validate_safetensors env (a_path a) (model_schema_json r) (wfiles w1) = Inr ()))"
  shows "after_recording env (final_path (store_root env) oid) w w1 v w2"
proof -
  from at obtain f where w1: "w1 = w\<lparr>wfiles := (wfiles w)(final_path (store_root env) oid \<mapsto> f)\<rparr>"
    "stored_path stored = final_path (store_root env) oid"
    "stored_digest stored = hexdigest (a_sha env) f" "stored_size stored = length f" by (auto simp: received_def)
  from run w1(1) obtain s where s: "m (wdb w) = (v, s)" "w2 = w1\<lparr>wdb := s\<rparr>" by (auto simp: on_db_eq)
  have call: "perform (a_sha env) c (wdb w) = (map_sum id (\<lambda>_. ()) v, s)"
    using s(1) assms(1) outcome_eq [of m "wdb w"] by metis
  have safe: "reachable (a_sha env) s" "rounds_progress (wdb w) s" if "reachable (a_sha env) (wdb w)"
    using reachable.step [OF that assms(3) call] guaranteesD [OF perform_progress [OF assms(2)] call] by blast+
  show ?thesis
  proof (cases v)
    case (Inl e)
    with fails s w1(1) have "w2 = w1" by simp
    with Inl show ?thesis by (simp add: after_recording_def calm.refl)
  next
    case (Inr x)
    obtain resp replay where x: "x = (resp, replay)" by (cases x)
    show ?thesis
    proof (cases replay)
      case True
      with Inr x s replays safe w1(1) have "calm (a_sha env) w1 w2" by (auto simp: calm_def)
      with True Inr x show ?thesis by (simp add: after_recording_def)
    next
      case False
      have "row_added env a w w2" if reach: "reachable (a_sha env) (wdb w)"
        using safe [OF reach] adds [OF reach _ safe(2) [OF reach]] s Inr x False by (simp add: row_added_def)
      then have "deposit env (final_path (store_root env) oid) w w2"
        unfolding deposit_def using w1 a s(2) by (intro exI [of _ f] exI [of _ a]) simp
      with False Inr x show ?thesis by (simp add: after_recording_def)
    qed
  qed
qed

interpretation still: effect_contract "\<lambda>w w'. w' = w"
  by unfold_locales auto

lemma check_upload_still: "check_upload env row m purpose message metadata expected_for sig stored w = (v, w') \<Longrightarrow> w' = w"
proof -
  have "guarantees (\<lambda>w w'. w' = w) (check_upload env row m purpose message metadata expected_for sig stored)"
    unfolding check_upload_def Let_def by (intro still.flow guarantees_look) simp_all
  then show "check_upload env row m purpose message metadata expected_for sig stored w = (v, w') \<Longrightarrow> w' = w"
    by (rule guaranteesD)
qed

text \<open>A pure check before the recording.\<close>

lemma checked_recording:
  assumes "\<And>v w'. check w1 = (v, w') \<Longrightarrow> w' = w1"
    and "\<And>x v w2. k x w1 = (v, w2) \<Longrightarrow> after_recording env path w w1 v w2"
    and "call check k w1 = (v, w2)"
  shows "after_recording env path w w1 v w2"
proof -
  obtain u w' where u: "check w1 = (u, w')" by fastforce
  with assms(1) have "w' = w1" by blast
  with u assms(2,3) show ?thesis
    by (cases u) (auto simp: call_def after_recording_def calm.refl)
qed

lemma record_task_recorded:
  assumes "received env oid w stored w1"
    and "on_db (record_task_artifact now rid client tid stored cd nonce sig k dg) w1 = (v, w2)"
  shows "after_recording env (final_path (store_root env) oid) w w1 v w2"
proof (rule storing_call [OF perform.simps(4) [symmetric] _ _ assms method_errors(3),
    where a = "artifact_for stored rid (Some client) (''key_task:'' @ tid) now"])
  show "quiet (wdb w) s'" if "record_task_artifact now rid client tid stored cd nonce sig k dg (wdb w) = (Inr (resp, True), s')"
    for resp s'
    using that by (cases rule: record_task_artifact_ok) (simp_all add: hush.refl)
  show "artifacts s' = artifacts (wdb w) @ [artifact_for stored rid (Some client) (''key_task:'' @ tid) now] \<and>
      (\<forall>p\<in>set (participants s'). p_integrity_tag p = None \<or>
        p_integrity_tag p \<in> p_integrity_tag ` set (participants (wdb w)) \<or> tag_acceptable (the (p_integrity_tag p))) \<and>
      (a_type (artifact_for stored rid (Some client) (''key_task:'' @ tid) now) = ''update'' \<longrightarrow> (\<exists>r.
        round_of (a_round (artifact_for stored rid (Some client) (''key_task:'' @ tid) now)) s' = Some r \<and>
        validate_safetensors env (a_path (artifact_for stored rid (Some client) (''key_task:'' @ tid) now))
          (model_schema_json r) (wfiles w1) = Inr ()))"
    if "record_task_artifact now rid client tid stored cd nonce sig k dg (wdb w) = (Inr (resp, False), s')" for resp s'
    using that by (cases rule: record_task_artifact_ok) (auto simp: artifact_for_def)
qed (simp_all add: artifact_for_def)

lemma record_final_recorded:
  assumes "received env oid w stored w1"
    and "on_db (record_final_key now rid client stored cd nonce sig k dg) w1 = (v, w2)"
  shows "after_recording env (final_path (store_root env) oid) w w1 v w2"
proof (rule storing_call [OF perform.simps(6) [symmetric] _ _ assms method_errors(5),
    where a = "artifact_for stored rid (Some client) ''final_key'' now"])
  show "quiet (wdb w) s'" if "record_final_key now rid client stored cd nonce sig k dg (wdb w) = (Inr (resp, True), s')"
    for resp s'
    using that by (cases rule: record_final_key_ok) (simp_all add: hush.refl)
  show "artifacts s' = artifacts (wdb w) @ [artifact_for stored rid (Some client) ''final_key'' now] \<and>
      (\<forall>p\<in>set (participants s'). p_integrity_tag p = None \<or>
        p_integrity_tag p \<in> p_integrity_tag ` set (participants (wdb w)) \<or> tag_acceptable (the (p_integrity_tag p))) \<and>
      (a_type (artifact_for stored rid (Some client) ''final_key'' now) = ''update'' \<longrightarrow> (\<exists>r.
        round_of (a_round (artifact_for stored rid (Some client) ''final_key'' now)) s' = Some r \<and>
        validate_safetensors env (a_path (artifact_for stored rid (Some client) ''final_key'' now))
          (model_schema_json r) (wfiles w1) = Inr ()))"
    if "record_final_key now rid client stored cd nonce sig k dg (wdb w) = (Inr (resp, False), s')" for resp s'
    using that by (cases rule: record_final_key_ok) (auto simp: artifact_for_def)
qed (simp_all add: artifact_for_def)

lemma record_update_recorded:
  assumes "received env oid w stored w1" "tag_acceptable tag" "round_of rid (wdb w) = Some r"
    and "validate_safetensors env (stored_path stored) (model_schema_json r) (wfiles w1) = Inr ()"
    and "on_db (record_update now tnow jid rid client stored tag k dg) w1 = (v, w2)"
  shows "after_recording env (final_path (store_root env) oid) w w1 v w2"
proof (rule storing_call [OF perform.simps(8) [symmetric] _ _ assms(1,5) method_errors(7),
    where a = "artifact_for stored rid (Some client) ''update'' now"])
  let ?update = "record_update now tnow jid rid client stored tag k dg"
  show "quiet (wdb w) s'" if "reachable (a_sha env) (wdb w)" "?update (wdb w) = (Inr (resp, True), s')" for resp s'
    using invariantD(1) [OF reachable_invariant [OF that(1)]] that(2)
    by (cases rule: record_update_ok) (auto intro: quiet_same)
  show "artifacts s' = artifacts (wdb w) @ [artifact_for stored rid (Some client) ''update'' now] \<and>
      (\<forall>p\<in>set (participants s'). p_integrity_tag p = None \<or>
        p_integrity_tag p \<in> p_integrity_tag ` set (participants (wdb w)) \<or> tag_acceptable (the (p_integrity_tag p))) \<and>
      (a_type (artifact_for stored rid (Some client) ''update'' now) = ''update'' \<longrightarrow> (\<exists>r.
        round_of (a_round (artifact_for stored rid (Some client) ''update'' now)) s' = Some r \<and>
        validate_safetensors env (a_path (artifact_for stored rid (Some client) ''update'' now))
          (model_schema_json r) (wfiles w1) = Inr ()))"
    if run: "reachable (a_sha env) (wdb w)" "?update (wdb w) = (Inr (resp, False), s')" "rounds_progress (wdb w) s'"
    for resp s'
  proof -
    have keys: "keys_ok (wdb w)" using invariantD(1) [OF reachable_invariant [OF run(1)]] .
    from keys run(2) have "artifacts s' = artifacts (wdb w) @ [artifact_for stored rid (Some client) ''update'' now]"
      "participants s' = update_where (\<lambda>p. p_round p = rid \<and> p_client p = client) (submit_update now stored tag)
        (participants (wdb w))"
      by (cases rule: record_update_ok; simp)+
    moreover have "\<exists>r'. round_of rid s' = Some r' \<and> model_schema_json r' = model_schema_json r"
      by (rule progress_schema [OF run(3) assms(3)])
    ultimately show ?thesis
      using assms(2,4) by (auto simp: artifact_for_def set_update_where submit_update_def)
  qed
qed (simp_all add: artifact_for_def)

section \<open>The handlers\<close>

lemma served_guarantee: "guarantees (calm (a_sha env)) m \<Longrightarrow> m w = (res, w') \<Longrightarrow> served env oid w res w'"
  by (blast intro: served_calm dest: guaranteesD)

lemma served_call:
  assumes "guarantees (calm (a_sha env)) m" "fresh dir oid (wfiles w)"
    and "\<And>x t. m w = (Inr x, t) \<Longrightarrow> fresh dir oid (wfiles t) \<Longrightarrow> k x t = (res, w') \<Longrightarrow> served env oid t res w'"
    and "call m k w = (res, w')"
  shows "served env oid w res w'"
proof -
  obtain v t where t: "m w = (v, t)" by fastforce
  have c: "calm (a_sha env) w t" using guaranteesD [OF assms(1) t] .
  show ?thesis
  proof (cases v)
    case (Inl e)
    with t assms(4) have "w' = t" by (simp add: call_def)
    with c show ?thesis by (simp add: served_calm)
  next
    case (Inr x)
    with t assms(4) have "k x t = (res, w')" by (simp add: call_def)
    moreover have "fresh dir oid (wfiles t)" using assms(2) calmD(1) [OF c] by simp
    ultimately show ?thesis using c assms(3) t Inr by (blast intro: calm_served)
  qed
qed

text \<open>Every way to raise or to fail the round.\<close>

lemmas failing_rules = calm_translate calm_fail_tree raises_rules calm.g_if calm.g_throw

lemma put_update_served:
  assumes "fresh (store_root env) oid (wfiles w)"
    and "handle_put_update env t oid job_id rid tag_header schema_hash chunks failure m k w = (res, w')"
  shows "served env oid w res w'"
proof (rule served_call [OF calm_round_for_member assms(1) _ assms(2) [unfolded handle_put_update_def]], goal_cases)
  case (1 row w0)
  show ?case
  proof (cases "schema_hash = Some (model_schema_hash row) \<and> (\<exists>tag. tag_header = Some tag \<and> tag_acceptable tag)")
    case False
    with 1(3) have "w' = w0" by (auto split: if_splits option.splits)
    then show ?thesis by (simp add: served_calm calm.refl)
  next
    case True
    then obtain tag where tag: "schema_hash = Some (model_schema_hash row)" "tag_header = Some tag" "tag_acceptable tag"
      by blast
    have row: "round_of rid (wdb w0) = Some row" by (rule round_for_member_Inr [OF 1(1)])
    show ?thesis
    proof (rule upload_frame [OF 1(2) _ _ _ _ _ 1(3) [unfolded tag simp_thms option.case if_False if_True, 
          unfolded eqTrueI [OF tag(3)] simp_thms if_False]], goal_cases)
      case (5 stored w1 v w2)
      show ?case
      proof (cases "validate_safetensors env (stored_path stored) (model_schema_json row) (wfiles w1)")
        case (Inl e)
        with 5(2) show ?thesis by (auto simp: call_def after_recording_def calm.refl)
      next
        case (Inr u)
        with 5(2) have "on_db (record_update (t 3) (t 4) job_id rid (m_client m) stored tag k
            (hexdigest (a_sha env) (encode (stored_digest stored @ tag)))) w1 = (v, w2)" by (simp add: call_def)
        with Inr show ?thesis by (intro record_update_recorded [OF 5(1) tag(3) row]) simp_all
      qed
    qed (intro failing_rules)+
  qed
qed

text \<open>The checks before the upload of an encrypted artifact fail the round or raise; what follows them is the frame.\<close>

lemma put_task_served:
  assumes "fresh (store_root env) oid (wfiles w)"
    and "handle_put_key_task_artifact env t oid rid tid encoded sig_header chunks failure m k w = (res, w')"
  shows "served env oid w res w'"
proof (rule served_call [OF calm_round_for_member assms(1) _
      assms(2) [unfolded handle_put_key_task_artifact_def Let_def]], goal_cases)
  case (1 row w0)
  show ?case
  proof (rule served_call [OF _ 1(2) _ 1(3)], goal_cases)
    case 1
    show ?case by (intro handler_rules)
  next
    case (2 metadata w1)
    show ?case
    proof (rule served_call [OF calm_look 2(2) _ 2(3)], goal_cases)
      case (1 plan_record w2)
      show ?case
      proof (cases "\<exists>plan_hash plan manifest tk sig. plan_record = Some (plan_hash, plan, manifest) \<and>
          protocol_version row = ''1.1'' \<and> List.find (\<lambda>item. task_id item = tid) (plan_tasks plan) = Some tk \<and>
          sig_header = Some sig \<and> sender tk = m_client m")
        case False
        with 1(3) have "\<exists>message. fail_tree (t 4) rid (m_client m) message w2 = (res, w')"
          by (auto split: if_splits option.splits)
        then show ?thesis using served_guarantee [OF calm_fail_tree] by blast
      next
        case True
        then obtain plan_hash plan manifest tk sig where found: "plan_record = Some (plan_hash, plan, manifest)"
          "protocol_version row = ''1.1''" "List.find (\<lambda>item. task_id item = tid) (plan_tasks plan) = Some tk"
          "sig_header = Some sig" "sender tk = m_client m" by blast
        show ?thesis
        proof (rule upload_frame [OF 1(2) _ _ _ _ _ 1(3) [unfolded found simp_thms option.case prod.case if_False]], goal_cases)
          case (5 stored w3 v w4)
          show ?case
            by (rule checked_recording [OF check_upload_still _ 5(2)])
              (auto intro: record_task_recorded [OF 5(1)] split: prod.splits)
        qed (intro failing_rules)+
      qed
    qed
  qed
qed

lemma put_final_key_served:
  assumes "fresh (store_root env) oid (wfiles w)"
    and "handle_put_final_key env t oid rid encoded sig_header chunks failure m k w = (res, w')"
  shows "served env oid w res w'"
proof (rule served_call [OF calm_round_for_member assms(1) _
      assms(2) [unfolded handle_put_final_key_def Let_def]], goal_cases)
  case (1 row w0)
  show ?case
  proof (rule served_call [OF _ 1(2) _ 1(3)], goal_cases)
    case 1
    show ?case by (intro handler_rules)
  next
    case (2 metadata w1)
    show ?case
    proof (rule served_call [OF calm_look 2(2) _ 2(3)], goal_cases)
      case (1 plan_record w2)
      show ?case
      proof (cases "\<exists>plan_hash plan manifest sig. plan_record = Some (plan_hash, plan, manifest) \<and>
          sig_header = Some sig \<and> root_client_id plan = m_client m")
        case False
        with 1(3) have "\<exists>message. fail_tree (t 4) rid (m_client m) message w2 = (res, w')"
          by (auto split: if_splits option.splits)
        then show ?thesis using served_guarantee [OF calm_fail_tree] by blast
      next
        case True
        then obtain plan_hash plan manifest sig where found: "plan_record = Some (plan_hash, plan, manifest)"
          "sig_header = Some sig" "root_client_id plan = m_client m" by blast
        show ?thesis
        proof (rule upload_frame [OF 1(2) _ _ _ _ _ 1(3) [unfolded found simp_thms option.case prod.case if_False]], goal_cases)
          case (5 stored w3 v w4)
          show ?case
            by (rule checked_recording [OF check_upload_still _ 5(2)])
              (auto intro: record_final_recorded [OF 5(1)] split: prod.splits)
        qed (intro failing_rules)+
      qed
    qed
  qed
qed

section \<open>Every request\<close>

fun uploads :: "endpoint \<Rightarrow> bool" where
  "uploads (Put_Task_Artifact rid tid md sig chunks failure) = True"
| "uploads (Put_Final_Key rid md sig chunks failure) = True"
| "uploads (Put_Update rid tag hash chunks failure) = True"
| "uploads _ = False"

lemma calm_serve: "\<not> uploads (endpoint_of req) \<Longrightarrow> guarantees (calm (a_sha env)) (serve env req)"
  unfolding serve_def Let_def as_member_def as_operator_def with_key_def with_body_def
  by (cases "endpoint_of req"; simp only: endpoint.case uploads.simps simp_thms)
    (intro handler_rules calm_handlers calm_acknowledge_final_key)+

lemma serve_served:
  assumes "fresh (store_root env) (fresh_object req) (wfiles w)" "serve env req w = (res, w')"
  shows "served env (fresh_object req) w res w'"
proof (cases "uploads (endpoint_of req)")
  case False
  with calm_serve assms(2) show ?thesis by (blast intro: served_guarantee)
next
  case True
  obtain k where k: "serve env req = as_member env req (\<lambda>m. with_key req (k m))"
    "\<And>m key w res w'. fresh (store_root env) (fresh_object req) (wfiles w) \<Longrightarrow> k m key w = (res, w') \<Longrightarrow>
       served env (fresh_object req) w res w'"
  proof (cases "endpoint_of req")
    case (Put_Task_Artifact rid tid md sig chunks failure)
    show thesis
      by (rule that [OF _ put_task_served]) (simp_all add: serve_def Let_def Put_Task_Artifact)
  next
    case (Put_Final_Key rid md sig chunks failure)
    show thesis
      by (rule that [OF _ put_final_key_served]) (simp_all add: serve_def Let_def Put_Final_Key)
  next
    case (Put_Update rid tag hash chunks failure)
    show thesis
      by (rule that [OF _ put_update_served]) (simp_all add: serve_def Let_def Put_Update)
  qed (use True in simp_all)
  show ?thesis
  proof (rule served_call [OF calm_look assms(1) _ assms(2) [unfolded k(1) as_member_def]], goal_cases)
    case (1 m w1)
    show ?case
      by (rule served_call [OF calm_look 1(2) _ 1(3) [unfolded with_key_def]]) (rule k(2))
  qed
qed

end
