(* ===== verification/Results.thy ===== *)
theory Results
  imports Quiet
begin

text \<open>
  A result artifact belongs to a completed job, so a job that is still claimed has none: its completion always
  adds one.
\<close>

definition results_ok :: "db \<Rightarrow> bool" where
  "results_ok s \<longleftrightarrow> (\<forall>a\<in>set (artifacts s). a_type a = ''result'' \<longrightarrow>
     (\<exists>j\<in>set (jobs s). j_round j = a_round a \<and> j_state j = JOB_COMPLETED))"

lemma completed_job:
  assumes "j \<in> set js" "P j" "j_round j = rid"
  shows "\<exists>k\<in>set (update_where P (\<lambda>j. j\<lparr>j_state := JOB_COMPLETED, j_lease_until := None, j_claim_token := None,
     j_result_tag := Some tag, j_last_error := None\<rparr>) js). j_round k = rid \<and> j_state k = JOB_COMPLETED"
  by (rule bexI [of _ "j\<lparr>j_state := JOB_COMPLETED, j_lease_until := None, j_claim_token := None,
     j_result_tag := Some tag, j_last_error := None\<rparr>"]) (use assms in \<open>auto simp: set_update_where\<close>)

lemma perform_new_artifacts:
  assumes "keys_ok s" "perform sha c s = (res, s')" "\<not> is_purge c" "a \<in> set (artifacts s')" "a \<notin> set (artifacts s)"
  shows "a_type a \<noteq> ''result'' \<or> (\<exists>j\<in>set (jobs s'). j_round j = a_round a \<and> j_state j = JOB_COMPLETED)"
proof (cases "stores c")
  case False
  with perform_quiet assms(2) have "quiet s s'" by (blast dest: guaranteesD)
  then show ?thesis using assms(4,5) by (simp add: quiet_def)
next
  case True
  show ?thesis
  proof (cases res)
    case (Inl e)
    with True assms(2-5) show ?thesis by (cases c) (auto simp: outcome_Inl dest!: method_errors)
  next
    case (Inr u)
    show ?thesis
      using True
    proof (cases c)
      case (Record_Task_Artifact now rid client tid stored cd nonce sig k dg)
      with assms(2) Inr obtain resp flag where
        "record_task_artifact now rid client tid stored cd nonce sig k dg s = (Inr (resp, flag), s')"
        by (auto simp: outcome_Inr)
      then show ?thesis using assms(4,5) by (cases rule: record_task_artifact_ok) (auto simp: artifact_for_def)
    next
      case (Record_Final_Key now rid client stored cd nonce sig k dg)
      with assms(2) Inr obtain resp flag where
        "record_final_key now rid client stored cd nonce sig k dg s = (Inr (resp, flag), s')"
        by (auto simp: outcome_Inr)
      then show ?thesis using assms(4,5) by (cases rule: record_final_key_ok) (auto simp: artifact_for_def)
    next
      case (Record_Update now tnow job_id rid client stored tag k dg)
      with assms(2) Inr obtain resp flag where
        "record_update now tnow job_id rid client stored tag k dg s = (Inr (resp, flag), s')"
        by (auto simp: outcome_Inr)
      from assms(1) this show ?thesis using assms(4,5) by (cases rule: record_update_ok) (auto simp: artifact_for_def)
    next
      case (Complete_Job now tnow job_id rid token stored tag)
      with assms(2) Inr obtain u where "complete_job now tnow job_id rid token stored tag s = (Inr u, s')"
        by (auto simp: outcome_Inr)
      from assms(1) this show ?thesis
      proof (cases rule: complete_job_ok)
        case (1 r s1 ev j)
        have "\<exists>k\<in>set (jobs s'). j_round k = rid \<and> j_state k = JOB_COMPLETED"
          using completed_job [of j "jobs s" "\<lambda>k. j_id k = job_id \<and> j_claim_token k = Some token" rid tag] 1(3-7)
          by (auto simp: owned_def)
        moreover have "a_round a = rid" using 1(6,7) assms(4,5) by (auto simp: artifact_for_def)
        ultimately show ?thesis by simp
      qed
    qed (use assms(3) in simp_all)
  qed
qed

lemma perform_results:
  assumes "keys_ok s" "jobs_fine s" "results_ok s" "perform sha c s = (res, s')"
  shows "results_ok s'"
proof (cases "is_purge c")
  case True
  then obtain now rid where c: "c = Purge_Round now rid" by (cases c) auto
  with assms(4) have "s' = s \<or> s' = purged rid s" by (auto elim!: outcomeE dest: purge_result)
  moreover have "results_ok (purged rid s)"
    using assms(3) by (fastforce simp: results_ok_def purged_def delete_where_def)
  ultimately show ?thesis using assms(3) by auto
next
  case False
  show ?thesis
    unfolding results_ok_def
  proof (intro ballI impI)
    fix a assume a: "a \<in> set (artifacts s')" "a_type a = ''result''"
    show "\<exists>j\<in>set (jobs s'). j_round j = a_round a \<and> j_state j = JOB_COMPLETED"
    proof (cases "a \<in> set (artifacts s)")
      case True
      from True assms(3) a(2) obtain j where j: "j \<in> set (jobs s)" "j_round j = a_round a" "j_state j = JOB_COMPLETED"
        by (auto simp: results_ok_def)
      obtain j' where "j' \<in> set (jobs s')" "job_step\<^sup>*\<^sup>* j j'"
        using perform_job_steps [OF assms(2,4) False j(1)] by blast
      moreover from this(2) have "j' = j" using job_steps_final j(3) by auto
      ultimately show ?thesis using j(2,3) by blast
    next
      case False
      with perform_new_artifacts [OF assms(1,4) \<open>\<not> is_purge c\<close> a(1)] a(2) show ?thesis by blast
    qed
  qed
qed

lemma reachable_results: "reachable sha s \<Longrightarrow> results_ok s"
proof (induction rule: reachable.induct)
  case empty
  show ?case by (simp add: results_ok_def empty_db_def)
next
  case step
  then show ?case using perform_results reachable_jobs invariantD(1) [OF reachable_invariant] by blast
next
  case enrolled
  then show ?case
    by (auto dest!: initialize_members [THEN guaranteesD] simp: members_only_def results_ok_def)
qed

lemma unfinished:
  assumes "reachable sha s" "j \<in> set (jobs s)" "j_state j = CLAIMED"
    and "a \<in> set (artifacts s)" "a_round a = j_round j" "a_type a = ''result''"
  shows False
proof -
  obtain j' where "j' \<in> set (jobs s)" "j_round j' = j_round j" "j_state j' = JOB_COMPLETED"
    using reachable_results [OF assms(1)] assms(4-6) by (auto simp: results_ok_def)
  with distinct_key_unique [OF keys_okD(7) [OF invariantD(1) [OF reachable_invariant [OF assms(1)]]], of j' j] assms(2,3)
  show False by auto
qed

lemma complete_job_adds:
  assumes "reachable sha s" "complete_job now tnow job_id rid token stored tag s = (Inr u, s')"
  shows "artifacts s' = artifacts s @ [artifact_for stored rid None ''result'' now]" "participants s' = participants s"
proof -
  have keys: "keys_ok s" by (rule invariantD(1) [OF reachable_invariant [OF assms(1)]])
  from keys assms(2) show "artifacts s' = artifacts s @ [artifact_for stored rid None ''result'' now]"
    by (cases rule: complete_job_ok) (use unfinished [OF assms(1)] in \<open>auto simp: owned_def\<close>)
  from keys assms(2) show "participants s' = participants s"
    by (cases rule: complete_job_ok) auto
qed

end
