(* ===== verification/Worker_Facts.thy ===== *)
theory Worker_Facts
  imports Worker
begin

text \<open>
  What the aggregation loop computes: it accepts an update only when file, names, types, shapes and tag are right,
  and its result is the wrap-around sum of the updates, name by name, and the sum of the tags in the field. The
  reader of the tensor format returns a dictionary, whose names are distinct.
\<close>

section \<open>One update\<close>

text \<open>What the loop has seen of an input that it accepted: its tensors and the value of its tag.\<close>

definition accepted :: "worker_env \<Rightarrow> model_schema \<Rightarrow> files \<Rightarrow> artifact_row \<times> string option \<Rightarrow> tensors \<times> int \<Rightarrow> bool" where
  "accepted env schema fs = (\<lambda>(a, itag) (ts, v).
     (\<exists>c. fs (a_path a) = Some c \<and> hexdigest (w_sha env) c = a_digest a \<and> load_file env c = Inr ts) \<and>
     check_tensors schema ts = Inr () \<and> read_tag (w_repr env) itag = Inr v)"

definition distinct_names :: "worker_env \<Rightarrow> bool" where
  "distinct_names env \<longleftrightarrow> (\<forall>c ts. load_file env c = Inr ts \<longrightarrow> distinct (map fst ts))"

lemma read_tag_range: "read_tag repr itag = Inr v \<Longrightarrow> 0 \<le> v \<and> v < FIELD_PRIME"
  by (auto simp: read_tag_def Let_def split: option.splits if_splits)

lemma check_tensors_ok:
  "check_tensors schema ts = Inr u \<longleftrightarrow>
     set (map fst ts) = set (expected_names schema) \<and> \<not> list_ex (bad_tensor schema) ts"
  by (auto simp: check_tensors_def)

lemma add_named_ok:
  assumes "distinct names" "set names \<subseteq> set (map fst agg)" "set names \<subseteq> set (map fst ts)"
  shows "\<exists>agg'. add_named names agg ts = Inr agg' \<and> map fst agg' = map fst agg \<and>
    map_of agg' = (\<lambda>n. if n \<in> set names then Some (add_tensor (the (map_of agg n)) (the (map_of ts n))) else map_of agg n)"
  using assms
proof (induction names arbitrary: agg)
  case (Cons name names)
  from Cons.prems obtain a b where ab: "map_of agg name = Some a" "map_of ts name = Some b"
    by (metis insert_subset list.simps(15) map_of_eq_None_iff not_None_eq set_map)
  let ?agg = "AList.update name (add_tensor a b) agg"
  have keys: "map fst ?agg = map fst agg"
    using Cons.prems(2) by (simp add: AList.update_keys)
  from Cons.IH [of ?agg] Cons.prems keys obtain agg' where
    "add_named names ?agg ts = Inr agg'" "map fst agg' = map fst ?agg"
    "map_of agg' = (\<lambda>n. if n \<in> set names then Some (add_tensor (the (map_of ?agg n)) (the (map_of ts n))) else map_of ?agg n)"
    by fastforce
  then show ?case
    using ab keys Cons.prems(1) by (auto simp: AList.update_conv')
qed simp

lemma add_update_ok:
  assumes "distinct (map fst g)" "set (map fst ts) = set (map fst g)"
  shows "\<exists>g'. add_update (Some g) ts = Inr g' \<and> map fst g' = map fst g \<and>
    (\<forall>n\<in>set (map fst g). map_of g' n = Some (add_tensor (the (map_of g n)) (the (map_of ts n))))"
proof -
  have "\<exists>g'. add_named (sort (map fst g)) g ts = Inr g' \<and> map fst g' = map fst g \<and>
      map_of g' = (\<lambda>n. if n \<in> set (sort (map fst g)) then Some (add_tensor (the (map_of g n)) (the (map_of ts n)))
        else map_of g n)"
    by (rule add_named_ok) (use assms in simp_all)
  then show ?thesis by (auto simp: add_update_def)
qed

section \<open>The loop\<close>

definition summed :: "string \<Rightarrow> tensor \<Rightarrow> (tensors \<times> int) list \<Rightarrow> tensor" where
  "summed name start parts = foldl add_tensor start (map (\<lambda>(ts, v). the (map_of ts name)) parts)"

lemma renew_files: "on_db (renew_job now job_id token lease) w = (v, w') \<Longrightarrow> wfiles w' = wfiles w"
  by (auto simp: on_db_eq)

lemma file_digest_Inr: "file_digest sha path fs = Inr d \<longleftrightarrow> (\<exists>c. fs path = Some c \<and> d = hexdigest sha c)"
  by (auto simp: file_digest_eq split: option.splits)

lemma load_artifact_Inr: "load_artifact env path fs = Inr ts \<longleftrightarrow> (\<exists>c. fs path = Some c \<and> load_file env c = Inr ts)"
  by (auto simp: load_artifact_def split: option.splits)

text \<open>One turn of the loop.\<close>

lemma loop_Cons:
  assumes "aggregate_loop env t job_id token schema ((a, itag) # rest) agg tg w = (Inr x, w')"
  obtains ts v g u w1 where
    "accepted env schema (wfiles w) (a, itag) (ts, v)" "add_update agg ts = Inr g"
    "on_db (renew_job (t 0) job_id token (lease_seconds env)) w = (Inr u, w1)" "wfiles w1 = wfiles w"
    "aggregate_loop env (\<lambda>i. t (i + 1)) job_id token schema rest (Some g) ((tg + v) mod FIELD_PRIME) w1 = (Inr x, w')"
  using assms renew_files
  by (auto simp: call_Inr file_digest_Inr load_artifact_Inr accepted_def split: if_splits)

lemma loop_sums:
  assumes "distinct_names env" "distinct (map fst g)" "set (map fst g) = set (expected_names schema)"
    and "aggregate_loop env t job_id token schema inputs (Some g) tg w = (Inr (agg, tag), w')"
  shows "\<exists>g' parts. agg = Some g' \<and> list_all2 (accepted env schema (wfiles w)) inputs parts \<and> map fst g' = map fst g \<and>
    (\<forall>n\<in>set (expected_names schema). map_of g' n = Some (summed n (the (map_of g n)) parts)) \<and>
    tag mod FIELD_PRIME = (tg + sum_list (map snd parts)) mod FIELD_PRIME \<and>
    (inputs \<noteq> [] \<longrightarrow> 0 \<le> tag \<and> tag < FIELD_PRIME) \<and> wfiles w' = wfiles w"
  using assms(2-4)
proof (induction inputs arbitrary: t g tg w)
  case Nil
  then have "\<exists>v. map_of g n = Some v" if "n \<in> set (expected_names schema)" for n
    using that by (metis map_of_eq_None_iff not_None_eq set_map)
  with Nil show ?case by (intro exI [of _ g] exI [of _ "[]"]) (auto simp: summed_def)
next
  case (Cons input inputs)
  obtain a itag where input: "input = (a, itag)" by (cases input)
  from Cons.prems(3) [unfolded input] obtain ts v g1 u w1 where turn:
    "accepted env schema (wfiles w) (a, itag) (ts, v)" "add_update (Some g) ts = Inr g1" "wfiles w1 = wfiles w"
    "aggregate_loop env (\<lambda>i. t (i + 1)) job_id token schema inputs (Some g1) ((tg + v) mod FIELD_PRIME) w1
      = (Inr (agg, tag), w')"
    by (rule loop_Cons)
  have names: "set (map fst ts) = set (map fst g)"
    using turn(1) Cons.prems(2) by (auto simp: accepted_def check_tensors_ok)
  from add_update_ok [OF Cons.prems(1) names] turn(2) have g1: "map fst g1 = map fst g"
    "\<forall>n\<in>set (map fst g). map_of g1 n = Some (add_tensor (the (map_of g n)) (the (map_of ts n)))"
    by auto
  from Cons.IH [OF _ _ turn(4)] g1(1) Cons.prems(1,2) obtain g' parts where ih:
    "agg = Some g'" "list_all2 (accepted env schema (wfiles w1)) inputs parts" "map fst g' = map fst g1"
    "\<forall>n\<in>set (expected_names schema). map_of g' n = Some (summed n (the (map_of g1 n)) parts)"
    "tag mod FIELD_PRIME = ((tg + v) mod FIELD_PRIME + sum_list (map snd parts)) mod FIELD_PRIME"
    "inputs \<noteq> [] \<longrightarrow> 0 \<le> tag \<and> tag < FIELD_PRIME" "wfiles w' = wfiles w1"
    by metis
  have "map_of g' n = Some (summed n (the (map_of g n)) ((ts, v) # parts))" if n: "n \<in> set (expected_names schema)" for n
  proof -
    have "n \<in> set (map fst g)" using n unfolding Cons.prems(2) .
    with g1(2) have "map_of g1 n = Some (add_tensor (the (map_of g n)) (the (map_of ts n)))" by (rule bspec)
    then show ?thesis using ih(4) n by (simp add: summed_def)
  qed
  then have "\<forall>n\<in>set (expected_names schema). map_of g' n = Some (summed n (the (map_of g n)) ((ts, v) # parts))"
    by (intro ballI)
  moreover have "tag mod FIELD_PRIME = (tg + sum_list (map snd ((ts, v) # parts))) mod FIELD_PRIME"
    unfolding ih(5) mod_add_left_eq by (simp add: add.assoc)
  moreover have "0 \<le> tag \<and> tag < FIELD_PRIME"
  proof (cases "inputs = []")
    case True
    with turn(4) have "tag = (tg + v) mod FIELD_PRIME" by simp
    then show ?thesis by (simp add: FIELD_PRIME_def)
  next
    case False
    with ih(6) show ?thesis by simp
  qed
  ultimately show ?case
    using ih(1-3,7) turn(1,3) g1(1) input by (intro exI [of _ g'] exI [of _ "(ts, v) # parts"]) simp
qed

text \<open>The loop from its start, on at least one input.\<close>

lemma loop_result:
  assumes "distinct_names env" "inputs \<noteq> []"
    and "aggregate_loop env t job_id token schema inputs None 0 w = (Inr (agg, tag), w')"
  shows "\<exists>g parts. agg = Some g \<and> list_all2 (accepted env schema (wfiles w)) inputs parts \<and> distinct (map fst g) \<and>
    set (map fst g) = set (expected_names schema) \<and>
    (\<forall>n\<in>set (expected_names schema). map_of g n = Some (summed n (the (map_of (fst (hd parts)) n)) (tl parts))) \<and>
    tag = sum_list (map snd parts) mod FIELD_PRIME \<and> wfiles w' = wfiles w"
proof -
  obtain a itag rest where inputs: "inputs = (a, itag) # rest" using assms(2) by (cases inputs) auto
  from assms(3) [unfolded inputs] obtain ts v g1 u w1 where turn:
    "accepted env schema (wfiles w) (a, itag) (ts, v)" "add_update None ts = Inr g1" "wfiles w1 = wfiles w"
    "aggregate_loop env (\<lambda>i. t (i + 1)) job_id token schema rest (Some g1) ((0 + v) mod FIELD_PRIME) w1
      = (Inr (agg, tag), w')"
    by (rule loop_Cons)
  have g1: "g1 = ts" using turn(2) by (simp add: add_update_def)
  have v: "v mod FIELD_PRIME = v" "0 \<le> v" "v < FIELD_PRIME"
    using turn(1) read_tag_range by (auto simp: accepted_def)
  have dist: "distinct (map fst ts)" using turn(1) assms(1) by (auto simp: accepted_def distinct_names_def)
  have names: "set (map fst ts) = set (expected_names schema)"
    using turn(1) by (auto simp: accepted_def check_tensors_ok)
  from loop_sums [OF assms(1) dist names turn(4) [unfolded g1]] obtain g' parts where r:
    "agg = Some g'" "list_all2 (accepted env schema (wfiles w1)) rest parts" "map fst g' = map fst ts"
    "\<forall>n\<in>set (expected_names schema). map_of g' n = Some (summed n (the (map_of ts n)) parts)"
    "tag mod FIELD_PRIME = (((0 + v) mod FIELD_PRIME) + sum_list (map snd parts)) mod FIELD_PRIME"
    "rest \<noteq> [] \<longrightarrow> 0 \<le> tag \<and> tag < FIELD_PRIME" "wfiles w' = wfiles w1"
    by blast
  have "0 \<le> tag \<and> tag < FIELD_PRIME"
    using r(6) turn(4) v by (cases rest) auto
  then have "tag = sum_list (map snd ((ts, v) # parts)) mod FIELD_PRIME"
    using r(5) v(1) by simp
  with r(1-4,7) turn(1,3) dist names inputs show ?thesis
    by (intro exI [of _ g'] exI [of _ "(ts, v) # parts"]) simp
qed

lemma accepted_unique: "accepted env schema fs input p \<Longrightarrow> accepted env schema fs input q \<Longrightarrow> p = q"
  by (auto simp: accepted_def split: prod.splits)

lemma all_accepted_unique:
  "list_all2 (accepted env schema fs) inputs ps \<Longrightarrow> list_all2 (accepted env schema fs) inputs qs \<Longrightarrow> ps = qs"
  by (induction inputs arbitrary: ps qs) (auto simp: list_all2_Cons1 dest: accepted_unique)

section \<open>Elements\<close>

text \<open>Each element of a sum is the sum of the elements modulo \<open>2 ^ 64\<close>.\<close>

lemma foldl_add_tensor:
  assumes "\<forall>x\<in>set xs. length (t_data x) = length (t_data a)"
  shows "t_dtype (foldl add_tensor a xs) = t_dtype a \<and> t_shape (foldl add_tensor a xs) = t_shape a \<and>
    length (t_data (foldl add_tensor a xs)) = length (t_data a) \<and>
    (\<forall>i<length (t_data a). t_data (foldl add_tensor a xs) ! i = sum_list (map (\<lambda>x. t_data x ! i) (a # xs)))"
  using assms
proof (induction xs arbitrary: a)
  case (Cons x xs)
  have len: "length (t_data (add_tensor a x)) = length (t_data a)" using Cons.prems by (simp add: add_tensor_def)
  with Cons.IH [of "add_tensor a x"] Cons.prems show ?case
    by (auto simp: add_tensor_def add.assoc)
qed simp

lemma uint_sum_list: "uint (sum_list xs :: 64 word) = sum_list (map uint xs) mod 2 ^ 64"
  by (induction xs) (simp_all add: uint_word_ariths mod_simps)

text \<open>The reader gives every tensor as many elements as its shape says.\<close>

definition filled :: "worker_env \<Rightarrow> bool" where
  "filled env \<longleftrightarrow> (\<forall>c ts name x. load_file env c = Inr ts \<longrightarrow> map_of ts name = Some x \<longrightarrow>
     length (t_data x) = nat (prod_list (t_shape x)))"

lemma accepted_length:
  assumes "filled env" and "accepted env schema fs input (ts, v)" "n \<in> set (expected_names schema)"
  shows "\<exists>e x. expected_entries schema n = Some e \<and> map_of ts n = Some x \<and> t_shape x = shape e \<and>
    length (t_data x) = nat (prod_list (shape e)) \<and> t_dtype x = ''int64''"
proof -
  obtain a itag where input: "input = (a, itag)" by (cases input)
  from assms(2) input obtain c where c: "load_file env c = Inr ts" "check_tensors schema ts = Inr ()"
    by (auto simp: accepted_def)
  then have names: "set (map fst ts) = set (expected_names schema)" "\<not> list_ex (bad_tensor schema) ts"
    by (simp_all add: check_tensors_ok)
  from assms(3) obtain x where x: "map_of ts n = Some x"
    unfolding names(1) [symmetric] by (metis map_of_eq_None_iff not_None_eq set_map)
  then have "\<not> bad_tensor schema (n, x)" using names(2) by (auto simp: list_ex_iff dest!: map_of_SomeD)
  with assms(1) c(1) x show ?thesis by (auto simp: bad_tensor_def filled_def split: option.splits)
qed

text \<open>The tensors that a schema asks for, each with all its elements.\<close>

definition shaped_tensors :: "model_schema \<Rightarrow> tensors \<Rightarrow> bool" where
  "shaped_tensors schema ts \<longleftrightarrow> distinct (map fst ts) \<and> set (map fst ts) = set (expected_names schema) \<and>
     (\<forall>(n, x)\<in>set ts. t_dtype x = ''int64'' \<and> (\<exists>e. expected_entries schema n = Some e \<and>
        t_shape x = shape e \<and> length (t_data x) = nat (prod_list (shape e))))"

lemma summed_shape:
  assumes "filled env" "list_all2 (accepted env schema fs) inputs parts" "parts \<noteq> []" "n \<in> set (expected_names schema)"
  shows "\<exists>e. expected_entries schema n = Some e \<and> t_shape (summed n (the (map_of (fst (hd parts)) n)) (tl parts)) = shape e \<and>
    length (t_data (summed n (the (map_of (fst (hd parts)) n)) (tl parts))) = nat (prod_list (shape e)) \<and>
    t_dtype (summed n (the (map_of (fst (hd parts)) n)) (tl parts)) = ''int64''"
proof -
  let ?at = "\<lambda>(ts, v). the (map_of ts n) :: tensor"
  obtain p ps where parts: "parts = p # ps" using assms(3) by (cases parts) auto
  have each: "\<exists>e. expected_entries schema n = Some e \<and> t_shape (?at q) = shape e \<and>
      length (t_data (?at q)) = nat (prod_list (shape e)) \<and> t_dtype (?at q) = ''int64''" if "q \<in> set parts" for q
  proof -
    obtain ts v where q: "q = (ts, v)" by (cases q)
    from assms(2) that obtain input where "accepted env schema fs input q"
      by (metis in_set_conv_nth list_all2_conv_all_nth)
    from accepted_length [OF assms(1) this [unfolded q] assms(4)] show ?thesis by (auto simp: q)
  qed
  from each [of p] obtain e where e: "expected_entries schema n = Some e" "t_shape (?at p) = shape e"
    "length (t_data (?at p)) = nat (prod_list (shape e))" "t_dtype (?at p) = ''int64''" by (auto simp: parts)
  have "\<forall>x\<in>set (map ?at ps). length (t_data x) = length (t_data (?at p))"
    using each e(1,3) by (fastforce simp: parts)
  from foldl_add_tensor [OF this] e show ?thesis by (auto simp: parts summed_def case_prod_beta)
qed

lemma sums_shaped:
  assumes "filled env" "list_all2 (accepted env schema fs) inputs parts" "parts \<noteq> []"
    and "distinct (map fst g)" "set (map fst g) = set (expected_names schema)"
    and "\<forall>n\<in>set (expected_names schema). map_of g n = Some (summed n (the (map_of (fst (hd parts)) n)) (tl parts))"
  shows "shaped_tensors schema (sorted_tensors g)"
proof -
  have names: "map fst (sorted_tensors g) = sort (map fst g)" by (simp add: sorted_tensors_def comp_def)
  have "t_dtype x = ''int64'' \<and> (\<exists>e. expected_entries schema n = Some e \<and>
      t_shape x = shape e \<and> length (t_data x) = nat (prod_list (shape e)))" if "(n, x) \<in> set (sorted_tensors g)" for n x
  proof -
    have n: "n \<in> set (expected_names schema)" "x = the (map_of g n)"
      using that unfolding assms(5) [symmetric] by (auto simp: sorted_tensors_def)
    with assms(6) have "x = summed n (the (map_of (fst (hd parts)) n)) (tl parts)" by simp
    with summed_shape [OF assms(1-3) n(1)] show ?thesis by auto
  qed
  then show ?thesis using assms(4,5) by (auto simp: shaped_tensors_def names)
qed

end
