(* ===== verification/Upkeep.thy ===== *)
theory Upkeep
  imports Uploads Results Worker_Facts
begin

text \<open>
  The worker on a sound world: one run claims a job and either deposits the result or is a calm step, and the
  maintenance removes the files of a round together with its rows.
\<close>

section \<open>One run of the worker\<close>

definition ended :: "api_env \<Rightarrow> string \<Rightarrow> world \<Rightarrow> exn + 'a \<Rightarrow> world \<Rightarrow> bool" where
  "ended env path w v w' \<longleftrightarrow> calm (a_sha env) w w' \<or> \<not> isl v \<and> deposit env path w w'"

lemma calm_ended: "calm (a_sha env) w w1 \<Longrightarrow> ended env path w1 v w2 \<Longrightarrow> ended env path w v w2"
  using calm.trans calm_deposit unfolding ended_def by blast

lemma ended_call:
  assumes "guarantees (calm (a_sha env)) m" "fresh dir oid (wfiles w)"
    and "\<And>x t. m w = (Inr x, t) \<Longrightarrow> fresh dir oid (wfiles t) \<Longrightarrow> k x t = (res, w') \<Longrightarrow> ended env path t res w'"
    and "call m k w = (res, w')"
  shows "ended env path w res w'"
proof -
  obtain v t where t: "m w = (v, t)" by fastforce
  have c: "calm (a_sha env) w t" using guaranteesD [OF assms(1) t] .
  show ?thesis
  proof (cases v)
    case (Inl e)
    with t assms(4) have "w' = t" by (simp add: call_def)
    with c show ?thesis by (simp add: ended_def)
  next
    case (Inr x)
    with t assms(4) have "k x t = (res, w')" by (simp add: call_def)
    moreover have "fresh dir oid (wfiles t)" using assms(2) calmD(1) [OF c] by simp
    ultimately show ?thesis using c assms(3) t Inr by (blast intro: calm_ended)
  qed
qed

lemma put_bytes_received:
  assumes "fresh (store_root env) oid (wfiles w)"
    and "on_files (put_bytes (a_sha env) (store_root env) max_bytes oid data) w = (v, w1)"
  shows "case v of Inl e \<Rightarrow> w1 = w | Inr stored \<Rightarrow> received env oid w stored w1"
  using assms
  by (auto simp: on_files_eq put_bytes_def Let_def fresh_def received_def fun_upd_idem split: if_splits)

lemma complete_job_deposits:
  assumes at: "received env oid w stored w1"
    and run: "on_db (complete_job now tnow job_id rid token stored tag) w1 = (v, w2)"
  shows "case v of Inl e \<Rightarrow> w2 = w1 | Inr u \<Rightarrow> deposit env (final_path (store_root env) oid) w w2"
proof -
  let ?complete = "complete_job now tnow job_id rid token stored tag"
  from at obtain f where w1: "w1 = w\<lparr>wfiles := (wfiles w)(final_path (store_root env) oid \<mapsto> f)\<rparr>"
    "stored_path stored = final_path (store_root env) oid"
    "stored_digest stored = hexdigest (a_sha env) f" "stored_size stored = length f" by (auto simp: received_def)
  from run w1(1) obtain s where s: "?complete (wdb w) = (v, s)" "w2 = w1\<lparr>wdb := s\<rparr>" by (auto simp: on_db_eq)
  show ?thesis
  proof (cases v)
    case (Inl e)
    with s w1(1) show ?thesis by (auto dest: method_errors(8))
  next
    case (Inr u)
    let ?a = "artifact_for stored rid None ''result'' now"
    have "row_added env ?a w w2" if reach: "reachable (a_sha env) (wdb w)"
    proof -
      have call: "perform (a_sha env) (Complete_Job now tnow job_id rid token stored tag) (wdb w) = (Inr (), s)"
        using s(1) Inr by (auto simp: outcome_Inr)
      have "reachable (a_sha env) s" by (rule reachable.step [OF reach _ call]) simp
      moreover have "rounds_progress (wdb w) s"
        by (rule guaranteesD [OF perform_progress call]) simp
      ultimately show ?thesis
        using complete_job_adds [OF reach s(1) [unfolded Inr]] s(2) by (simp add: row_added_def artifact_for_def)
    qed
    then have "deposit env (final_path (store_root env) oid) w w2"
      unfolding deposit_def using w1 s(2) by (intro exI [of _ f] exI [of _ ?a]) (simp add: artifact_for_def)
    with Inr show ?thesis by simp
  qed
qed

lemma calm_aggregate_loop: "guarantees (calm sha) (aggregate_loop wenv t job_id token schema inputs agg tag)"
  by (induction wenv t job_id token schema inputs agg tag rule: aggregate_loop.induct)
    (auto intro!: calm_rules simp del: ret_apply call_def)

text \<open>The worker uses the hash and the directory of the server.\<close>

definition attached :: "api_env \<Rightarrow> worker_env \<Rightarrow> bool" where
  "attached env wenv \<longleftrightarrow> w_sha wenv = a_sha env \<and> w_dir wenv = store_root env"

lemma aggregate_job_ended:
  assumes "attached env wenv" "fresh (store_root env) oid (wfiles w)"
    and "aggregate_job wenv t oid rid job_id token w = (res, w')"
  shows "ended env (final_path (store_root env) oid) w res w'"
proof (rule ended_call [OF calm_look assms(2) _ assms(3) [unfolded aggregate_job_def Let_def]], goal_cases)
  case (1 x w0)
  obtain r inputs where x: "x = (r, inputs)" by (cases x)
  show ?case
  proof (cases "length inputs = expected_count r")
    case False
    with 1(3) x have "w' = w0" by simp
    then show ?thesis by (simp add: ended_def calm.refl)
  next
    case True
    show ?thesis
    proof (rule ended_call [OF calm_aggregate_loop 1(2) _ 1(3) [unfolded x prod.case True simp_thms if_False]], goal_cases)
      case (1 y w1)
      obtain agg tag where y: "y = (agg, tag)" by (cases y)
      show ?case
      proof (cases agg)
        case None
        with 1(3) y have "w' = w1" by simp
        then show ?thesis by (simp add: ended_def calm.refl)
      next
        case (Some g)
        show ?thesis
        proof (rule ended_call [OF calm_calls(6) 1(2) _ 1(3) [unfolded y prod.case Some option.case]], goal_cases)
          case (1 u w2)
          obtain v w3 where put: "on_files (put_bytes (w_sha wenv) (w_dir wenv) (w_max_bytes wenv) oid
              (save_tensors wenv (sorted_tensors g))) w2 = (v, w3)" by fastforce
          note got = put_bytes_received [OF 1(2) put [unfolded assms(1) [unfolded attached_def, THEN conjunct1]
              assms(1) [unfolded attached_def, THEN conjunct2]]]
          show ?case
          proof (cases v)
            case (Inl e)
            with got 1(3) put have "w' = w2" by (simp add: call_def)
            then show ?thesis by (simp add: ended_def calm.refl)
          next
            case (Inr stored)
            then have at: "received env oid w2 stored w3" using got by simp
            let ?w = "w3\<lparr>wfiles := (wfiles w3)(stored_path stored := None)\<rparr>"
            let ?finish = "call (look (\<lambda>_. tag_hex tag)) (\<lambda>tag.
              on_db (complete_job (t (expected_count r + 1)) (t (expected_count r + 2)) job_id rid token stored tag))"
            obtain z w4 where fin: "?finish w3 = (z, w4)" by fastforce
            have settled: "case z of Inl e \<Rightarrow> w4 = w3 | Inr u \<Rightarrow> deposit env (final_path (store_root env) oid) w2 w4"
              using fin complete_job_deposits [OF at]
              by (cases "tag_hex tag") (auto simp: call_def split: sum.splits)
            show ?thesis
            proof (cases z)
              case (Inl e)
              with 1(3) put \<open>v = Inr stored\<close> fin settled have "w' = ?w"
                by (simp add: call_def rescue_def any_exception_def)
              with calm_removed [OF 1(2) at calm.refl] show ?thesis by (simp add: ended_def)
            next
              case fine: (Inr u)
              with 1(3) put Inr fin have "res = Inr u" "w' = w4" by (simp_all add: call_def rescue_def)
              with settled fine show ?thesis by (simp add: ended_def)
            qed
          qed
        qed
      qed
    qed
  qed
qed

lemma run_once_ended:
  assumes "attached env wenv" "fresh (store_root env) oid (wfiles w)"
    and "run_once wenv now tnow t tfail token oid w = (res, w')"
  shows "ended env (final_path (store_root env) oid) w res w'"
proof (rule ended_call [OF calm_calls(5) assms(2) _ assms(3) [unfolded run_once_def Let_def]], goal_cases)
  case (1 job w0)
  show ?case
  proof (cases job)
    case None
    with 1(3) have "w' = w0" by simp
    then show ?thesis by (simp add: ended_def calm.refl)
  next
    case (Some j)
    let ?claim = "case j_claim_token j of None \<Rightarrow> ''None'' | Some k \<Rightarrow> k"
    obtain v w1 where v: "aggregate_job wenv t oid (j_round j) (j_id j) ?claim w0 = (v, w1)" by fastforce
    note run = aggregate_job_ended [OF assms(1) 1(2) v]
    show ?thesis
    proof (cases v)
      case (Inl e)
      then have c: "calm (a_sha env) w0 w1" using run by (simp add: ended_def)
      let ?fail = "on_db (fail_job tfail (j_id j) (j_round j) ?claim (exn_text (w_describe wenv) e) (transient e))"
      obtain x w2 where f: "?fail w1 = (x, w2)" by fastforce
      then have "calm (a_sha env) w1 w2" using guaranteesD [OF calm_calls(7)] by blast
      moreover have "w' = w2"
        using 1(3) Some v Inl f by (auto simp: call_def rescue_def any_exception_def split: sum.splits)
      ultimately show ?thesis using c calm.trans by (auto simp: ended_def)
    next
      case (Inr u)
      with 1(3) Some v have "w' = w1" "\<not> isl res" by (auto simp: call_def rescue_def)
      with run Inr show ?thesis by (simp add: ended_def)
    qed
  qed
qed

end
