(* ===== verification/Maintenance.thy ===== *)
theory Maintenance
  imports Upkeep
begin

text \<open>
  The maintenance of the worker, completely: the expiry of overdue rounds always succeeds, and the purge
  removes the files and the rows of exactly the rounds past their retention.
\<close>

section \<open>Expiry\<close>

fun overdue_row :: "string \<times> round_state \<Rightarrow> bool" where
  "overdue_row (rid, state) \<longleftrightarrow> state \<notin> {COMPLETED, FAILED, ABORTED, EXPIRED}"

lemma expired_allowed: "state \<notin> {COMPLETED, FAILED, ABORTED, EXPIRED} \<Longrightarrow> transition_allowed state EXPIRED"
  by (cases state) (auto simp: transition_allowed_def ACTIVE_STATES_def TERMINAL_STATES_def all_states_UNIV)

lemma round_advanced:
  "round_of q (advanced now rid target ev detail s)
    = (if q = rid then map_option (advance now target ev detail) (round_of q s) else round_of q s)"
proof -
  have "round_of q (advanced now rid target ev detail s)
      = map_option (\<lambda>r. if round_id r = rid then advance now target ev detail r else r) (round_of q s)"
    by (simp add: round_of_def find_update_where)
  then show ?thesis using round_of_id [of q s] by (cases "round_of q s") auto
qed

lemma expire_loop_ok:
  assumes "distinct (map round_id (rounds s))" "distinct (map fst rows)"
    and "\<forall>(rid, state)\<in>set rows. \<exists>r. round_of rid s = Some r \<and> status r = state"
  shows "\<exists>s'. expire_loop tnow rows n s = (Inr (n + length (filter overdue_row rows)), s') \<and>
    (\<forall>q. round_of q s' = (if q \<in> fst ` set (filter overdue_row rows)
       then map_option (advance (tnow q) EXPIRED ''ROUND_DEADLINE_EXCEEDED'' None) (round_of q s) else round_of q s))"
  using assms
proof (induction rows arbitrary: s n)
  case (Cons row rows)
  obtain rid state where row: "row = (rid, state)" by (cases row)
  show ?case
  proof (cases "state \<in> {COMPLETED, FAILED, ABORTED, EXPIRED}")
    case True
    have "\<exists>s'. expire_loop tnow rows n s = (Inr (n + length (filter overdue_row rows)), s') \<and>
      (\<forall>q. round_of q s' = (if q \<in> fst ` set (filter overdue_row rows)
         then map_option (advance (tnow q) EXPIRED ''ROUND_DEADLINE_EXCEEDED'' None) (round_of q s) else round_of q s))"
      by (rule Cons.IH) (use Cons.prems in auto)
    with True row show ?thesis by simp
  next
    case False
    from Cons.prems(3) row obtain r where r: "round_of rid s = Some r" "status r = state" by auto
    let ?ev = "event rid ''reconciler'' ''ROUND_DEADLINE_EXCEEDED'' (Some (state_version r + 1)) (tnow rid) None"
    let ?s1 = "logged [?ev] (advanced (tnow rid) rid EXPIRED ''ROUND_DEADLINE_EXCEEDED'' None s)"
    let ?s2 = "jobs_update (update_where (\<lambda>j. j_round j = rid \<and> j_state j \<in> {JOB_READY, CLAIMED})
        (\<lambda>j. j\<lparr>j_state := JOB_FAILED, j_lease_until := None, j_claim_token := None,
           j_last_error := Some ''round deadline exceeded''\<rparr>)) ?s1"
    have first: "transition (tnow rid) rid state EXPIRED ''reconciler'' ''ROUND_DEADLINE_EXCEEDED'' None s = (Inr (), ?s1)"
      using r expired_allowed [OF False] by (simp add: transition_ok [OF Cons.prems(1)])
    have at: "round_of q ?s2 = (if q = rid then map_option (advance (tnow q) EXPIRED ''ROUND_DEADLINE_EXCEEDED'' None)
        (round_of q s) else round_of q s)" for q
      unfolding round_of_other round_advanced by simp
    have "\<exists>s'. expire_loop tnow rows (n + 1) ?s2 = (Inr (n + 1 + length (filter overdue_row rows)), s') \<and>
      (\<forall>q. round_of q s' = (if q \<in> fst ` set (filter overdue_row rows)
         then map_option (advance (tnow q) EXPIRED ''ROUND_DEADLINE_EXCEEDED'' None) (round_of q ?s2) else round_of q ?s2))"
    proof (rule Cons.IH)
      show "distinct (map round_id (rounds ?s2))" using Cons.prems(1) by (simp add: map_update_where)
      show "\<forall>(q, st)\<in>set rows. \<exists>r. round_of q ?s2 = Some r \<and> status r = st"
      proof (intro ballI case_prodI2)
        fix z q st assume z: "z \<in> set rows" "z = (q, st)"
        then have "q \<noteq> rid" using Cons.prems(2) row by force
        moreover have "\<exists>r. round_of q s = Some r \<and> status r = st" using Cons.prems(3) z by auto
        ultimately show "\<exists>r. round_of q ?s2 = Some r \<and> status r = st" unfolding at by simp
      qed
    qed (use Cons.prems(2) in simp)
    then obtain s' where s': "expire_loop tnow rows (n + 1) ?s2 = (Inr (n + 1 + length (filter overdue_row rows)), s')"
      "\<And>q. round_of q s' = (if q \<in> fst ` set (filter overdue_row rows)
         then map_option (advance (tnow q) EXPIRED ''ROUND_DEADLINE_EXCEEDED'' None) (round_of q ?s2) else round_of q ?s2)"
      by blast
    have "expire_loop tnow (row # rows) n s = expire_loop tnow rows (n + 1) ?s2"
      using False row first by (simp add: call_def exec_def always_def del: expire_loop.simps(1))
    moreover have "rid \<notin> fst ` set (filter overdue_row rows)" using Cons.prems(2) row by auto
    ultimately show ?thesis using s' at row False by (intro exI [of _ s']) auto
  qed
qed simp

lemma expire_rounds_ok:
  assumes "keys_ok s"
  shows "\<exists>n s'. expire_rounds clock now tnow s = (Inr n, s')"
proof -
  let ?timestamp = "case now of None \<Rightarrow> clock | Some t \<Rightarrow> t"
  let ?rows = "map (\<lambda>r. (round_id r, status r)) (filter (\<lambda>r. deadline_at r < ?timestamp) (rounds s))"
  have "\<exists>s'. expire_loop tnow ?rows 0 s = (Inr (0 + length (filter overdue_row ?rows)), s') \<and>
    (\<forall>q. round_of q s' = (if q \<in> fst ` set (filter overdue_row ?rows)
       then map_option (advance (tnow q) EXPIRED ''ROUND_DEADLINE_EXCEEDED'' None) (round_of q s) else round_of q s))"
  proof (rule expire_loop_ok)
    show "distinct (map round_id (rounds s))" by (rule keys_okD(1) [OF assms])
    then show "distinct (map fst ?rows)" by (simp add: comp_def distinct_map_filter)
    show "\<forall>(rid, state)\<in>set ?rows. \<exists>r. round_of rid s = Some r \<and> status r = state"
      using round_of_unique [OF assms] by auto
  qed
  then show ?thesis by (auto simp: expire_rounds_def Let_def transaction_def)
qed

section \<open>Purging\<close>

definition round_paths :: "string \<Rightarrow> db \<Rightarrow> string list" where
  "round_paths rid s = map a_path (filter (\<lambda>a. a_round a = rid) (artifacts s))"

lemma delete_paths_eq:
  "delete_paths paths w = (Inr (), w\<lparr>wfiles := (\<lambda>p. if p \<in> set paths then None else wfiles w p)\<rparr>)"
  by (induction paths arbitrary: w) (auto simp: call_def fun_eq_iff)

text \<open>One turn: the files of the round and its rows.\<close>

definition removed :: "string \<Rightarrow> world \<Rightarrow> world" where
  "removed rid w = w\<lparr>wfiles := (\<lambda>p. if p \<in> set (round_paths rid (wdb w)) then None else wfiles w p),
     wdb := purged rid (wdb w)\<rparr>"

lemma purged_tables:
  "artifacts (purged rid s) = delete_where (\<lambda>a. a_round a = rid) (artifacts s)"
  "participants (purged rid s) = delete_where (\<lambda>p. p_round p = rid) (participants s)"
  "rounds (purged rid s) = delete_where (\<lambda>r. round_id r = rid) (rounds s)"
  by (simp_all add: purged_def)

lemma round_of_purged: "round_of q (purged rid s) = (if q = rid then None else round_of q s)"
proof -
  have "List.find (\<lambda>r. round_id r = q) (delete_where (\<lambda>r. round_id r = rid) rs)
      = (if q = rid then None else List.find (\<lambda>r. round_id r = q) rs)" for rs
    by (induction rs) (auto simp: delete_where_def)
  from this [of "rounds s"] show ?thesis by (simp only: round_of_def purged_tables)
qed

lemma removed_sound:
  assumes "sound env w" "round_of rid (wdb w) = Some r" "purgeable now r"
  shows "purge_round now rid (wdb w) = (Inr (), purged rid (wdb w))" "sound env (removed rid w)"
proof -
  have reach: "reachable (a_sha env) (wdb w)" and track: "tracked (a_sha env) w" and vet: "vetted env w"
    using assms(1) by (simp_all add: sound_def)
  note inv = invariantD [OF reachable_invariant [OF reach]]
  have "unshared rid (wdb w)" by (rule links_unshared [OF inv(1,5)])
  with assms(2,3) show purge: "purge_round now rid (wdb w) = (Inr (), purged rid (wdb w))"
    by (simp add: purge_round_ok)
  have "perform (a_sha env) (Purge_Round now rid) (wdb w) = (Inr (), purged rid (wdb w))"
    using purge by (auto simp: outcome_Inr)
  from reachable.step [OF reach _ this] have reach': "reachable (a_sha env) (purged rid (wdb w))" by simp
  have paths: "a_path a \<in> set (round_paths rid (wdb w)) \<longleftrightarrow> a_round a = rid" if a: "a \<in> set (artifacts (wdb w))" for a
  proof
    assume "a_path a \<in> set (round_paths rid (wdb w))"
    then obtain b where "b \<in> set (artifacts (wdb w))" "a_round b = rid" "a_path b = a_path a"
      by (auto simp: round_paths_def)
    with a distinct_key_unique [OF keys_okD(4) [OF inv(1)], of a b] show "a_round a = rid" by simp
  qed (use a in \<open>auto simp: round_paths_def\<close>)
  have "tracked (a_sha env) (removed rid w)"
    unfolding tracked_def
  proof (intro conjI ballI allI impI)
    have "dom (wfiles (removed rid w)) = dom (wfiles w) - set (round_paths rid (wdb w))"
      by (auto simp: removed_def dom_def)
    also have "\<dots> = a_path ` set (artifacts (wdb w)) - set (round_paths rid (wdb w))"
      using track by (simp add: tracked_def)
    also have "\<dots> = a_path ` set (artifacts (wdb (removed rid w)))"
      using paths by (auto simp: removed_def purged_tables)
    finally show "dom (wfiles (removed rid w)) = a_path ` set (artifacts (wdb (removed rid w)))" .
  next
    fix a c assume "a \<in> set (artifacts (wdb (removed rid w)))" "wfiles (removed rid w) (a_path a) = Some c"
    with track show "hexdigest (a_sha env) c = a_digest a" "length c = a_size a"
      by (auto simp: removed_def purged_tables tracked_def split: if_splits)
  qed
  moreover have "vetted env (removed rid w)"
    unfolding vetted_def
  proof (intro conjI ballI allI impI)
    fix a assume a: "a \<in> set (artifacts (wdb (removed rid w)))" "a_type a = ''update''"
    then have kept: "a \<in> set (artifacts (wdb w))" "a_round a \<noteq> rid" by (simp_all add: removed_def purged_tables)
    with vet a(2) obtain r where r: "round_of (a_round a) (wdb w) = Some r"
      "validate_safetensors env (a_path a) (model_schema_json r) (wfiles w) = Inr ()" by (auto simp: vetted_def)
    have "wfiles (removed rid w) (a_path a) = wfiles w (a_path a)"
      using paths [OF kept(1)] kept(2) by (simp add: removed_def)
    with r kept(2) validate_file [of "wfiles (removed rid w)" "a_path a" "wfiles w" "a_path a"]
    show "\<exists>r. round_of (a_round a) (wdb (removed rid w)) = Some r \<and>
        validate_safetensors env (a_path a) (model_schema_json r) (wfiles (removed rid w)) = Inr ()"
      by (intro exI [of _ r]) (simp add: removed_def round_of_purged)
  next
    fix p tag assume "p \<in> set (participants (wdb (removed rid w)))" "p_integrity_tag p = Some tag"
    with vet show "tag_acceptable tag" by (auto simp: removed_def purged_tables vetted_def)
  qed
  ultimately show "sound env (removed rid w)" using reach' by (simp add: sound_def removed_def)
qed

section \<open>The loop\<close>

lemma removed_paths: "q \<noteq> rid \<Longrightarrow> round_paths q (wdb (removed rid w)) = round_paths q (wdb w)"
  by (auto simp: round_paths_def removed_def purged_tables intro!: arg_cong [where f = "map a_path"] filter_delete_where)

lemma purge_loop_ok:
  assumes "sound env w" "distinct (map round_id rs)" "\<And>i. scan \<le> t i"
    and "\<forall>r\<in>set rs. round_of (round_id r) (wdb w) = Some r \<and> purgeable scan r"
  shows "purge_loop t (map (\<lambda>r. (round_id r, round_paths (round_id r) (wdb w))) rs) n w
      = (Inr (n + length rs), fold removed (map round_id rs) w) \<and> sound env (fold removed (map round_id rs) w)"
  using assms
proof (induction rs arbitrary: w n t)
  case (Cons r rs)
  let ?rid = "round_id r"
  let ?w = "removed ?rid w"
  have r: "round_of ?rid (wdb w) = Some r" "purgeable (t 0) r"
    using Cons.prems(4) Cons.prems(3) [of 0] by (auto simp: purgeable_def)
  note turn = removed_sound [OF Cons.prems(1) r]
  have others: "round_id q \<noteq> ?rid" if "q \<in> set rs" for q
    using Cons.prems(2) that by (auto dest: image_eqI [of "round_id r" round_id q "set rs", OF sym])
  have paths: "map (\<lambda>q. (round_id q, round_paths (round_id q) (wdb ?w))) rs
      = map (\<lambda>q. (round_id q, round_paths (round_id q) (wdb w))) rs"
    using others by (simp add: removed_paths)
  have "purge_loop (\<lambda>i. t (i + 1)) (map (\<lambda>q. (round_id q, round_paths (round_id q) (wdb ?w))) rs) (n + 1) ?w
      = (Inr (n + 1 + length rs), fold removed (map round_id rs) ?w) \<and> sound env (fold removed (map round_id rs) ?w)"
  proof (rule Cons.IH [OF turn(2)])
    show "\<forall>q\<in>set rs. round_of (round_id q) (wdb ?w) = Some q \<and> purgeable scan q"
      using Cons.prems(4) others by (auto simp: removed_def round_of_purged)
  qed (use Cons.prems(2,3) in auto)
  then show ?case
    using turn(1) unfolding paths
    by (simp add: call_def delete_paths_eq on_db_def removed_def [of _ w])
qed simp

lemma removed_all:
  "wdb (fold removed rids w) = fold purged rids (wdb w)"
  "wfiles (fold removed rids w) p = (if \<exists>a\<in>set (artifacts (wdb w)). a_path a = p \<and> a_round a \<in> set rids
     then None else wfiles w p)"
proof (induction rids arbitrary: w)
  case (Cons rid rids)
  {
    case 1
    show ?case using Cons(1) [of "removed rid w"] by (simp add: removed_def)
  next
    case 2
    show ?case using Cons(2) [of "removed rid w"] by (auto simp: removed_def purged_tables round_paths_def)
  }
qed simp_all

lemma purged_keeps_clear: "no_trace rid s \<Longrightarrow> no_trace rid (purged q s)"
  by (auto simp: no_trace_def purged_def round_exists_def list_ex_iff participants_of_def tasks_of_def plans_of_def
      deps_of_def task_receipts_of_def finals_of_def receipts_of_def filter_empty_conv)

lemma all_purged:
  "rid \<in> set rids \<Longrightarrow> no_trace rid (fold purged rids s)"
  "q \<notin> set rids \<Longrightarrow> same_round (set rids) q s (fold purged rids s)"
proof (induction rids arbitrary: s)
  case (Cons r rids)
  {
    case 1
    have "no_trace rid s \<Longrightarrow> no_trace rid (fold purged qs s)" for qs s
      by (induction qs arbitrary: s) (auto intro: purged_keeps_clear)
    with 1 Cons(1) purged_no_trace show ?case by (cases "rid = r") auto
  next
    case 2
    then have "same_round {r} q s (purged r s)" "same_round (set rids) q (purged r s) (fold purged rids (purged r s))"
      using purged_same_round Cons(2) by simp_all
    then have "same_round (set (r # rids)) q s (purged r s)"
      "same_round (set (r # rids)) q (purged r s) (fold purged rids (purged r s))"
      by (auto elim!: same_round_gone)
    then show ?case unfolding fold_Cons comp_apply by (rule same_round_trans)
  }
qed (simp_all add: same_round_def same_tables_def same_jobs_def)

text \<open>What a removal of some rounds does to the rows and files of each round.\<close>

lemma removed_rounds:
  assumes keys: "keys_ok (wdb w)" and r: "r \<in> set (rounds (wdb w))"
    and w': "w' = fold removed (map round_id (filter P (rounds (wdb w)))) w"
  shows "if P r
    then no_trace (round_id r) (wdb w') \<and>
      (\<forall>a\<in>set (artifacts (wdb w)). a_round a = round_id r \<longrightarrow> wfiles w' (a_path a) = None)
    else same_round (round_id ` {q \<in> set (rounds (wdb w)). P q}) (round_id r) (wdb w) (wdb w') \<and>
      (\<forall>a\<in>set (artifacts (wdb w)). a_round a = round_id r \<longrightarrow> wfiles w' (a_path a) = wfiles w (a_path a))"
proof -
  let ?rids = "map round_id (filter P (rounds (wdb w)))"
  have unique: "r = q" if "q \<in> set (rounds (wdb w))" "round_id r = round_id q" for q
    using distinct_key_unique [OF keys_okD(1) [OF keys] r that(1)] that(2) by blast
  have paths: "a = b" if "a \<in> set (artifacts (wdb w))" "b \<in> set (artifacts (wdb w))" "a_path a = a_path b" for a b
    using distinct_key_unique [OF keys_okD(4) [OF keys] that(1,2)] that(3) by blast
  have db: "wdb w' = fold purged ?rids (wdb w)" unfolding w' by (rule removed_all(1))
  have files: "wfiles w' (a_path a) = (if a_round a \<in> set ?rids then None else wfiles w (a_path a))"
    if "a \<in> set (artifacts (wdb w))" for a
  proof -
    have "(\<exists>b\<in>set (artifacts (wdb w)). a_path b = a_path a \<and> a_round b \<in> set ?rids) \<longleftrightarrow> a_round a \<in> set ?rids"
      using paths [OF that] that by metis
    then show ?thesis by (simp add: w' removed_all(2) del: set_map)
  qed
  show ?thesis
  proof (cases "P r")
    case True
    with r have "round_id r \<in> set ?rids" by simp
    with True all_purged(1) db files show ?thesis by simp
  next
    case False
    with r unique have out: "round_id r \<notin> set ?rids" by auto
    have "set ?rids = round_id ` {q \<in> set (rounds (wdb w)). P q}" by auto
    with all_purged(2) [OF out, of "wdb w"] db
    have "same_round (round_id ` {q \<in> set (rounds (wdb w)). P q}) (round_id r) (wdb w) (wdb w')" by simp
    with False files out show ?thesis by simp
  qed
qed

end
