(* ===== verification/Server.thy ===== *)
theory Server
  imports Maintenance
begin

text \<open>
  The whole server: its starts, requests, worker runs and maintenance, in any order, on one world. Identifiers
  of new objects are fresh, as those of \<open>uuid4\<close> are, and the clock of the purge does not run behind the one
  of the scan before it.
\<close>

section \<open>Actions\<close>

type_synonym federations = "(string \<times> string \<times> (string \<times> string) list) list"

text \<open>
  \<open>initialize\<close> with the attempts that are left: SQLite may interrupt an attempt, after \<open>k\<close> members have been
  written, with an \<open>OperationalError\<close> of some text; \<open>interrupted\<close> tells which attempts. The enrolment starts over
  while the text speaks of a lock and attempts are left. Sleeping between attempts has no effect on the stores.
\<close>

definition lower :: "char \<Rightarrow> char" where
  "lower c = (let n = of_char c :: nat in if 65 \<le> n \<and> n \<le> 90 then char_of (n + 32) else c)"

definition speaks_of_lock :: "string \<Rightarrow> bool" where
  "speaks_of_lock message \<longleftrightarrow> list_ex (\<lambda>i. take 6 (drop i (map lower message)) = ''locked'') [0..<length message]"

fun initialize :: "(bytes \<Rightarrow> bytes) \<Rightarrow> (nat \<Rightarrow> (nat \<times> string) option) \<Rightarrow> federations \<Rightarrow> nat \<Rightarrow> (db, unit) tx" where
  "initialize sha interrupted federations 0 = ret ()"
| "initialize sha interrupted federations (Suc left) =
     (case interrupted (19 - left) of
        None \<Rightarrow> initialize_once sha federations
      | Some (k, message) \<Rightarrow>
          call (initialize_once sha (take k federations)) (\<lambda>_.
          if \<not> speaks_of_lock message \<or> left = 0 then throw (OperationalError message)
          else initialize sha interrupted federations left))"

text \<open>What \<open>lifespan\<close> of \<open>app/main.py\<close> and \<open>main\<close> of the worker do to the stores before anything else.\<close>

definition start :: "api_env \<Rightarrow> (nat \<Rightarrow> (nat \<times> string) option) \<Rightarrow> federations \<Rightarrow> (world, unit) tx" where
  "start env interrupted federations = on_db (initialize (a_sha env) interrupted federations 20)"

datatype server_action =
    Start "nat \<Rightarrow> (nat \<times> string) option" federations
  | Request api_request
  | Worker_Run real "string \<Rightarrow> real" "nat \<Rightarrow> real" real string string
  | Maintain real "string \<Rightarrow> real" real "nat \<Rightarrow> real"

text \<open>Only the effect of an action counts here.\<close>

fun act :: "api_env \<Rightarrow> worker_env \<Rightarrow> server_action \<Rightarrow> world \<Rightarrow> world" where
  "act env wenv (Start interrupted federations) w = snd (start env interrupted federations w)"
| "act env wenv (Request req) w = snd (serve env req w)"
| "act env wenv (Worker_Run now tnow t tfail token oid) w = snd (run_once wenv now tnow t tfail token oid w)"
| "act env wenv (Maintain now tnow scan t) w = snd (run_maintenance now tnow scan t w)"

fun proper :: "api_env \<Rightarrow> server_action \<Rightarrow> world \<Rightarrow> bool" where
  "proper env (Start interrupted federations) w = True"
| "proper env (Request req) w = fresh (store_root env) (fresh_object req) (wfiles w)"
| "proper env (Worker_Run now tnow t tfail token oid) w = fresh (store_root env) oid (wfiles w)"
| "proper env (Maintain now tnow scan t) w = (\<forall>i. scan \<le> t i)"

definition new_world :: world where
  "new_world = \<lparr>wdb = empty_db, wfiles = (\<lambda>_. None)\<rparr>"

text \<open>The worlds that a server brings about which finds the world \<open>w0\<close>.\<close>

inductive operated :: "api_env \<Rightarrow> worker_env \<Rightarrow> world \<Rightarrow> world \<Rightarrow> bool" for env wenv w0 where
  found: "operated env wenv w0 w0"
| acts: "operated env wenv w0 w \<Longrightarrow> proper env a w \<Longrightarrow> operated env wenv w0 (act env wenv a w)"

inductive_cases operatedE: "operated env wenv w0 w"

section \<open>Every action keeps the world sound\<close>

text \<open>The enrolment writes members only, and leads from reachable databases to reachable ones.\<close>

definition enrols :: "(bytes \<Rightarrow> bytes) \<Rightarrow> db \<Rightarrow> db \<Rightarrow> bool" where
  "enrols sha s s' \<longleftrightarrow> members_only s s' \<and> (reachable sha s \<longrightarrow> reachable sha s')"

interpretation enrolment: effect_contract "enrols sha" for sha
  by unfold_locales (auto simp: enrols_def intro: enrolling.refl enrolling.trans)

lemma initialize_once_enrols: "guarantees (enrols sha) (initialize_once sha federations)"
  unfolding guarantees_def enrols_def
proof (intro allI conjI impI)
  fix s
  obtain v s' where run: "initialize_once sha federations s = (v, s')" by fastforce
  show "members_only s (snd (initialize_once sha federations s))" using guaranteesD [OF initialize_members run] run by simp
  show "reachable sha (snd (initialize_once sha federations s))" if "reachable sha s"
    using reachable.enrolled [OF that run] run by simp
qed

lemma initialize_enrols: "guarantees (enrols sha) (initialize sha interrupted federations n)"
  by (induction n) (auto intro!: enrolment.flow initialize_once_enrols simp del: ret_apply split: option.split)

lemma calm_start: "guarantees (calm (a_sha env)) (start env interrupted federations)"
  unfolding guarantees_def
proof
  fix w :: world
  obtain v s where s: "initialize (a_sha env) interrupted federations 20 (wdb w) = (v, s)" by fastforce
  from guaranteesD [OF initialize_enrols s] obtain ms where ms: "s = members_of_update (\<lambda>_. ms) (wdb w)"
    and reach: "reachable (a_sha env) (wdb w) \<longrightarrow> reachable (a_sha env) s"
    by (auto simp: enrols_def members_only_def)
  have "snd (start env interrupted federations w) = w\<lparr>wdb := s\<rparr>" using s by (simp add: start_def on_db_def)
  with reach show "calm (a_sha env) w (snd (start env interrupted federations w))"
    unfolding calm_def ms by (simp add: quiet_same rounds_progress_same)
qed

lemma run_maintenance_ok:
  assumes "sound env w" "\<And>i. scan \<le> t i"
  shows "\<exists>n s. expire_rounds now None tnow (wdb w) = (Inr n, s) \<and>
    run_maintenance now tnow scan t w = (Inr (length (filter (purgeable scan) (rounds s))),
      fold removed (map round_id (filter (purgeable scan) (rounds s))) (w\<lparr>wdb := s\<rparr>)) \<and>
    sound env (w\<lparr>wdb := s\<rparr>) \<and>
    sound env (fold removed (map round_id (filter (purgeable scan) (rounds s))) (w\<lparr>wdb := s\<rparr>))"
proof -
  have keys: "keys_ok (wdb w)"
    using assms(1) invariantD(1) reachable_invariant by (auto simp: sound_def)
  from expire_rounds_ok [OF keys] obtain n s where s: "expire_rounds now None tnow (wdb w) = (Inr n, s)" by blast
  let ?w = "w\<lparr>wdb := s\<rparr>" and ?due = "filter (purgeable scan) (rounds s)"
  have on: "on_db (expire_rounds now None tnow) w = (Inr n, ?w)" using s by (simp add: on_db_def)
  have sd: "sound env ?w" by (rule sound_calm [OF assms(1) guaranteesD [OF calm_calls(12) on]])
  then have keys': "keys_ok s" using invariantD(1) reachable_invariant by (auto simp: sound_def)
  have scan: "retention_candidates scan None s = map (\<lambda>r. (round_id r, round_paths (round_id r) s)) ?due"
  proof -
    have "(\<lambda>r. retention_at r \<le> scan \<and> status r \<in> {COMPLETED, FAILED, ABORTED, EXPIRED}) = purgeable scan"
      by (auto simp: purgeable_def)
    then show ?thesis by (simp add: retention_candidates_def round_paths_def Let_def)
  qed
  have "purge_loop t (map (\<lambda>r. (round_id r, round_paths (round_id r) (wdb ?w))) ?due) 0 ?w
      = (Inr (0 + length ?due), fold removed (map round_id ?due) ?w) \<and> sound env (fold removed (map round_id ?due) ?w)"
  proof (rule purge_loop_ok [OF sd])
    show "distinct (map round_id ?due)" using keys_okD(1) [OF keys'] by (rule distinct_map_filter)
    show "\<forall>r\<in>set ?due. round_of (round_id r) (wdb ?w) = Some r \<and> purgeable scan r"
      using round_of_unique [OF keys'] by simp
  qed (use assms(2) in auto)
  with s sd show ?thesis
    by (intro exI [of _ n] exI [of _ s]) (simp add: run_maintenance_def call_def on_db_def scan)
qed

lemma act_sound:
  assumes "attached env wenv" "sound env w" "proper env a w"
  shows "sound env (act env wenv a w)"
proof (cases a)
  case (Start interrupted federations)
  have "calm (a_sha env) w (snd (start env interrupted federations w))" using calm_start by (simp add: guarantees_def)
  with Start sound_calm [OF assms(2)] show ?thesis by simp
next
  case (Request req)
  obtain res w' where run: "serve env req w = (res, w')" by fastforce
  from assms(3) Request have fresh: "fresh (store_root env) (fresh_object req) (wfiles w)" by simp
  with serve_served [OF fresh run] sound_calm [OF assms(2)] sound_deposit [OF assms(2)] run Request
  show ?thesis by (auto simp: served_def fresh_def)
next
  case (Worker_Run now tnow t tfail token oid)
  obtain res w' where run: "run_once wenv now tnow t tfail token oid w = (res, w')" by fastforce
  from assms(3) Worker_Run have fresh: "fresh (store_root env) oid (wfiles w)" by simp
  with run_once_ended [OF assms(1) fresh run] sound_calm [OF assms(2)] sound_deposit [OF assms(2)] run Worker_Run
  show ?thesis by (auto simp: ended_def fresh_def)
next
  case (Maintain now tnow scan t)
  with assms(3) have "scan \<le> t i" for i by simp
  from run_maintenance_ok [where t = t and now = now and tnow = tnow, OF assms(2) this] Maintain show ?thesis by auto
qed

lemma new_world_sound: "sound env new_world"
  by (simp add: sound_def tracked_def vetted_def new_world_def reachable.empty) (simp add: empty_db_def)

lemma operated_sound:
  assumes "attached env wenv" "sound env w0" "operated env wenv w0 w"
  shows "sound env w"
  using assms(3)
proof (induction rule: operated.induct)
  case found
  show ?case by (rule assms(2))
next
  case acts
  then show ?case by (simp add: act_sound [OF assms(1)])
qed

end
