(* ===== verification/Publication.thy ===== *)
theory Publication
  imports Server
begin

text \<open>
  The worker gets its work done: on a sound world a run that claims a job accepts every stored update, and
  publishes their sum. What the upload checked is what the worker asks for.
\<close>

section \<open>Tags\<close>

lemma from_hex_no_sign: "from_hex s = Some bs \<Longrightarrow> CHR ''-'' \<notin> set s"
  by (induction s arbitrary: bs rule: from_hex.induct)
    (auto simp: hex_space_def hex_value_def Let_def split: if_splits option.splits)

lemma hex_run_nonneg: "0 \<le> acc \<Longrightarrow> hex_run after acc s = Some n \<Longrightarrow> 0 \<le> n"
  by (induction after acc s rule: hex_run.induct) (auto split: if_splits option.splits)

lemma strip_subset: "set (strip s) \<subseteq> set s"
  by (auto simp: strip_def dest!: set_dropWhileD)

lemma tag_acceptable_read:
  assumes "tag_acceptable tag"
  shows "\<exists>n. read_tag repr (Some tag) = Inr n"
proof -
  from assms obtain bs n where tag: "from_hex tag = Some bs" "int_base16 tag = Some n" "n < FIELD_PRIME"
    by (auto simp: tag_acceptable_def split: option.splits)
  have "0 \<le> n"
  proof (cases "strip tag")
    case Nil
    with tag(2) show ?thesis by (simp add: int_base16_def)
  next
    case (Cons c cs)
    with strip_subset [of tag] from_hex_no_sign [OF tag(1)] have "c \<noteq> CHR ''-''" by auto
    with Cons tag(2) hex_run_nonneg [of 0] show ?thesis by (auto simp: int_base16_def split: if_splits)
  qed
  with tag(2,3) show ?thesis by (simp add: read_tag_def)
qed

section \<open>Checked updates\<close>

text \<open>Both readers of the tensor format agree, and give each name once.\<close>

definition same_reader :: "api_env \<Rightarrow> worker_env \<Rightarrow> bool" where
  "same_reader env wenv \<longleftrightarrow> (\<forall>c. load_file wenv c = safe_open env c) \<and> distinct_names wenv"

lemma expected_name: "expected_entries schema name = Some e \<Longrightarrow> tensor_name e = name"
  by (auto simp: expected_entries_def dest!: map_of_SomeD)

lemma validate_ok:
  assumes "validate_safetensors env path schema fs = Inr ()"
  obtains c ts where "fs path = Some c" "safe_open env c = Inr ts" "set (map fst ts) = set (expected_names schema)"
    "\<And>name. name \<in> set (expected_names schema) \<Longrightarrow> \<exists>e. expected_entries schema name = Some e \<and> tensor_matches ts e"
proof -
  from assms obtain c ts where ts: "fs path = Some c" "safe_open env c = Inr ts"
    "set (map fst ts) = set (expected_names schema)"
    "list_all (\<lambda>name. case expected_entries schema name of None \<Rightarrow> False | Some e \<Rightarrow> tensor_matches ts e)
       (expected_names schema)"
    by (simp add: validate_safetensors_def split: option.splits sum.splits if_splits)
  show thesis
  proof (rule that [OF ts(1-3)])
    fix name assume "name \<in> set (expected_names schema)"
    with ts(4) show "\<exists>e. expected_entries schema name = Some e \<and> tensor_matches ts e"
      by (cases "expected_entries schema name") (auto simp: list_all_iff)
  qed
qed

lemma validated_tensors:
  assumes "distinct (map fst ts)" "set (map fst ts) = set (expected_names schema)"
    and "\<And>name. name \<in> set (expected_names schema) \<Longrightarrow> \<exists>e. expected_entries schema name = Some e \<and> tensor_matches ts e"
  shows "check_tensors schema ts = Inr ()"
proof -
  have "\<not> bad_tensor schema (name, t)" if "(name, t) \<in> set ts" for name t
  proof -
    have "name \<in> set (map fst ts)" using that by force
    then have "name \<in> set (expected_names schema)" unfolding assms(2) .
    from assms(3) [OF this] obtain e where e: "expected_entries schema name = Some e" "tensor_matches ts e" by blast
    have "map_of ts (tensor_name e) = Some t"
      using that assms(1) by (simp add: expected_name [OF e(1)])
    with e show ?thesis by (simp add: bad_tensor_def tensor_matches_def)
  qed
  with assms(2) show ?thesis by (auto simp: check_tensors_def list_ex_iff)
qed

lemma vetted_accepted:
  assumes "same_reader env wenv" "w_sha wenv = a_sha env" "tracked (a_sha env) w" "vetted env w"
    and "a \<in> set (artifacts (wdb w))" "a_type a = ''update''" "round_of (a_round a) (wdb w) = Some r"
    and "p \<in> set (participants (wdb w))" "p_integrity_tag p = Some tag"
  shows "\<exists>part. accepted wenv (model_schema_json r) (wfiles w) (a, Some tag) part"
proof -
  have "validate_safetensors env (a_path a) (model_schema_json r) (wfiles w) = Inr ()"
    using assms(4-7) by (auto simp: vetted_def)
  then obtain c ts where ts: "wfiles w (a_path a) = Some c" "safe_open env c = Inr ts"
    "set (map fst ts) = set (expected_names (model_schema_json r))"
    "\<And>name. name \<in> set (expected_names (model_schema_json r)) \<Longrightarrow>
       \<exists>e. expected_entries (model_schema_json r) name = Some e \<and> tensor_matches ts e"
    by (rule validate_ok) blast
  have "distinct (map fst ts)" "load_file wenv c = Inr ts"
    using assms(1) ts(2) by (auto simp: same_reader_def distinct_names_def)
  moreover have "hexdigest (w_sha wenv) c = a_digest a" using assms(2,3,5) ts(1) by (auto simp: tracked_def)
  moreover obtain n where "read_tag (w_repr wenv) (Some tag) = Inr n"
    using tag_acceptable_read assms(4,8,9) by (fastforce simp: vetted_def)
  ultimately show ?thesis
    using ts validated_tensors [OF _ ts(3,4)] by (intro exI [of _ "(ts, n)"]) (simp add: accepted_def)
qed

section \<open>Leases\<close>

definition lease_key :: "job_row \<Rightarrow> string \<times> string \<times> job_state \<times> string option" where
  "lease_key j = (j_id j, j_round j, j_state j, j_claim_token j)"

text \<open>Renewals change nothing but leases.\<close>

definition leased :: "world \<Rightarrow> world \<Rightarrow> bool" where
  "leased w w' \<longleftrightarrow> (\<exists>js. w' = w\<lparr>wdb := jobs_update (\<lambda>_. js) (wdb w)\<rparr> \<and> map lease_key js = map lease_key (jobs (wdb w)))"

lemma leased_refl: "leased w w"
  unfolding leased_def by (rule exI [of _ "jobs (wdb w)"]) simp

lemma leased_trans: "leased w w1 \<Longrightarrow> leased w1 w2 \<Longrightarrow> leased w w2"
  by (auto simp: leased_def)

definition held :: "string \<Rightarrow> string \<Rightarrow> world \<Rightarrow> bool" where
  "held job_id token w \<longleftrightarrow> count_where (owned job_id token) (jobs (wdb w)) = 1"

lemma count_lease_key:
  "map lease_key js = map lease_key ks \<Longrightarrow> count_where (owned job_id token) js = count_where (owned job_id token) ks"
proof (induction js arbitrary: ks)
  case (Cons j js)
  then obtain k ks' where k: "ks = k # ks'" "lease_key j = lease_key k" "map lease_key js = map lease_key ks'"
    by (cases ks) auto
  have "owned job_id token j = owned job_id token k" using k(2) by (simp add: owned_def lease_key_def)
  then show ?case unfolding k(1) count_where_Cons Cons.IH [OF k(3)] by simp
qed simp

lemma leased_held: "leased w w' \<Longrightarrow> held job_id token w \<Longrightarrow> held job_id token w'"
proof -
  assume "leased w w'" and held: "held job_id token w"
  then obtain js where js: "w' = w\<lparr>wdb := jobs_update (\<lambda>_. js) (wdb w)\<rparr>" "map lease_key js = map lease_key (jobs (wdb w))"
    unfolding leased_def by blast
  have "count_where (owned job_id token) js = 1"
    using held unfolding count_lease_key [OF js(2)] held_def .
  then show ?thesis by (simp add: js(1) held_def)
qed

lemma renew_runs:
  assumes "held job_id token w" "0 < lease"
  shows "\<exists>w'. on_db (renew_job now job_id token lease) w = (Inr (), w') \<and> leased w w'"
proof -
  let ?f = "\<lambda>j. j\<lparr>j_lease_until := Some (now + lease)\<rparr>"
  let ?js = "update_where (owned job_id token) ?f (jobs (wdb w))"
  have run: "renew_job now job_id token lease (wdb w) = (Inr (), jobs_update (update_where (owned job_id token) ?f) (wdb w))"
    using assms by (simp add: renew_job_def transaction_def held_def exec_def always_def)
  have same: "jobs_update (update_where (owned job_id token) ?f) (wdb w) = jobs_update (\<lambda>_. ?js) (wdb w)"
    by (cases "wdb w") simp
  have "map lease_key ?js = map lease_key (jobs (wdb w))"
    by (simp add: update_where_def lease_key_def)
  then have "leased w (w\<lparr>wdb := jobs_update (\<lambda>_. ?js) (wdb w)\<rparr>)" unfolding leased_def by blast
  then show ?thesis unfolding on_db_def run same by simp
qed

section \<open>The loop succeeds\<close>

lemma add_update_runs:
  assumes "check_tensors schema ts = Inr ()" "case agg of None \<Rightarrow> True
     | Some g \<Rightarrow> distinct (map fst g) \<and> set (map fst g) = set (expected_names schema)" "distinct (map fst ts)"
  shows "\<exists>g. add_update agg ts = Inr g \<and> distinct (map fst g) \<and> set (map fst g) = set (expected_names schema)"
proof (cases agg)
  case None
  with assms show ?thesis by (auto simp: add_update_def check_tensors_ok)
next
  case (Some g)
  then have g: "distinct (map fst g)" "set (map fst g) = set (expected_names schema)" using assms(2) by simp_all
  have "set (map fst ts) = set (map fst g)" using assms(1) unfolding check_tensors_ok g(2) by (rule conjunct1)
  from add_update_ok [OF g(1) this] obtain g' where "add_update (Some g) ts = Inr g'" "map fst g' = map fst g" by blast
  with g Some show ?thesis by (intro exI [of _ g']) (simp only: simp_thms)
qed

lemma loop_runs:
  assumes "distinct_names wenv" "0 < lease_seconds wenv"
    and "\<forall>input\<in>set inputs. \<exists>part. accepted wenv schema (wfiles w) input part" "held job_id token w"
    and "case agg of None \<Rightarrow> True | Some g \<Rightarrow> distinct (map fst g) \<and> set (map fst g) = set (expected_names schema)"
  shows "\<exists>agg' tag' w'. aggregate_loop wenv t job_id token schema inputs agg tag w = (Inr (agg', tag'), w') \<and> leased w w'"
  using assms(3-5)
proof (induction inputs arbitrary: t agg tag w)
  case Nil
  then show ?case using leased_refl by auto
next
  case (Cons input inputs)
  obtain a itag where input: "input = (a, itag)" by (cases input)
  from Cons.prems(1) input obtain ts v where acc: "accepted wenv schema (wfiles w) (a, itag) (ts, v)" by fastforce
  from acc obtain c where c: "wfiles w (a_path a) = Some c" "hexdigest (w_sha wenv) c = a_digest a"
    "load_file wenv c = Inr ts" "check_tensors schema ts = Inr ()" "read_tag (w_repr wenv) itag = Inr v"
    by (auto simp: accepted_def)
  obtain w1 where w1: "on_db (renew_job (t 0) job_id token (lease_seconds wenv)) w = (Inr (), w1)" "leased w w1"
    using renew_runs [OF Cons.prems(2) assms(2)] by blast
  have files: "wfiles w1 = wfiles w" using w1(2) by (auto simp: leased_def)
  have "distinct (map fst ts)" using assms(1) c(3) by (auto simp: distinct_names_def)
  from add_update_runs [OF c(4) Cons.prems(3) this] obtain g where g: "add_update agg ts = Inr g"
    "distinct (map fst g)" "set (map fst g) = set (expected_names schema)" by blast
  have "\<exists>agg' tag' w'. aggregate_loop wenv (\<lambda>i. t (i + 1)) job_id token schema inputs (Some g)
      ((tag + v) mod FIELD_PRIME) w1 = (Inr (agg', tag'), w') \<and> leased w1 w'"
    by (rule Cons.IH) (use Cons.prems(1) files leased_held [OF w1(2) Cons.prems(2)] g(2,3) in auto)
  then obtain agg' tag' w' where rest: "aggregate_loop wenv (\<lambda>i. t (i + 1)) job_id token schema inputs (Some g)
      ((tag + v) mod FIELD_PRIME) w1 = (Inr (agg', tag'), w')" "leased w1 w'" by blast
  have "aggregate_loop wenv t job_id token schema (input # inputs) agg tag w = (Inr (agg', tag'), w')"
    using w1(1) files c g(1) rest(1)
    by (simp add: input call_def file_digest_eq load_artifact_def)
  with leased_trans [OF w1(2) rest(2)] show ?case by blast
qed

section \<open>Publishing\<close>

lemma tag_hex_runs:
  assumes "0 \<le> tag" "tag < FIELD_PRIME"
  shows "\<exists>bs. tag_hex tag = Inr (hex bs) \<and> length bs = 16 \<and> int_from_bytes_big bs = tag"
proof -
  have "tag < 256 ^ 16" using assms(2) by (simp add: FIELD_PRIME_def)
  then obtain bs where bs: "int_to_bytes_big 16 tag = Inr bs"
    using assms(1) by (cases "int_to_bytes_big 16 tag") (auto simp: int_to_bytes_big_def split: if_splits)
  then have "length bs = 16" by (auto simp: int_to_bytes_big_def split: if_splits)
  with bs from_to_bytes [OF bs] show ?thesis by (intro exI [of _ bs]) (simp add: tag_hex_def)
qed

text \<open>The tag of a result is itself an acceptable tag.\<close>

lemma tag_hex_acceptable:
  assumes "tag_hex tag = Inr text" "tag < FIELD_PRIME"
  shows "tag_acceptable text" "int_base16 text = Some tag" "length text = 32"
proof -
  from assms(1) obtain bs where bs: "int_to_bytes_big 16 tag = Inr bs" "text = hex bs"
    by (auto simp: tag_hex_def attempt_Inr)
  then have len: "length bs = 16" by (auto simp: int_to_bytes_big_def split: if_splits)
  then have "bs \<noteq> []" by auto
  from int_base16_hex [OF this] from_to_bytes [OF bs(1)] show number: "int_base16 text = Some tag" by (simp add: bs(2))
  show "length text = 32" by (simp add: bs(2) len)
  show "tag_acceptable text" using number assms(2) len by (simp add: tag_acceptable_def bs(2))
qed

lemma complete_job_runs:
  assumes "keys_ok s" "round_of rid s = Some r" "status r = AGGREGATING"
    and "j \<in> set (jobs s)" "owned job_id token j" "j_round j = rid"
    and "\<forall>a\<in>set (artifacts s). a_id a \<noteq> object_id stored \<and> a_path a \<noteq> stored_path stored"
    and "\<forall>a\<in>set (artifacts s). a_round a = rid \<longrightarrow> a_type a \<noteq> ''result''"
  shows "\<exists>s'. complete_job now tnow job_id rid token stored tag s = (Inr (), s') \<and>
    result rid s' = Some (artifact_for stored rid None ''result'' now, tag) \<and>
    round_of rid s' = Some (advance tnow RESULT_READY ''AGGREGATION_COMPLETED'' None r)"
proof -
  let ?a = "artifact_for stored rid None ''result'' now"
  let ?s1 = "artifacts_update (\<lambda>as. as @ [?a]) s"
  let ?P = "\<lambda>k. j_id k = job_id \<and> j_claim_token k = Some token"
  let ?f = "\<lambda>k. k\<lparr>j_state := JOB_COMPLETED, j_lease_until := None, j_claim_token := None,
     j_result_tag := Some tag, j_last_error := None\<rparr>"
  let ?ev = "event rid ''worker'' ''AGGREGATION_COMPLETED'' (Some (state_version r + 1)) tnow None"
  let ?s' = "jobs_update (update_where ?P ?f)
    (logged [?ev] (advanced tnow rid RESULT_READY ''AGGREGATION_COMPLETED'' None ?s1))"
  note keys = keys_okD(1,6,7) [OF assms(1)]
  have none: "fetchone (\<lambda>a. a_round a = rid \<and> a_type a = ''result'') (artifacts s) = None"
    using assms(8) by (auto simp: find_None_iff)
  have insert: "insert_artifact ?a s = Inr ?s1"
    using assms(7) assms(2) by (auto simp: insert_artifact_def checked_Inr artifact_for_def list_ex_iff round_exists_iff)
  have "list_ex (\<lambda>k. owned job_id token k \<and> j_round k = rid) (jobs s)"
    using assms(4-6) by (auto simp: list_ex_iff)
  moreover have "transition tnow rid AGGREGATING RESULT_READY ''worker'' ''AGGREGATION_COMPLETED'' None ?s1
      = (Inr (), logged [?ev] (advanced tnow rid RESULT_READY ''AGGREGATION_COMPLETED'' None ?s1))"
    using assms(2,3) keys(1) by (simp add: transition_ok transition_allowed_def)
  ultimately have run: "complete_job now tnow job_id rid token stored tag s = (Inr (), ?s')"
    using none insert assms(2,3)
    by (simp add: complete_job_def transaction_def Let_def exec_def call_def always_def)
  have job: "fetchone (\<lambda>k. j_round k = rid \<and> j_state k = JOB_COMPLETED) (update_where ?P ?f (jobs s)) = Some (?f j)"
  proof -
    have at: "fetchone (\<lambda>k. j_round k = rid) (jobs s) = Some j"
      using distinct_key_find [OF keys(3) assms(4)] assms(6) by simp
    have only: "k = j" if "k \<in> set (jobs s)" "j_round k = rid" for k
      using distinct_key_unique [OF keys(3) that(1) assms(4)] that(2) assms(6) by simp
    have "fetchone (\<lambda>k. j_round k = rid \<and> j_state k = JOB_COMPLETED) (update_where ?P ?f ks) = Some (?f j)"
      if "fetchone (\<lambda>k. j_round k = rid) ks = Some j" for ks
      using that
    proof (induction ks)
      case (Cons k ks)
      show ?case
      proof (cases "j_round k = rid")
        case True
        with Cons.prems have "k = j" by simp
        with True assms(5) show ?thesis by (simp add: update_where_def owned_def)
      next
        case False
        then have "j_round (if ?P k then ?f k else k) \<noteq> rid" by simp
        with Cons False show ?thesis by (simp add: update_where_def)
      qed
    qed simp
    from this [OF at] show ?thesis .
  qed
  have "fetchone (\<lambda>a. a_round a = rid \<and> a_type a = ''result'') (artifacts s @ [?a]) = Some ?a"
    unfolding find_append none by (simp add: artifact_for_def)
  then have "result rid ?s' = Some (?a, tag)" using job by (simp add: result_def)
  moreover have "round_of rid ?s' = Some (advance tnow RESULT_READY ''AGGREGATION_COMPLETED'' None r)"
    unfolding round_of_other round_advanced using assms(2) by simp
  ultimately show ?thesis using run by blast
qed

section \<open>One run\<close>

lemma job_inputs_rows:
  "job_inputs rid s = Inr (r, inputs) \<Longrightarrow> (a, tag) \<in> set inputs \<Longrightarrow>
   a \<in> set (artifacts s) \<and> a_round a = rid \<and> a_type a = ''update''"
  by (auto simp: job_inputs_def split: option.splits)

lemma held_owned:
  assumes "jobs_fine s" "j \<in> set (jobs s)" "owned (j_id j) token j"
  shows "count_where (owned (j_id j) token) (jobs s) = 1"
proof -
  have "distinct (map j_id (jobs s))" using assms(1) by (simp add: jobs_fine_def)
  then have "\<forall>k\<in>set (jobs s). owned (j_id j) token k \<longrightarrow> k = j" "distinct (jobs s)"
    using distinct_key_unique [OF _ _ assms(2)] by (auto simp: owned_def distinct_map)
  with assms(2,3) have "filter (owned (j_id j) token) (jobs s) = [j]" by (intro filter_unique) auto
  then show ?thesis by (simp add: count_where_def)
qed

text \<open>
  What a published result is: the file holds the sums in the order of the names, the tag the sum of the tags,
  over what the loop accepted.
\<close>

definition published :: "worker_env \<Rightarrow> string \<Rightarrow> files \<Rightarrow> (artifact_row \<times> string option) list \<Rightarrow> world \<Rightarrow> bool" where
  "published wenv rid fs inputs w' \<longleftrightarrow> (\<exists>r parts g a tag.
     round_of rid (wdb w') = Some r \<and> status r = RESULT_READY \<and>
     list_all2 (accepted wenv (model_schema_json r) fs) inputs parts \<and> parts \<noteq> [] \<and>
     distinct (map fst g) \<and> set (map fst g) = set (expected_names (model_schema_json r)) \<and>
     (\<forall>n\<in>set (expected_names (model_schema_json r)).
        map_of g n = Some (summed n (the (map_of (fst (hd parts)) n)) (tl parts))) \<and>
     result rid (wdb w') = Some (a, tag) \<and> wfiles w' (a_path a) = Some (save_tensors wenv (sorted_tensors g)) \<and>
     tag_hex (sum_list (map snd parts) mod FIELD_PRIME) = Inr tag)"

lemma claimed_publishes:
  assumes sound: "sound env w" and envs: "attached env wenv" "same_reader env wenv" "0 < lease_seconds wenv"
    and job: "j \<in> set (jobs (wdb w))" "owned (j_id j) token j"
    and row: "round_of (j_round j) (wdb w) = Some r" "status r = AGGREGATING" "participants_json r \<noteq> []"
    and fresh: "fresh (store_root env) oid (wfiles w)" "\<forall>a\<in>set (artifacts (wdb w)). a_id a \<noteq> oid"
    and small: "filled wenv" "\<And>ts. shaped_tensors (model_schema_json r) ts \<Longrightarrow>
      length (save_tensors wenv ts) \<le> w_max_bytes wenv"
  shows "\<exists>w' inputs. aggregate_job wenv t oid (j_round j) (j_id j) token w = (Inr (), w') \<and>
    job_inputs (j_round j) (wdb w) = Inr (r, inputs) \<and> length inputs = expected_count r \<and>
    published wenv (j_round j) (wfiles w) inputs w'"
proof -
  let ?rid = "j_round j"
  have reach: "reachable (a_sha env) (wdb w)" and track: "tracked (a_sha env) w" and vet: "vetted env w"
    using sound by (simp_all add: sound_def)
  note inv = invariantD [OF reachable_invariant [OF reach]] and fine = reachable_jobs [OF reach]
  have b: "barriers (wdb w) r" using inv(3) round_of_in [OF row(1)] by (simp add: barriers_ok_def)
  have "reached AGGREGATING (status r)" using row(2) by (simp add: reached_def)
  from job_inputs_complete [OF inv(1,5) b row(1) this] obtain inputs where
    inputs: "job_inputs ?rid (wdb w) = Inr (r, inputs)"
      "map (\<lambda>(a, tag). the (a_client a)) inputs = sort (participants_json r)"
    and each: "\<And>a tag. (a, tag) \<in> set inputs \<Longrightarrow> tag \<noteq> None \<and>
       (\<exists>p\<in>set (participants_of ?rid (wdb w)). p_integrity_tag p = tag)" by fastforce
  have count: "length inputs = expected_count r"
    using arg_cong [OF inputs(2), of length] arg_cong [OF barriersD(1) [OF b], of length] barriersD(2) [OF b]
    by (simp only: length_map length_sort)
  have some: "inputs \<noteq> []" using arg_cong [OF inputs(2), of length] row(3) by auto
  have ready: "\<exists>part. accepted wenv (model_schema_json r) (wfiles w) input part" if "input \<in> set inputs" for input
  proof -
    obtain a itag where input: "input = (a, itag)" by (cases input)
    from each that input obtain p tag where p: "p \<in> set (participants (wdb w))" "p_integrity_tag p = Some tag" "itag = Some tag"
      by (fastforce simp: participants_of_def)
    from job_inputs_rows [OF inputs(1)] that input
    have a: "a \<in> set (artifacts (wdb w))" "a_round a = ?rid" "a_type a = ''update''" by auto
    have "w_sha wenv = a_sha env" using envs(1) by (simp add: attached_def)
    from vetted_accepted [OF envs(2) this track vet a(1,3) _ p(1,2)] row(1) a(2) input p(3) show ?thesis by simp
  qed
  have dist: "distinct_names wenv" using envs(2) by (simp add: same_reader_def)
  have held: "held (j_id j) token w" using held_owned [OF fine job] by (simp add: held_def)
  have "\<exists>agg tag w1. aggregate_loop wenv t (j_id j) token (model_schema_json r) inputs None 0 w
      = (Inr (agg, tag), w1) \<and> leased w w1"
  proof (rule loop_runs [OF dist envs(3) _ held])
    show "\<forall>input\<in>set inputs. \<exists>part. accepted wenv (model_schema_json r) (wfiles w) input part"
      by (intro ballI ready)
  qed simp
  then obtain agg tag w1 where loop: "aggregate_loop wenv t (j_id j) token (model_schema_json r) inputs None 0 w
      = (Inr (agg, tag), w1)" "leased w w1" by (elim exE conjE) (rule that)
  from loop_result [OF dist some loop(1)] obtain g parts where g: "agg = Some g"
    "list_all2 (accepted wenv (model_schema_json r) (wfiles w)) inputs parts" "distinct (map fst g)"
    "set (map fst g) = set (expected_names (model_schema_json r))"
    "\<forall>n\<in>set (expected_names (model_schema_json r)). map_of g n = Some (summed n (the (map_of (fst (hd parts)) n)) (tl parts))"
    "tag = sum_list (map snd parts) mod FIELD_PRIME" by blast
  obtain w2 where w2: "on_db (renew_job (t (length inputs)) (j_id j) token (lease_seconds wenv)) w1 = (Inr (), w2)" "leased w1 w2"
    using renew_runs [OF leased_held [OF loop(2) held] envs(3)] by blast
  from leased_trans [OF loop(2) w2(2)] obtain js where js: "w2 = w\<lparr>wdb := jobs_update (\<lambda>_. js) (wdb w)\<rparr>"
    "map lease_key js = map lease_key (jobs (wdb w))" by (auto simp: leased_def)
  let ?data = "save_tensors wenv (sorted_tensors g)"
  let ?path = "final_path (store_root env) oid"
  let ?stored = "\<lparr>object_id = oid, stored_path = ?path, stored_digest = hexdigest (a_sha env) ?data, stored_size = length ?data\<rparr>"
  let ?w3 = "w2\<lparr>wfiles := (wfiles w2)(?path \<mapsto> ?data)\<rparr>"
  have files: "wfiles w2 = wfiles w" by (simp add: js(1))
  have shaped: "shaped_tensors (model_schema_json r) (sorted_tensors g)"
    by (rule sums_shaped [OF small(1) g(2) _ g(3-5)]) (use g(2) some in auto)
  have put: "on_files (put_bytes (w_sha wenv) (w_dir wenv) (w_max_bytes wenv) oid ?data) w2 = (Inr ?stored, ?w3)"
    using envs(1) small(2) [OF shaped] fresh(1) files
    by (simp add: on_files_def put_bytes_def Let_def attached_def fresh_def fun_upd_idem not_less)
  have "0 \<le> tag" "tag < FIELD_PRIME" unfolding g(6) by (simp_all add: FIELD_PRIME_def)
  then obtain bs where tagged: "tag_hex tag = Inr (hex bs)" using tag_hex_runs by blast
  have calm2: "calm (a_sha env) w w2"
    using guaranteesD [OF calm_aggregate_loop loop(1)] guaranteesD [OF calm_calls(6) w2(1)] calm.trans by blast
  have reach2: "reachable (a_sha env) (wdb w2)" by (rule calmD(2) [OF calm2 reach])
  have "lease_key j \<in> lease_key ` set js"
    using js(2) job(1) by (metis image_eqI list.set_map)
  then obtain k where k: "k \<in> set (jobs (wdb w2))" "lease_key k = lease_key j" by (auto simp: js(1))
  then have mine: "owned (j_id j) token k" "j_round k = ?rid" "j_state k = CLAIMED"
    using job(2) by (auto simp: owned_def lease_key_def)
  have unused: "\<forall>a\<in>set (artifacts (wdb w2)). a_id a \<noteq> object_id ?stored \<and> a_path a \<noteq> stored_path ?stored"
  proof
    fix a assume a: "a \<in> set (artifacts (wdb w2))"
    then have "a_path a \<in> dom (wfiles w)" using track by (simp add: js(1) tracked_def)
    with a fresh show "a_id a \<noteq> object_id ?stored \<and> a_path a \<noteq> stored_path ?stored"
      by (auto simp: js(1) fresh_def)
  qed
  have "\<exists>s'. complete_job (t (length inputs + 1)) (t (length inputs + 2)) (j_id j) ?rid token ?stored (hex bs) (wdb w2) = (Inr (), s') \<and>
    result ?rid s' = Some (artifact_for ?stored ?rid None ''result'' (t (length inputs + 1)), hex bs) \<and>
    round_of ?rid s' = Some (advance (t (length inputs + 2)) RESULT_READY ''AGGREGATION_COMPLETED'' None r)"
  proof (rule complete_job_runs [OF _ _ row(2) k(1) mine(1,2) unused])
    show "keys_ok (wdb w2)" by (rule invariantD(1) [OF reachable_invariant [OF reach2]])
    show "round_of ?rid (wdb w2) = Some r" using row(1) by (simp add: js(1))
    show "\<forall>a\<in>set (artifacts (wdb w2)). a_round a = ?rid \<longrightarrow> a_type a \<noteq> ''result''"
      using unfinished [OF reach2 k(1) mine(3)] mine(2) by auto
  qed
  then obtain s' where fin: "complete_job (t (length inputs + 1)) (t (length inputs + 2)) (j_id j) ?rid token ?stored (hex bs) (wdb w2) = (Inr (), s')"
    "result ?rid s' = Some (artifact_for ?stored ?rid None ''result'' (t (length inputs + 1)), hex bs)"
    "round_of ?rid s' = Some (advance (t (length inputs + 2)) RESULT_READY ''AGGREGATION_COMPLETED'' None r)" by blast
  have "aggregate_job wenv t oid ?rid (j_id j) token w = (Inr (), ?w3\<lparr>wdb := s'\<rparr>)"
    unfolding aggregate_job_def Let_def
    using inputs(1) count loop(1) g(1) w2(1) put tagged fin(1) by (simp add: call_def rescue_def on_db_def [of "complete_job _ _ _ _ _ _ _"])
  moreover have "published wenv ?rid (wfiles w) inputs (?w3\<lparr>wdb := s'\<rparr>)"
    unfolding published_def
  proof (intro exI conjI)
    let ?r = "advance (t (length inputs + 2)) RESULT_READY ''AGGREGATION_COMPLETED'' None r"
    have schema: "model_schema_json ?r = model_schema_json r" using advance_frozen by (simp add: frozen_def)
    show "round_of ?rid (wdb (?w3\<lparr>wdb := s'\<rparr>)) = Some ?r" "status ?r = RESULT_READY"
      using fin(3) by (simp_all add: advance_def)
    show "list_all2 (accepted wenv (model_schema_json ?r) (wfiles w)) inputs parts" unfolding schema by (rule g(2))
    show "parts \<noteq> []" using g(2) some by auto
    show "distinct (map fst g)" by (rule g(3))
    show "set (map fst g) = set (expected_names (model_schema_json ?r))" unfolding schema by (rule g(4))
    show "\<forall>n\<in>set (expected_names (model_schema_json ?r)).
        map_of g n = Some (summed n (the (map_of (fst (hd parts)) n)) (tl parts))" unfolding schema by (rule g(5))
    show "result ?rid (wdb (?w3\<lparr>wdb := s'\<rparr>)) = Some (artifact_for ?stored ?rid None ''result'' (t (length inputs + 1)), hex bs)"
      using fin(2) by simp
    show "wfiles (?w3\<lparr>wdb := s'\<rparr>) (a_path (artifact_for ?stored ?rid None ''result'' (t (length inputs + 1)))) = Some ?data"
      by (simp add: artifact_for_def)
    show "tag_hex (sum_list (map snd parts) mod FIELD_PRIME) = Inr (hex bs)" using tagged g(6) by simp
  qed
  ultimately show ?thesis using inputs(1) count by blast
qed

lemma run_once_publishes:
  assumes sound: "sound env w" and envs: "attached env wenv" "same_reader env wenv"
    and claim: "claim_job now tnow token (lease_seconds wenv) (wdb w) = (Inr (Some j), s)"
    and row: "round_of (j_round j) s = Some r" "participants_json r \<noteq> []"
    and fresh: "fresh (store_root env) oid (wfiles w)" "\<forall>a\<in>set (artifacts (wdb w)). a_id a \<noteq> oid"
    and small: "filled wenv" "\<And>ts. shaped_tensors (model_schema_json r) ts \<Longrightarrow>
      length (save_tensors wenv ts) \<le> w_max_bytes wenv"
  shows "\<exists>w' inputs. run_once wenv now tnow t tfail token oid w = (Inr True, w') \<and>
    job_inputs (j_round j) s = Inr (r, inputs) \<and> length inputs = expected_count r \<and>
    published wenv (j_round j) (wfiles w) inputs w'"
proof -
  let ?w = "w\<lparr>wdb := s\<rparr>"
  have on: "on_db (claim_job now tnow token (lease_seconds wenv)) w = (Inr (Some j), ?w)"
    using claim by (simp add: on_db_def)
  have c: "calm (a_sha env) w ?w" by (rule guaranteesD [OF calm_calls(5) on])
  have reach: "reachable (a_sha env) (wdb w)" using sound by (simp add: sound_def)
  have arts: "artifacts s = artifacts (wdb w)" using calmD(3) [OF c reach] by (simp add: quiet_def)
  note got = claim_job_ok [OF reachable_jobs [OF reach] claim]
  have lease: "0 < lease_seconds wenv" using claim by (auto simp: claim_job_def split: if_splits)
  have reach_s: "reachable (a_sha env) s" using calmD(2) [OF c reach] by simp
  have keys: "keys_ok s" by (rule invariantD(1) [OF reachable_invariant [OF reach_s]])
  from got(6) obtain r' where "r' \<in> set (rounds s)" "round_id r' = j_round j" "status r' = AGGREGATING" by blast
  with row(1) round_of_iff [OF keys, of "j_round j" r'] have status: "status r = AGGREGATING" by simp
  have "\<exists>w' inputs. aggregate_job wenv t oid (j_round j) (j_id j) token ?w = (Inr (), w') \<and>
    job_inputs (j_round j) (wdb ?w) = Inr (r, inputs) \<and> length inputs = expected_count r \<and>
    published wenv (j_round j) (wfiles ?w) inputs w'"
    by (rule claimed_publishes [OF sound_calm [OF sound c] envs lease _ got(2) _ status row(2)])
      (use got(1) row(1) fresh small arts in simp_all)
  then obtain w' inputs where ran: "aggregate_job wenv t oid (j_round j) (j_id j) token ?w = (Inr (), w')"
    "job_inputs (j_round j) s = Inr (r, inputs)" "length inputs = expected_count r"
    "published wenv (j_round j) (wfiles w) inputs w'" by auto
  have "j_claim_token j = Some token" using got(2) by (simp add: owned_def)
  with on ran(1) have "run_once wenv now tnow t tfail token oid w = (Inr True, w')"
    by (simp add: run_once_def call_def rescue_def Let_def)
  with ran(2-4) show ?thesis by blast
qed

end
