(* ===== verification/Sample_World.thy ===== *)
theory Sample_World
  imports Publication Sample_Run
begin

text \<open>
  A small world at which the properties of the server are checked: three
  clients, one round of protocol 1.0 with all its updates, a tensor of two elements and a ready job. One of the
  clients is an enrolled member.
\<close>

section \<open>The environments\<close>

definition sample_hash :: "bytes \<Rightarrow> bytes" where "sample_hash bs = take 32 (rev bs @ replicate 32 0)"

text \<open>A file holds the elements of its tensors, eight bytes each, the least significant byte first.\<close>

definition word_bytes :: "64 word \<Rightarrow> bytes" where
  "word_bytes x = map (\<lambda>i. ucast (drop_bit (8 * i) x)) [0, 1, 2, 3, 4, 5, 6, 7]"

definition bytes_word :: "bytes \<Rightarrow> 64 word" where
  "bytes_word bs = foldr (\<lambda>b x. ucast b + 256 * x) bs 0"

definition sample_open :: "bytes \<Rightarrow> exn + tensors" where
  "sample_open c = (if length c = 16
     then Inr [(''w'', \<lparr>t_dtype = ''int64'', t_shape = [2], t_data = [bytes_word (take 8 c), bytes_word (drop 8 c)]\<rparr>)]
     else Inl (OSError ''not a tensor file''))"

definition sample_save :: "tensors \<Rightarrow> bytes" where
  "sample_save ts = concat (map (\<lambda>(n, x). concat (map word_bytes (t_data x))) ts)"

definition sample_bytes :: "8 word \<Rightarrow> 8 word \<Rightarrow> bytes" where
  "sample_bytes x y = [x, 0, 0, 0, 0, 0, 0, 0, y, 0, 0, 0, 0, 0, 0, 0]"

lemma sample_bytes_length: "length (sample_bytes x y) = 16"
  by (simp add: sample_bytes_def)

text \<open>The reader gets back what the writer wrote.\<close>

lemma low_byte: "ucast (ucast (drop_bit n (x :: 64 word)) :: 8 word) + 256 * drop_bit (n + 8) x = drop_bit n x"
proof -
  have "(ucast (ucast y :: 8 word) :: 64 word) = take_bit 8 y" for y :: "64 word"
    by (rule bit_word_eqI) (auto simp: bit_simps)
  moreover have "take_bit 8 y + 256 * drop_bit 8 y = y" for y :: "64 word"
    using bits_ident [of 8 y] by (simp add: push_bit_eq_mult add.commute mult.commute)
  from this [of "drop_bit n x"] have "take_bit 8 (drop_bit n x) + 256 * drop_bit (n + 8) x = drop_bit n x"
    by (simp add: add.commute)
  ultimately show ?thesis by simp
qed

lemma bytes_word_inverse: "bytes_word (word_bytes x) = x"
proof -
  have "drop_bit 64 x = 0" by (rule bit_word_eqI) (auto simp: bit_simps)
  with low_byte [of 0 x] low_byte [of 8 x] low_byte [of 16 x] low_byte [of 24 x] low_byte [of 32 x] low_byte [of 40 x]
    low_byte [of 48 x] low_byte [of 56 x]
  show ?thesis by (simp add: word_bytes_def bytes_word_def)
qed

lemma sample_open_save:
  "sample_open (sample_save [(''w'', \<lparr>t_dtype = ''int64'', t_shape = [2], t_data = [x, y]\<rparr>)])
     = Inr [(''w'', \<lparr>t_dtype = ''int64'', t_shape = [2], t_data = [x, y]\<rparr>)]"
proof -
  have "length (word_bytes z) = 8" for z by (simp add: word_bytes_def)
  then show ?thesis by (simp add: sample_open_def sample_save_def bytes_word_inverse)
qed

definition sample_api :: api_env where
  "sample_api = \<lparr>a_sha = sample_hash, ed25519_verify = (\<lambda>key sig msg. length sig = 60), load_json = (\<lambda>_. None),
     safe_open = sample_open, a_describe = (\<lambda>_. ''error''), python_str = (\<lambda>_. ''value''), base64_error = (\<lambda>_. ''base64''),
     admin_token = ''operator-token-of-the-federation'', store_root = ''/data'', max_artifact_bytes = 100,
     round_ttl_seconds = 1800, retention_seconds = 86400, max_participants = None\<rparr>"

definition sample_worker :: worker_env where
  "sample_worker = \<lparr>w_sha = sample_hash, load_file = sample_open, save_tensors = sample_save, w_describe = (\<lambda>_. ''error''),
     w_repr = (\<lambda>s. s), w_dir = ''/data'', w_max_bytes = 100, lease_seconds = 900\<rparr>"

section \<open>The world\<close>

definition sample_token :: string where
  "sample_token = ''aaaaaaaaaaaaaaaaaaaaaaaaaaaaaaaa''"

definition sample_federations :: federations where
  "sample_federations = [(''fed'', ''a'', [(''token'', sample_token),
     (''signing_public_key'', ''AAAAAAAAAAAAAAAAAAAAAAAAAAAAAAAAAAAAAAAAAAA='')])]"

definition sample_file :: "string \<Rightarrow> string \<Rightarrow> stored_object" where
  "sample_file name digest = \<lparr>object_id = name, stored_path = ''/data/'' @ name, stored_digest = digest, stored_size = 16\<rparr>"

definition sample_put :: "string \<Rightarrow> string \<Rightarrow> string \<Rightarrow> db_call" where
  "sample_put client digest tag = Record_Update 3 3 ''j'' ''r2'' client (sample_file (''u'' @ client) digest) tag ''k'' ''d''"

definition sample_calls :: "db_call list" where
  "sample_calls = [sample_create ''r2'' ''1.0'', sample_slot ''r2'' ''a'', sample_slot ''r2'' ''b'', sample_slot ''r2'' ''c'',
     sample_commit ''r2'' ''a'', sample_commit ''r2'' ''b'', sample_commit ''r2'' ''c'',
     sample_put ''a'' ''0000000000000002000000000000000100000000000000000000000000000000'' ''00000000000000000000000000000001'',
     sample_put ''b'' ''0000000000000004000000000000000300000000000000000000000000000000'' ''00000000000000000000000000000002'',
     sample_put ''c'' ''000000000000000600000000000000ff00000000000000000000000000000000'' ''00000000000000000000000000000003'']"

definition sample_enrolled :: db where
  "sample_enrolled = snd (initialize_once sample_hash sample_federations empty_db)"

definition sample_ready :: db where
  "sample_ready = \<lparr>members_of =
    [\<lparr>m_federation = ''fed'', m_client = ''a'',
        m_token_hash =
          ''6161616161616161616161616161616161616161616161616161616161616161'',
        m_signing_key = ''AAAAAAAAAAAAAAAAAAAAAAAAAAAAAAAAAAAAAAAAAAA='',
        m_role = ''participant'', m_revoked = False\<rparr>],
    rounds =
      [\<lparr>protocol_version = ''1.0'', federation_id = ''fed'',
          round_id = ''r2'', model_schema_hash = ''h'',
          participant_manifest_hash = ''m'',
          aggregation_policy = ''EQUAL_WEIGHTED'', precision_bits = 16,
          model_schema_json =
            \<lparr>schema_aggregation_policy = ''EQUAL_WEIGHTED'',
               entries =
                 [\<lparr>tensor_name = ''w'', shape = [2], dtype = ''float32'',
                     policy = Mean_Policy\<rparr>],
               schema_precision_bits = 16\<rparr>,
          participants_json = [''a'', ''b'', ''c''], expected_count = 3,
          status = AGGREGATING, state_version = 4, created_at = 0,
          deadline_at = 1800, completed_at = None, retention_at = 86400,
          failure_code = None, failure_detail = None\<rparr>],
    participants =
      [\<lparr>p_round = ''r2'', p_client = ''a'', p_state = UPDATE_SUBMITTED,
          p_public_key = Some \<lparr>key_text = ''k'', key_signature = ''s''\<rparr>,
          p_key_bundle = None, p_commitment = Some ''c'',
          p_update_artifact = Some ''ua'',
          p_update_digest =
            Some
             ''0000000000000002000000000000000100000000000000000000000000000000'',
          p_integrity_tag = Some ''00000000000000000000000000000001'',
          p_completed = False, p_last_seen = 3\<rparr>,
       \<lparr>p_round = ''r2'', p_client = ''b'', p_state = UPDATE_SUBMITTED,
          p_public_key = Some \<lparr>key_text = ''k'', key_signature = ''s''\<rparr>,
          p_key_bundle = None, p_commitment = Some ''c'',
          p_update_artifact = Some ''ub'',
          p_update_digest =
            Some
             ''0000000000000004000000000000000300000000000000000000000000000000'',
          p_integrity_tag = Some ''00000000000000000000000000000002'',
          p_completed = False, p_last_seen = 3\<rparr>,
       \<lparr>p_round = ''r2'', p_client = ''c'', p_state = UPDATE_SUBMITTED,
          p_public_key = Some \<lparr>key_text = ''k'', key_signature = ''s''\<rparr>,
          p_key_bundle = None, p_commitment = Some ''c'',
          p_update_artifact = Some ''uc'',
          p_update_digest =
            Some
             ''000000000000000600000000000000ff00000000000000000000000000000000'',
          p_integrity_tag = Some ''00000000000000000000000000000003'',
          p_completed = False, p_last_seen = 3\<rparr>],
    artifacts =
      [\<lparr>a_id = ''ua'', a_round = ''r2'', a_client = Some ''a'',
          a_type = ''update'', a_path = ''/data/ua'',
          a_digest =
            ''0000000000000002000000000000000100000000000000000000000000000000'',
          a_size = 16, a_created = 3\<rparr>,
       \<lparr>a_id = ''ub'', a_round = ''r2'', a_client = Some ''b'',
          a_type = ''update'', a_path = ''/data/ub'',
          a_digest =
            ''0000000000000004000000000000000300000000000000000000000000000000'',
          a_size = 16, a_created = 3\<rparr>,
       \<lparr>a_id = ''uc'', a_round = ''r2'', a_client = Some ''c'',
          a_type = ''update'', a_path = ''/data/uc'',
          a_digest =
            ''000000000000000600000000000000ff00000000000000000000000000000000'',
          a_size = 16, a_created = 3\<rparr>],
    idempotency =
      [\<lparr>i_client = ''operator'', i_round = ''fed'',
          i_operation = ''create'', i_key = ''r2'', i_digest = ''d'',
          i_response =
            RoundCreated
             \<lparr>protocol_version = ''1.0'', federation_id = ''fed'',
                round_id = ''r2'', model_schema_hash = ''h'',
                participant_manifest_hash = ''m'',
                aggregation_policy = ''EQUAL_WEIGHTED'',
                precision_bits = 16, response_state = REGISTRATION_OPEN,
                response_version = 1, response_expected = 3,
                response_deadline = 1800\<rparr>,
          i_created = 0\<rparr>,
       \<lparr>i_client = ''a'', i_round = ''r2'', i_operation = ''public_key'',
          i_key = ''k'', i_digest = ''d'', i_response = SlotAccepted ''d'',
          i_created = 1\<rparr>,
       \<lparr>i_client = ''b'', i_round = ''r2'', i_operation = ''public_key'',
          i_key = ''k'', i_digest = ''d'', i_response = SlotAccepted ''d'',
          i_created = 1\<rparr>,
       \<lparr>i_client = ''c'', i_round = ''r2'', i_operation = ''public_key'',
          i_key = ''k'', i_digest = ''d'', i_response = SlotAccepted ''d'',
          i_created = 1\<rparr>,
       \<lparr>i_client = ''a'', i_round = ''r2'', i_operation = ''key_complete'',
          i_key = ''k'', i_digest = ''d'', i_response = Accepted,
          i_created = 2\<rparr>,
       \<lparr>i_client = ''b'', i_round = ''r2'', i_operation = ''key_complete'',
          i_key = ''k'', i_digest = ''d'', i_response = Accepted,
          i_created = 2\<rparr>,
       \<lparr>i_client = ''c'', i_round = ''r2'', i_operation = ''key_complete'',
          i_key = ''k'', i_digest = ''d'', i_response = Accepted,
          i_created = 2\<rparr>,
       \<lparr>i_client = ''a'', i_round = ''r2'', i_operation = ''update'',
          i_key = ''k'', i_digest = ''d'',
          i_response =
            ArtifactAccepted ''ua''
             ''0000000000000002000000000000000100000000000000000000000000000000''
             16,
          i_created = 3\<rparr>,
       \<lparr>i_client = ''b'', i_round = ''r2'', i_operation = ''update'',
          i_key = ''k'', i_digest = ''d'',
          i_response =
            ArtifactAccepted ''ub''
             ''0000000000000004000000000000000300000000000000000000000000000000''
             16,
          i_created = 3\<rparr>,
       \<lparr>i_client = ''c'', i_round = ''r2'', i_operation = ''update'',
          i_key = ''k'', i_digest = ''d'',
          i_response =
            ArtifactAccepted ''uc''
             ''000000000000000600000000000000ff00000000000000000000000000000000''
             16,
          i_created = 3\<rparr>],
    jobs =
      [\<lparr>j_id = ''j'', j_round = ''r2'', j_state = JOB_READY, j_attempts = 0,
          j_max_attempts = 3, j_claimed_at = None, j_lease_until = None,
          j_claim_token = None, j_result_tag = None, j_last_error = None\<rparr>],
    audit_events =
      [\<lparr>e_round = Some ''r2'', e_actor = ''operator'',
          e_event = ''ROUND_CREATED'', e_version = Some 1, e_created = 0,
          e_detail = None\<rparr>,
       \<lparr>e_round = Some ''r2'', e_actor = ''a'',
          e_event = ''PUBLIC_KEY_ACCEPTED'', e_version = None,
          e_created = 1, e_detail = None\<rparr>,
       \<lparr>e_round = Some ''r2'', e_actor = ''b'',
          e_event = ''PUBLIC_KEY_ACCEPTED'', e_version = None,
          e_created = 1, e_detail = None\<rparr>,
       \<lparr>e_round = Some ''r2'', e_actor = ''c'',
          e_event = ''PUBLIC_KEY_BARRIER'', e_version = Some 2,
          e_created = 1, e_detail = None\<rparr>,
       \<lparr>e_round = Some ''r2'', e_actor = ''c'',
          e_event = ''PUBLIC_KEY_ACCEPTED'', e_version = None,
          e_created = 1, e_detail = None\<rparr>,
       \<lparr>e_round = Some ''r2'', e_actor = ''a'',
          e_event = ''KEY_CONTEXT_ACCEPTED'', e_version = None,
          e_created = 2, e_detail = None\<rparr>,
       \<lparr>e_round = Some ''r2'', e_actor = ''b'',
          e_event = ''KEY_CONTEXT_ACCEPTED'', e_version = None,
          e_created = 2, e_detail = None\<rparr>,
       \<lparr>e_round = Some ''r2'', e_actor = ''c'',
          e_event = ''KEY_CONTEXT_ACCEPTED'', e_version = None,
          e_created = 2, e_detail = None\<rparr>,
       \<lparr>e_round = Some ''r2'', e_actor = ''c'',
          e_event = ''KEY_SETUP_BARRIER'', e_version = Some 3,
          e_created = 2, e_detail = None\<rparr>,
       \<lparr>e_round = Some ''r2'', e_actor = ''a'',
          e_event = ''UPDATE_ACCEPTED'', e_version = None, e_created = 3,
          e_detail = None\<rparr>,
       \<lparr>e_round = Some ''r2'', e_actor = ''b'',
          e_event = ''UPDATE_ACCEPTED'', e_version = None, e_created = 3,
          e_detail = None\<rparr>,
       \<lparr>e_round = Some ''r2'', e_actor = ''c'',
          e_event = ''UPDATE_ACCEPTED'', e_version = None, e_created = 3,
          e_detail = None\<rparr>,
       \<lparr>e_round = Some ''r2'', e_actor = ''c'',
          e_event = ''UPDATE_BARRIER'', e_version = Some 4, e_created = 3,
          e_detail = None\<rparr>],
    tree_plans = [], key_tasks = [], task_dependencies = [],
    task_receipts = [], final_keys = [], final_key_receipts = []\<rparr>"

lemma sample_enrolled_run: "initialize_once sample_hash sample_federations empty_db = (Inr (), sample_enrolled)"
  by code_simp

lemma sample_ready_run: "run_calls sample_hash sample_calls sample_enrolled = sample_ready"
  by code_simp

lemma sample_ready_reachable: "reachable sample_hash sample_ready"
proof -
  have "list_all always_admitted sample_calls" by (simp add: sample_calls_def sample_create_def sample_slot_def sample_commit_def sample_put_def)
  from reachable_run [OF reachable.enrolled [OF reachable.empty sample_enrolled_run] this] show ?thesis
    unfolding sample_ready_run .
qed

definition sample_world :: world where
  "sample_world = \<lparr>wdb = sample_ready,
     wfiles = [''/data/ua'' \<mapsto> sample_bytes 1 2, ''/data/ub'' \<mapsto> sample_bytes 3 4, ''/data/uc'' \<mapsto> sample_bytes 255 6]\<rparr>"

lemma sample_attached: "attached sample_api sample_worker"
  by (simp add: attached_def sample_api_def sample_worker_def)

lemma sample_same_reader: "same_reader sample_api sample_worker"
  by (auto simp: same_reader_def distinct_names_def sample_api_def sample_worker_def sample_open_def split: if_splits)

lemma sample_tracked: "tracked sample_hash sample_world"
proof -
  have "hexdigest sample_hash (sample_bytes 1 2) = ''0000000000000002000000000000000100000000000000000000000000000000''"
    "hexdigest sample_hash (sample_bytes 3 4) = ''0000000000000004000000000000000300000000000000000000000000000000''"
    "hexdigest sample_hash (sample_bytes 255 6) = ''000000000000000600000000000000ff00000000000000000000000000000000''" by code_simp+
  then show ?thesis
    by (auto simp: tracked_def sample_world_def sample_ready_def sample_bytes_length split: if_splits)
qed

lemma sample_vetted: "vetted sample_api sample_world"
proof -
  have "list_all (\<lambda>a. case round_of (a_round a) sample_ready of None \<Rightarrow> False
      | Some r \<Rightarrow> validate_safetensors sample_api (a_path a) (model_schema_json r) (wfiles sample_world) = Inr ()) (artifacts sample_ready)"
    by code_simp
  moreover have "list_all (\<lambda>p. case p_integrity_tag p of None \<Rightarrow> True | Some tag \<Rightarrow> tag_acceptable tag) (participants sample_ready)"
    by code_simp
  moreover have "wdb sample_world = sample_ready" by (simp add: sample_world_def)
  ultimately show ?thesis by (auto simp: vetted_def list_all_iff split: option.splits)
qed

lemma sample_sound: "sound sample_api sample_world"
proof -
  have "a_sha sample_api = sample_hash" by (simp add: sample_api_def)
  moreover have "reachable sample_hash (wdb sample_world)" using sample_ready_reachable by (simp add: sample_world_def)
  ultimately show ?thesis unfolding sound_def using sample_tracked sample_vetted by simp
qed

section \<open>What happens next\<close>

definition sample_run :: server_action where
  "sample_run = Worker_Run 5 (\<lambda>_. 5) (\<lambda>_. 5) 5 ''worker'' ''result''"

lemma sample_fresh: "fresh (store_root sample_api) ''result'' (wfiles sample_world)"
  by (simp add: fresh_def sample_api_def sample_world_def temporary_path_def final_path_def)

lemma sample_operated: "operated sample_api sample_worker sample_world (act sample_api sample_worker sample_run sample_world)"
  by (rule operated.acts [OF operated.found]) (simp add: sample_run_def sample_fresh)

definition sample_request :: "string \<Rightarrow> endpoint \<Rightarrow> api_request" where
  "sample_request token ep = \<lparr>authorization = Some (''Bearer '' @ token), idempotency_header = Some ''k'',
     endpoint_of = ep, request_clock = (\<lambda>_. 5), fresh_round = ''r3'', fresh_object = ''result'', fresh_job = ''j3''\<rparr>"

text \<open>The worker claims the job of the round.\<close>

definition sample_claim :: db where
  "sample_claim = snd (claim_job 5 (\<lambda>_. 5) ''worker'' 900 sample_ready)"

lemma sample_claim_run:
  "claim_job 5 (\<lambda>_. 5) ''worker'' (lease_seconds sample_worker) (wdb sample_world) = (Inr (Some (hd (jobs sample_claim))), sample_claim)"
proof -
  have "fst (claim_job 5 (\<lambda>_. 5) ''worker'' 900 sample_ready) = Inr (Some (hd (jobs sample_claim)))" by code_simp
  then show ?thesis by (simp add: sample_claim_def sample_worker_def sample_world_def prod_eq_iff)
qed

definition sample_inputs :: "(artifact_row \<times> string option) list" where
  "sample_inputs = zip (artifacts sample_ready) (map p_integrity_tag (participants sample_ready))"

definition sample_parts :: "(tensors \<times> int) list" where
  "sample_parts = map (\<lambda>(xs, v). ([(''w'', \<lparr>t_dtype = ''int64'', t_shape = [2], t_data = xs\<rparr>)], v))
     [([1, 2], 1), ([3, 4], 2), ([255, 6], 3)]"

lemma sample_accepted: "list_all2 (accepted sample_worker sample_schema (wfiles sample_world)) sample_inputs sample_parts"
proof -
  have digests: "hexdigest sample_hash (sample_bytes 1 2) = ''0000000000000002000000000000000100000000000000000000000000000000''"
    "hexdigest sample_hash (sample_bytes 3 4) = ''0000000000000004000000000000000300000000000000000000000000000000''"
    "hexdigest sample_hash (sample_bytes 255 6) = ''000000000000000600000000000000ff00000000000000000000000000000000''" by code_simp+
  have tags: "read_tag (\<lambda>s. s) (Some ''00000000000000000000000000000001'') = Inr 1"
    "read_tag (\<lambda>s. s) (Some ''00000000000000000000000000000002'') = Inr 2"
    "read_tag (\<lambda>s. s) (Some ''00000000000000000000000000000003'') = Inr 3" by code_simp+
  have checks: "list_all (\<lambda>(ts, v). check_tensors sample_schema ts = Inr ()) sample_parts" by code_simp
  have opened: "sample_open (sample_bytes 1 2) = Inr [(''w'', \<lparr>t_dtype = ''int64'', t_shape = [2], t_data = [1, 2]\<rparr>)]"
    "sample_open (sample_bytes 3 4) = Inr [(''w'', \<lparr>t_dtype = ''int64'', t_shape = [2], t_data = [3, 4]\<rparr>)]"
    "sample_open (sample_bytes 255 6) = Inr [(''w'', \<lparr>t_dtype = ''int64'', t_shape = [2], t_data = [255, 6]\<rparr>)]"
    by code_simp+
  show ?thesis
    using digests tags checks opened
    by (simp add: sample_inputs_def sample_ready_def sample_parts_def accepted_def sample_worker_def sample_world_def)
qed

lemma sample_held: "held ''j'' ''worker'' (sample_world\<lparr>wdb := sample_claim\<rparr>)"
proof -
  have "count_where (owned ''j'' ''worker'') (jobs sample_claim) = 1" by code_simp
  then show ?thesis by (simp add: held_def)
qed

lemma sample_save_short:
  assumes "shaped_tensors sample_schema ts"
  shows "length (save_tensors sample_worker ts) \<le> w_max_bytes sample_worker"
proof -
  have schema: "expected_names sample_schema = [''w'']"
    "expected_entries sample_schema ''w'' = Some (hd (entries sample_schema))" by code_simp+
  have elements: "nat (prod_list (shape (hd (entries sample_schema)))) = 2" by (simp add: sample_schema_def)
  from assms have names: "distinct (map fst ts)" "set (map fst ts) = {''w''}" by (simp_all add: shaped_tensors_def schema(1))
  have "length (map fst ts) = 1" using distinct_card [OF names(1)] unfolding names(2) by simp
  then obtain y where "ts = [y]" by (cases ts) simp_all
  then obtain x where ts: "ts = [(''w'', x)]" using names(2) by (cases y) simp
  have "length (t_data x) = 2" using assms by (auto simp: shaped_tensors_def ts schema(2) elements)
  moreover have "length (concat (map word_bytes xs)) = 8 * length xs" for xs
    by (induction xs) (simp_all add: word_bytes_def)
  ultimately show ?thesis by (simp add: ts sample_save_def sample_worker_def)
qed

lemma sample_filled: "filled sample_worker"
  by (auto simp: filled_def sample_worker_def sample_open_def split: if_splits)

end
