(* ===== verification/Replays.thy ===== *)
theory Replays
  imports Jobs
begin

text \<open>
  Idempotency keys. A method that records something under a key writes its answer into the table of recorded
  answers, and repeats it when the key comes again with the same content, however the state has moved on. The
  contract \<open>keyed_method\<close> says what such a method promises, and every uploading method keeps it.
\<close>

section \<open>Recorded answers\<close>

type_synonym slot = "string \<times> string \<times> string \<times> string"

definition recorded_in :: "slot \<Rightarrow> db \<Rightarrow> idempotency_row option" where
  "recorded_in = (\<lambda>(client, rid, operation, k) s. prior_response client rid operation k s)"

lemma find_prefix: "prefix xs ys \<Longrightarrow> List.find P xs = Some x \<Longrightarrow> List.find P ys = Some x"
  by (induction xs arbitrary: ys) (auto simp: prefix_def split: if_splits)

lemma recorded_in_prefix:
  "prefix (idempotency s) (idempotency s') \<Longrightarrow> recorded_in sl s = Some p \<Longrightarrow> recorded_in sl s' = Some p"
  by (cases sl) (auto simp: recorded_in_def prior_response_def intro: find_prefix)

section \<open>The contract\<close>

text \<open>
  \<open>run x dg\<close> is the method with the digest \<open>dg\<close> of its content and its other arguments \<open>x\<close>; \<open>sl\<close> is the key
  with what it belongs to; \<open>told\<close> is the answer that is recorded of a returned value, and \<open>again\<close> what a
  recorded answer is returned as.
\<close>

locale keyed_method =
  fixes run :: "'x \<Rightarrow> string \<Rightarrow> (db, 'a) tx" and sl :: slot and told :: "'a \<Rightarrow> response" and again :: "response \<Rightarrow> 'a"
  assumes known: "recorded_in sl s = Some p \<Longrightarrow> run x dg s =
      (if i_digest p = dg then (Inr (again (i_response p)), s) else (Inl (ValueError ''IDEMPOTENCY_CONFLICT''), s))"
    and noted: "recorded_in sl s = None \<Longrightarrow> run x dg s = (Inr v, s') \<Longrightarrow>
      \<exists>p. recorded_in sl s' = Some p \<and> i_digest p = dg \<and> i_response p = told v"
    and told_again: "told (again resp) = resp"
begin

lemma answered:
  assumes "run x dg s = (Inr v, s')"
  obtains p where "recorded_in sl s' = Some p" "i_digest p = dg" "i_response p = told v"
proof (cases "recorded_in sl s")
  case None
  with noted [OF None assms] show ?thesis using that by blast
next
  case (Some p)
  with known [OF Some, of x dg] assms told_again show ?thesis using that by (auto split: if_splits)
qed

lemma repeated:
  assumes "run x dg s = (Inr v, s1)" "prefix (idempotency s1) (idempotency s2)"
  shows "run y dg s2 = (Inr (again (told v)), s2)"
    and "dg' \<noteq> dg \<Longrightarrow> run y dg' s2 = (Inl (ValueError ''IDEMPOTENCY_CONFLICT''), s2)"
proof -
  obtain p where p: "recorded_in sl s1 = Some p" "i_digest p = dg" "i_response p = told v"
    using assms(1) by (rule answered)
  have "recorded_in sl s2 = Some p" by (rule recorded_in_prefix [OF assms(2) p(1)])
  from known [OF this] p(2,3) show "run y dg s2 = (Inr (again (told v)), s2)"
    and "dg' \<noteq> dg \<Longrightarrow> run y dg' s2 = (Inl (ValueError ''IDEMPOTENCY_CONFLICT''), s2)" by simp_all
qed

end

section \<open>Code that records its answer\<close>

text \<open>\<open>jots told sl dg m\<close>: whatever \<open>m\<close> returns, it has been recorded in \<open>sl\<close> with the digest \<open>dg\<close>.\<close>

definition jots :: "('a \<Rightarrow> response) \<Rightarrow> slot \<Rightarrow> string \<Rightarrow> (db, 'a) tx \<Rightarrow> bool" where
  "jots told sl dg m \<longleftrightarrow> (\<forall>s v s'. m s = (Inr v, s') \<longrightarrow>
     (\<exists>p. recorded_in sl s' = Some p \<and> i_digest p = dg \<and> i_response p = told v))"

definition answers :: "('a \<Rightarrow> response) \<Rightarrow> response \<Rightarrow> (db, 'a) tx \<Rightarrow> bool" where
  "answers told resp m \<longleftrightarrow> (\<forall>s v s'. m s = (Inr v, s') \<longrightarrow> told v = resp)"

lemma answers_rules:
  "told v = resp \<Longrightarrow> answers told resp (ret v)" "answers told resp (throw e)"
  "answers told resp m \<Longrightarrow> answers told resp (exec st m)"
  "(\<And>x. answers told resp (k x)) \<Longrightarrow> answers told resp (call m' k)"
  "(\<And>x. answers told resp (k x)) \<Longrightarrow> answers told resp (read q k)"
  "answers told resp m \<Longrightarrow> answers told resp n \<Longrightarrow> answers told resp (if b then m else n)"
  by (auto simp: answers_def exec_def call_def split: sum.splits prod.splits)

lemma jots_rules:
  "jots told sl dg (throw e)"
  "jots told sl dg m \<Longrightarrow> jots told sl dg (exec st m)"
  "(\<And>x. jots told sl dg (k x)) \<Longrightarrow> jots told sl dg (call m' k)"
  "(\<And>x. jots told sl dg (k x)) \<Longrightarrow> jots told sl dg (read q k)"
  "jots told sl dg m \<Longrightarrow> jots told sl dg n \<Longrightarrow> jots told sl dg (if b then m else n)"
  "jots told sl dg m \<Longrightarrow> (\<And>x. jots told sl dg (k x)) \<Longrightarrow> jots told sl dg (case v of None \<Rightarrow> m | Some x \<Rightarrow> k x)"
  by (auto simp: jots_def exec_def call_def split: sum.splits prod.splits option.splits)

text \<open>The statement that records, before code that only extends the history and gives the recorded answer.\<close>

lemma jots_remember:
  assumes "guarantees extended m" "answers told resp m"
  shows "jots told (client, rid, operation, k) dg (exec (remember client rid operation k dg resp now) m)"
  unfolding jots_def
proof (intro allI impI)
  fix s v s'
  assume "exec (remember client rid operation k dg resp now) m s = (Inr v, s')"
  then obtain s1 where s1: "remember client rid operation k dg resp now s = Inr s1" "m s1 = (Inr v, s')"
    by (auto simp: exec_def split: sum.splits)
  from s1(1) obtain p where p: "recorded_in (client, rid, operation, k) s1 = Some p" "i_digest p = dg" "i_response p = resp"
    by (auto simp: recorded_in_def remember_Inr prior_response_def find_append)
  have "prefix (idempotency s1) (idempotency s')" using guaranteesD [OF assms(1) s1(2)] by (simp add: extended_def)
  then have "recorded_in (client, rid, operation, k) s' = Some p" using p(1) by (rule recorded_in_prefix)
  moreover have "told v = resp" using assms(2) s1(2) by (auto simp: answers_def)
  ultimately show "\<exists>p. recorded_in (client, rid, operation, k) s' = Some p \<and> i_digest p = dg \<and> i_response p = told v"
    using p(2,3) by blast
qed

lemma jots_transaction:
  assumes "jots told (client, rid, operation, k) dg body" "\<And>resp. told (again resp) = resp"
  shows "jots told (client, rid, operation, k) dg
    (transaction (idempotent client rid operation k dg (\<lambda>resp. ret (again resp)) body))"
  using assms by (auto simp: jots_def transaction_Inr idempotent_Inr recorded_in_def split: option.splits)

lemmas jot_rules = jots_transaction jots_rules jots_remember answers_rules append.body_rules
  append.st_artifact append.st_submission

text \<open>What the block does with a known key.\<close>

lemma replayed:
  "recorded_in (client, rid, operation, k) s = Some p \<Longrightarrow>
   transaction (idempotent client rid operation k dg (\<lambda>resp. ret (again resp)) body) s =
     (if i_digest p = dg then (Inr (again (i_response p)), s) else (Inl (ValueError ''IDEMPOTENCY_CONFLICT''), s))"
  by (simp add: recorded_in_def idempotent_def transaction_def)

lemma keyed_methodI:
  assumes "\<And>x dg. jots told sl dg (run x dg)"
    and "\<And>x dg s p. recorded_in sl s = Some p \<Longrightarrow> run x dg s =
      (if i_digest p = dg then (Inr (again (i_response p)), s) else (Inl (ValueError ''IDEMPOTENCY_CONFLICT''), s))"
    and "\<And>resp. told (again resp) = resp"
  shows "keyed_method run sl told again"
  using assms by unfold_locales (auto simp: jots_def)

section \<open>The methods\<close>

lemma creation_jots:
  "jots fst (actor, federation, ''create'', k) dg (create_round now new_id federation version schema schema_hash clients manifest_hash ttl retention actor k dg)"
  unfolding create_round_def Let_def by (intro jot_rules) (simp_all)

interpretation creation: keyed_method
  "\<lambda>(now, new_id, version, schema, schema_hash, clients, manifest_hash, ttl, retention) dg. create_round now new_id federation version schema schema_hash clients manifest_hash ttl retention actor k dg"
  "(actor, federation, ''create'', k)" "fst" "\<lambda>resp. (resp, True)" for actor federation k
  by (rule keyed_methodI) (auto simp: creation_jots, simp_all add: create_round_def replayed Let_def)

lemma record_json_slot_jots:
  "jots fst (client, rid, slot_name body, k) dg (record_json_slot now tnow rid client body k dg)"
  unfolding record_json_slot_def Let_def by (intro jot_rules) simp_all

lemma slot_jots:
  "jots fst (client, rid, ''public_key'', k) dg (record_json_slot now tnow rid client (PublicKeyBody key) k dg)"
  "jots fst (client, rid, ''key_bundle'', k) dg (record_json_slot now tnow rid client (KeyBundleBody kb) k dg)"
  using record_json_slot_jots [of client rid "PublicKeyBody key"] record_json_slot_jots [of client rid "KeyBundleBody kb"]
  by simp_all

interpretation public_slot: keyed_method
  "\<lambda>(now, tnow, key) dg. record_json_slot now tnow rid client (PublicKeyBody key) k dg"
  "(client, rid, ''public_key'', k)" "fst" "\<lambda>resp. (resp, True)" for client rid k
  by (rule keyed_methodI) (auto simp: slot_jots, simp_all add: record_json_slot_def replayed Let_def)

interpretation bundle_slot: keyed_method
  "\<lambda>(now, tnow, kb) dg. record_json_slot now tnow rid client (KeyBundleBody kb) k dg"
  "(client, rid, ''key_bundle'', k)" "fst" "\<lambda>resp. (resp, True)" for client rid k
  by (rule keyed_methodI) (auto simp: slot_jots, simp_all add: record_json_slot_def replayed Let_def)

lemma commitment_jots:
  "jots fst (client, rid, ''key_complete'', k) dg (key_commit sha now tnow rid client commitment k dg)"
  unfolding key_commit_def Let_def by (intro jot_rules append.g_create_tree_plan) (simp_all)

interpretation commitment: keyed_method
  "\<lambda>(now, tnow, commitment) dg. key_commit sha now tnow rid client commitment k dg"
  "(client, rid, ''key_complete'', k)" "fst" "\<lambda>resp. (resp, False)" for sha client rid k
  by (rule keyed_methodI) (auto simp: commitment_jots, simp_all add: key_commit_def replayed Let_def)

lemma task_upload_jots:
  "jots fst (client, rid, ''key_task_artifact:'' @ tid, k) dg (record_task_artifact now rid client tid stored cd nonce sig k dg)"
  unfolding record_task_artifact_def Let_def by (intro jot_rules) (simp_all)

interpretation task_upload: keyed_method
  "\<lambda>(now, stored, cd, nonce, sig) dg. record_task_artifact now rid client tid stored cd nonce sig k dg"
  "(client, rid, ''key_task_artifact:'' @ tid, k)" "fst" "\<lambda>resp. (resp, True)" for client rid tid k
  by (rule keyed_methodI)
    (auto simp: task_upload_jots simp del: append.simps, simp_all add: record_task_artifact_def replayed Let_def del: append.simps)

lemma task_receipt_jots:
  "jots (\<lambda>resp. resp) (client, rid, ''key_task_ack:'' @ tid, k) dg (acknowledge_task now rid client tid ad k dg)"
  unfolding acknowledge_task_def Let_def by (intro jot_rules) (simp_all)

interpretation task_receipt: keyed_method
  "\<lambda>(now, ad) dg. acknowledge_task now rid client tid ad k dg"
  "(client, rid, ''key_task_ack:'' @ tid, k)" "\<lambda>resp. resp" "\<lambda>resp. resp" for client rid tid k
  by (rule keyed_methodI)
    (auto simp: task_receipt_jots simp del: append.simps, simp_all add: acknowledge_task_def replayed Let_def del: append.simps)

lemma key_upload_jots:
  "jots fst (client, rid, ''final_key'', k) dg (record_final_key now rid client stored cd nonce sig k dg)"
  unfolding record_final_key_def Let_def by (intro jot_rules) (simp_all)

interpretation key_upload: keyed_method
  "\<lambda>(now, stored, cd, nonce, sig) dg. record_final_key now rid client stored cd nonce sig k dg"
  "(client, rid, ''final_key'', k)" "fst" "\<lambda>resp. (resp, True)" for client rid k
  by (rule keyed_methodI) (auto simp: key_upload_jots, simp_all add: record_final_key_def replayed Let_def)

lemma key_receipt_jots:
  "jots (\<lambda>resp. resp) (client, rid, ''final_key_ack'', k) dg (acknowledge_final_key now tnow rid client ad k dg)"
  unfolding acknowledge_final_key_def Let_def by (intro jot_rules) (simp_all)

interpretation key_receipt: keyed_method
  "\<lambda>(now, tnow, ad) dg. acknowledge_final_key now tnow rid client ad k dg"
  "(client, rid, ''final_key_ack'', k)" "\<lambda>resp. resp" "\<lambda>resp. resp" for client rid k
  by (rule keyed_methodI) (auto simp: key_receipt_jots, simp_all add: acknowledge_final_key_def replayed Let_def)

lemma update_jots:
  "jots fst (client, rid, ''update'', k) dg (record_update now tnow job_id rid client stored tag k dg)"
  unfolding record_update_def Let_def by (intro jot_rules) (simp_all)

interpretation update: keyed_method
  "\<lambda>(now, tnow, job_id, stored, tag) dg. record_update now tnow job_id rid client stored tag k dg"
  "(client, rid, ''update'', k)" "fst" "\<lambda>resp. (resp, True)" for client rid k
  by (rule keyed_methodI) (auto simp: update_jots, simp_all add: record_update_def replayed Let_def)

lemma abortion_jots:
  "jots fst (actor, rid, ''abort'', k) dg (abort tnow now rid actor reason k dg)"
  unfolding abort_def Let_def by (intro jot_rules) (simp_all)

interpretation abortion: keyed_method
  "\<lambda>(tnow, now, reason) dg. abort tnow now rid actor reason k dg"
  "(actor, rid, ''abort'', k)" "fst" "\<lambda>resp. (resp, True)" for actor rid k
  by (rule keyed_methodI) (auto simp: abortion_jots, simp_all add: abort_def replayed Let_def)

lemma key_complete_jots:
  "jots (\<lambda>resp. resp) (client, rid, ''key_complete'', k) dg (key_complete sha now tnow rid client commitment k dg)"
  using commitment_jots [of client rid k dg sha now tnow commitment]
  by (fastforce simp: jots_def key_complete_def call_def split: prod.splits sum.splits if_splits)

interpretation completion: keyed_method
  "\<lambda>(now, tnow, commitment) dg. key_complete sha now tnow rid client commitment k dg"
  "(client, rid, ''key_complete'', k)" "\<lambda>resp. resp" "\<lambda>resp. resp" for sha client rid k
  by (rule keyed_methodI)
    (auto simp: key_complete_jots, simp_all add: key_complete_def key_commit_def replayed Let_def call_def)

section \<open>Uploads and receipts\<close>

text \<open>The methods that answer whether they replay, and those that do not, each with its key; the digest stays open.\<close>

inductive uploading :: "slot \<Rightarrow> (string \<Rightarrow> (db, response \<times> bool) tx) \<Rightarrow> bool" where
  "uploading (actor, federation, ''create'', k)
     (create_round now new_id federation version schema schema_hash clients manifest_hash ttl retention actor k)"
| "uploading (client, rid, ''public_key'', k) (record_json_slot now tnow rid client (PublicKeyBody key) k)"
| "uploading (client, rid, ''key_bundle'', k) (record_json_slot now tnow rid client (KeyBundleBody kb) k)"
| "uploading (client, rid, ''key_task_artifact:'' @ tid, k) (record_task_artifact now rid client tid stored cd nonce sig k)"
| "uploading (client, rid, ''final_key'', k) (record_final_key now rid client stored cd nonce sig k)"
| "uploading (client, rid, ''update'', k) (record_update now tnow job_id rid client stored tag k)"
| "uploading (actor, rid, ''abort'', k) (abort tnow now rid actor reason k)"

inductive receipting :: "slot \<Rightarrow> (string \<Rightarrow> (db, response) tx) \<Rightarrow> bool" where
  "receipting (client, rid, ''key_complete'', k) (key_complete sha now tnow rid client commitment k)"
| "receipting (client, rid, ''key_task_ack:'' @ tid, k) (acknowledge_task now rid client tid ad k)"
| "receipting (client, rid, ''final_key_ack'', k) (acknowledge_final_key now tnow rid client ad k)"

text \<open>The contract at fixed other arguments.\<close>

lemma keyed_at: "keyed_method run sl told again \<Longrightarrow> keyed_method (\<lambda>_ :: unit. run x) sl told again"
  unfolding keyed_method_def by blast

lemma uploading_keyed: "uploading sl m \<Longrightarrow> keyed_method (\<lambda>_ :: unit. m) sl fst (\<lambda>resp. (resp, True))"
proof (induction rule: uploading.induct)
  case (1 actor federation k now new_id version schema schema_hash clients manifest_hash ttl retention)
  from keyed_at [OF creation.keyed_method_axioms, where x = "(now, new_id, version, schema, schema_hash, clients, manifest_hash, ttl, retention)"] show ?case by (simp del: append.simps)
next
  case (2 client rid k now tnow key)
  from keyed_at [OF public_slot.keyed_method_axioms, where x = "(now, tnow, key)"] show ?case by (simp del: append.simps)
next
  case (3 client rid k now tnow kb)
  from keyed_at [OF bundle_slot.keyed_method_axioms, where x = "(now, tnow, kb)"] show ?case by (simp del: append.simps)
next
  case (4 client rid tid k now stored cd nonce sig)
  from keyed_at [OF task_upload.keyed_method_axioms, where x = "(now, stored, cd, nonce, sig)"] show ?case by (simp del: append.simps)
next
  case (5 client rid k now stored cd nonce sig)
  from keyed_at [OF key_upload.keyed_method_axioms, where x = "(now, stored, cd, nonce, sig)"] show ?case by (simp del: append.simps)
next
  case (6 client rid k now tnow job_id stored tag)
  from keyed_at [OF update.keyed_method_axioms, where x = "(now, tnow, job_id, stored, tag)"] show ?case by (simp del: append.simps)
next
  case (7 actor rid k tnow now reason)
  from keyed_at [OF abortion.keyed_method_axioms, where x = "(tnow, now, reason)"] show ?case by (simp del: append.simps)
qed

lemma receipting_keyed: "receipting sl m \<Longrightarrow> keyed_method (\<lambda>_ :: unit. m) sl (\<lambda>resp. resp) (\<lambda>resp. resp)"
proof (induction rule: receipting.induct)
  case (1 client rid k sha now tnow commitment)
  from keyed_at [OF completion.keyed_method_axioms, where x = "(now, tnow, commitment)"] show ?case by (simp del: append.simps)
next
  case (2 client rid tid k now ad)
  from keyed_at [OF task_receipt.keyed_method_axioms, where x = "(now, ad)"] show ?case by (simp del: append.simps)
next
  case (3 client rid k now tnow ad)
  from keyed_at [OF key_receipt.keyed_method_axioms, where x = "(now, tnow, ad)"] show ?case by (simp del: append.simps)
qed

end
