(* ===== verification/Access.thy ===== *)
theory Access
  imports Maintenance
begin

text \<open>
  Who gets through to a handler: the bearer token decides which member a request comes from, and
  \<open>_round_for_member\<close> whether that member takes part in the round.
\<close>

section \<open>Endpoints\<close>

fun for_operator :: "endpoint \<Rightarrow> bool" where
  "for_operator (Post_Round federation body) = True"
| "for_operator (Post_Abort rid reason) = True"
| "for_operator _ = False"

text \<open>The \<open>round_id\<close> of the path.\<close>

fun endpoint_round :: "endpoint \<Rightarrow> string" where
  "endpoint_round (Post_Round federation body) = ''''"
| "endpoint_round (Get_Round_State rid) = rid"
| "endpoint_round (Get_Me rid) = rid"
| "endpoint_round (Put_Public_Key rid body) = rid"
| "endpoint_round (Get_Public_Keys rid) = rid"
| "endpoint_round (Put_Key_Bundle rid body) = rid"
| "endpoint_round (Get_Key_Bundles rid) = rid"
| "endpoint_round (Post_Key_Complete rid commitment) = rid"
| "endpoint_round (Get_Tree_Plan rid) = rid"
| "endpoint_round (Get_Next_Action rid) = rid"
| "endpoint_round (Put_Task_Artifact rid tid md sig chunks failure) = rid"
| "endpoint_round (Get_Task_Artifact rid tid) = rid"
| "endpoint_round (Post_Task_Ack rid tid dg) = rid"
| "endpoint_round (Put_Final_Key rid md sig chunks failure) = rid"
| "endpoint_round (Get_Final_Key rid) = rid"
| "endpoint_round (Post_Final_Ack rid dg) = rid"
| "endpoint_round (Put_Update rid tag hash chunks failure) = rid"
| "endpoint_round (Get_Result rid) = rid"
| "endpoint_round (Post_Complete rid) = rid"
| "endpoint_round (Post_Abort rid reason) = rid"

section \<open>Tokens\<close>

lemma bearer_Some: "bearer h = Inr token \<Longrightarrow> h = Some (''Bearer '' @ token)"
proof -
  assume b: "bearer h = Inr token"
  show ?thesis
  proof (cases h)
    case None
    with b show ?thesis by (simp add: bearer_def starts_with_def)
  next
    case (Some v)
    let ?n = "length ''Bearer ''"
    have "?n = 7" by simp
    with b Some have v: "take ?n v = ''Bearer ''" "token = drop ?n v"
      by (simp_all only: bearer_def starts_with_def Let_def option.case split: if_splits) simp_all
    show ?thesis unfolding Some v(2) using append_take_drop_id [of ?n v] unfolding v(1) by simp
  qed
qed

text \<open>Every endpoint asks for one of the two credentials before anything else.\<close>

lemma serve_operator:
  assumes "for_operator (endpoint_of req)"
  obtains m where "serve env req = as_operator env req m"
  using assms by (cases "endpoint_of req") (simp_all add: serve_def Let_def)

lemma serve_member:
  assumes "\<not> for_operator (endpoint_of req)"
  obtains k where "serve env req = as_member env req k"
  using assms by (cases "endpoint_of req") (simp_all add: serve_def Let_def)

lemma as_operator_passed:
  assumes "as_operator env req m w = (res, w')" "w' \<noteq> w \<or> \<not> isl res"
  shows "operator_identity env (authorization req) = Inr ''operator''"
  using assms by (auto simp: as_operator_def call_def operator_identity_def attempt_def split: sum.splits if_splits)

lemma as_member_passed:
  assumes "as_member env req k w = (res, w')" "w' \<noteq> w \<or> \<not> isl res"
  shows "\<exists>m. participant_identity env (authorization req) (wdb w) = Inr m"
  using assms by (auto simp: as_member_def call_def split: sum.splits)

lemma operator_token:
  "operator_identity env h = Inr u \<Longrightarrow> h = Some (''Bearer '' @ admin_token env)"
  by (auto simp: operator_identity_def attempt_def compare_digest_def dest!: bearer_Some split: sum.splits if_splits)

lemma participant_token:
  assumes "participant_identity env h s = Inr m"
  shows "\<exists>token. h = Some (''Bearer '' @ token) \<and> member_for_token (a_sha env) token s = Some m"
  using assms by (auto simp: participant_identity_def attempt_def dest!: bearer_Some split: sum.splits option.splits)

section \<open>Rounds\<close>

text \<open>The lazy expiry does not fail, and leaves the participants and the federation of the round alone.\<close>

lemma get_round_runs:
  assumes "keys_ok s"
  shows "\<exists>v s'. get_round e now now' tnow rid s = (Inr v, s') \<and> participants s' = participants s \<and>
    map_option federation_id v = map_option federation_id (round_of rid s)"
proof (cases "round_of rid s")
  case None
  then show ?thesis by (simp add: get_round_def)
next
  case (Some r)
  note dist = keys_okD(1) [OF assms]
  show ?thesis
  proof (cases "status r \<notin> {COMPLETED, FAILED, ABORTED, EXPIRED} \<and> deadline_at r < now'")
    case True
    let ?s = "logged [event rid ''reconciler'' ''ROUND_DEADLINE_EXCEEDED'' (Some (state_version r + 1)) tnow None]
      (advanced tnow rid EXPIRED ''ROUND_DEADLINE_EXCEEDED'' None s)"
    have moved: "transition tnow rid (status r) EXPIRED ''reconciler'' ''ROUND_DEADLINE_EXCEEDED'' None s = (Inr (), ?s)"
      using Some True expired_allowed by (simp add: transition_ok [OF dist])
    have "round_of rid ?s = Some (advance tnow EXPIRED ''ROUND_DEADLINE_EXCEEDED'' None r)"
      unfolding round_of_other round_advanced using Some by simp
    with Some moved show ?thesis
      by (auto simp: get_round_def reconcile_def transaction_Inr tx_simps Let_def call_Inr advance_def)
  next
    case False
    with Some show ?thesis
      by (auto simp: get_round_def reconcile_def transaction_def tx_simps Let_def)
  qed
qed

definition outsider :: "string \<Rightarrow> member_row \<Rightarrow> db \<Rightarrow> bool" where
  "outsider rid m s \<longleftrightarrow> (case round_of rid s of None \<Rightarrow> True
     | Some r \<Rightarrow> federation_id r \<noteq> m_federation m \<or> participant_of rid (m_client m) s = None)"

definition expired_view :: "api_request \<Rightarrow> world \<Rightarrow> world" where
  "expired_view req w = snd (on_db (get_round True (request_clock req 0) (request_clock req 1) (request_clock req 2)
     (endpoint_round (endpoint_of req))) w)"

lemma round_for_member_outsider:
  assumes "keys_ok (wdb w)" "outsider rid m (wdb w)"
  shows "\<exists>st code msg. st \<in> {403, 404} \<and> round_for_member t rid m w =
    (Inl (api_error st code msg (Some rid)), snd (on_db (get_round True (t 0) (t 1) (t 2) rid) w))"
proof -
  from get_round_runs [OF assms(1)] obtain v s where s: "get_round True (t 0) (t 1) (t 2) rid (wdb w) = (Inr v, s)"
    "participants s = participants (wdb w)" "map_option federation_id v = map_option federation_id (round_of rid (wdb w))"
    by blast
  then have p: "participant_of rid (m_client m) s = participant_of rid (m_client m) (wdb w)"
    by (simp add: participant_of_def)
  show ?thesis
  proof (cases v)
    case None
    with s show ?thesis by (auto simp: round_for_member_def call_def on_db_def)
  next
    case (Some r)
    with s assms(2) p show ?thesis
      by (auto simp: round_for_member_def call_def on_db_def look_def participant_def outsider_def split: option.splits)
  qed
qed

text \<open>The answers that an outsider gets, and what is left behind.\<close>

definition denied :: "api_request \<Rightarrow> world \<Rightarrow> (exn + reply) \<times> world \<Rightarrow> bool" where
  "denied req w = (\<lambda>(res, w'). (\<exists>st code msg r. st \<in> {400, 403, 404, 422} \<and> res = Inl (HTTPException st code msg r)) \<and>
     (w' = w \<or> w' = expired_view req w))"

lemma denied_round:
  assumes "keys_ok (wdb w)" "outsider (endpoint_round (endpoint_of req)) m (wdb w)"
  shows "denied req w (call (round_for_member (request_clock req) (endpoint_round (endpoint_of req)) m) k w)"
proof -
  let ?t = "request_clock req" and ?rid = "endpoint_round (endpoint_of req)"
  from round_for_member_outsider [OF assms, of ?t] obtain st code msg where st: "st \<in> {403, 404}"
    "round_for_member ?t ?rid m w = (Inl (api_error st code msg (Some ?rid)), expired_view req w)"
    unfolding expired_view_def by blast
  from st(1) have "st \<in> {400, 403, 404, 422}" by auto
  moreover obtain r where "api_error st code msg (Some ?rid) = HTTPException st code msg r" by (simp add: api_error_def)
  ultimately show ?thesis unfolding denied_def call_def st(2) prod.case sum.case by blast
qed

lemma denied_body: "denied req w (m w) \<Longrightarrow> denied req w (with_body valid m w)"
  by (simp add: with_body_def denied_def)

lemma denied_key:
  assumes "\<And>key. denied req w (k key w)"
  shows "denied req w (with_key req k w)"
proof (cases "idem (idempotency_header req)")
  case (Inl e)
  then have "\<exists>code msg r. e = HTTPException 400 code msg r"
    by (auto simp: idem_def api_error_def split: option.splits if_splits)
  with Inl show ?thesis by (auto simp: denied_def with_key_def call_def look_def)
next
  case (Inr key)
  with assms show ?thesis by (simp add: with_key_def call_def look_def)
qed

lemma serve_denied:
  assumes "keys_ok (wdb w)" "\<not> for_operator (endpoint_of req)"
    and "participant_identity env (authorization req) (wdb w) = Inr m"
    and "outsider (endpoint_round (endpoint_of req)) m (wdb w)"
  shows "denied req w (serve env req w)"
proof -
  have call: "as_member env req k w = k m w" for k
    using assms(3) by (simp add: as_member_def call_def look_def)
  note first = denied_round [OF assms(1,4)]
  show ?thesis
    using assms(2) first
    by (cases "endpoint_of req")
      (simp_all add: serve_def Let_def call denied_key denied_body handle_get_round_def handle_get_me_def
        handle_put_public_key_def handle_get_public_keys_def handle_put_key_bundle_def handle_get_key_bundles_def
        handle_key_setup_complete_def handle_get_tree_plan_def handle_get_next_key_action_def
        handle_put_key_task_artifact_def handle_get_key_task_artifact_def handle_acknowledge_key_task_def
        handle_put_final_key_def handle_get_final_key_def handle_acknowledge_final_key_def handle_put_update_def
        handle_get_result_def handle_complete_def)
qed

end
