(* ===== verification/Config.thy ===== *)
theory Config
  imports Requests
begin

text \<open>
  \<open>app/config.py\<close>: the settings read from the environment. \<open>json.loads\<close> and the conversion of a text to
  a float are parameters; a float is a real number, an infinity or not a number, and compares like one.
  The digits of \<open>int\<close> are those of ASCII.
\<close>

section \<open>Numbers\<close>

datatype py_float = Finite real | Infinite bool | NaN

text \<open>\<open>a < b\<close> and \<open>a <= 0\<close>; \<open>Infinite True\<close> is the negative infinity.\<close>

fun float_less :: "py_float \<Rightarrow> py_float \<Rightarrow> bool" where
  "float_less NaN _ = False"
| "float_less _ NaN = False"
| "float_less (Finite a) (Finite b) = (a < b)"
| "float_less (Infinite neg) (Finite b) = neg"
| "float_less (Finite a) (Infinite neg) = (\<not> neg)"
| "float_less (Infinite n) (Infinite n') = (n \<and> \<not> n')"

fun not_positive :: "py_float \<Rightarrow> bool" where
  "not_positive NaN = False"
| "not_positive (Finite a) = (a \<le> 0)"
| "not_positive (Infinite neg) = neg"

text \<open>\<open>min(first, ...)\<close> keeps the first argument that no later one is less than.\<close>

definition py_min :: "py_float \<Rightarrow> py_float list \<Rightarrow> py_float" where
  "py_min first rest = foldl (\<lambda>m x. if float_less x m then x else m) first rest"

fun int_run :: "bool \<Rightarrow> int \<Rightarrow> string \<Rightarrow> int option" where
  "int_run after acc [] = (if after then Some acc else None)"
| "int_run after acc (c # cs) =
     (if c = CHR ''_'' then (if after then int_run False acc cs else None)
      else let n = of_char c :: nat in
        if 48 \<le> n \<and> n \<le> 57 then int_run True (10 * acc + (int n - 48)) cs else None)"

definition py_int :: "string \<Rightarrow> exn + int" where
  "py_int text =
     (case (case strip text of [] \<Rightarrow> None
        | c # cs \<Rightarrow>
            if c = CHR ''-'' then map_option uminus (int_run False 0 cs)
            else if c = CHR ''+'' then int_run False 0 cs else int_run False 0 (c # cs)) of
        None \<Rightarrow> Inl (ValueError ''invalid literal for int() with base 10'')
      | Some n \<Rightarrow> Inr n)"

section \<open>Settings\<close>

record settings =
  database_path :: string
  artifact_path :: string
  federation_config :: "(string \<times> python) list"
  s_admin_token :: string
  s_max_artifact_bytes :: int
  s_round_ttl_seconds :: int
  s_retention_seconds :: int
  worker_poll_seconds :: py_float
  worker_lease_seconds :: py_float
  maintenance_interval_seconds :: py_float
  s_max_participants :: "int option"

definition env_get :: "(string \<Rightarrow> string option) \<Rightarrow> string \<Rightarrow> string \<Rightarrow> string" where
  "env_get env key fallback = (case env key of None \<Rightarrow> fallback | Some v \<Rightarrow> v)"

definition py_float_of :: "(string \<Rightarrow> py_float option) \<Rightarrow> string \<Rightarrow> exn + py_float" where
  "py_float_of parse text = (case parse text of
     None \<Rightarrow> Inl (ValueError ''could not convert string to float'') | Some x \<Rightarrow> Inr x)"

text \<open>The checks of the values that were read.\<close>

definition checked_settings :: "settings \<Rightarrow> exn + settings" where
  "checked_settings s =
     (if not_positive (py_min (Finite (of_int (s_max_artifact_bytes s)))
          [Finite (of_int (s_round_ttl_seconds s)), Finite (of_int (s_retention_seconds s)),
           worker_poll_seconds s, worker_lease_seconds s, maintenance_interval_seconds s])
      then Inl (RuntimeError ''numeric DEKI settings must be positive'')
      else if (case s_max_participants s of None \<Rightarrow> False | Some n \<Rightarrow> n < 3)
      then Inl (RuntimeError ''DEKI_MAX_PARTICIPANTS must be at least 3'')
      else Inr s)"

definition from_env :: "(string \<Rightarrow> python option) \<Rightarrow> (string \<Rightarrow> py_float option) \<Rightarrow> (string \<Rightarrow> string option)
    \<Rightarrow> exn + settings" where
  "from_env loads parse env =
     (let token = env_get env ''DEKI_ADMIN_TOKEN'' '''' in
      if text_length token < 32 then Inl (RuntimeError ''DEKI_ADMIN_TOKEN must contain at least 32 characters'')
      else case loads (env_get env ''DEKI_FEDERATIONS_JSON'' ''{}'') of
        None \<Rightarrow> Inl (RuntimeError ''DEKI_FEDERATIONS_JSON is invalid'')
      | Some (PDict federations) \<Rightarrow>
          attempt (py_int (env_get env ''DEKI_MAX_ARTIFACT_BYTES'' ''536870912'')) (\<lambda>max_bytes.
          attempt (py_int (env_get env ''DEKI_ROUND_TTL_SECONDS'' ''1800'')) (\<lambda>ttl.
          attempt (py_int (env_get env ''DEKI_RETENTION_SECONDS'' ''86400'')) (\<lambda>retention.
          attempt (py_float_of parse (env_get env ''DEKI_WORKER_POLL_SECONDS'' ''0.25'')) (\<lambda>poll.
          attempt (py_float_of parse (env_get env ''DEKI_WORKER_LEASE_SECONDS'' ''900'')) (\<lambda>lease.
          attempt (py_float_of parse (env_get env ''DEKI_MAINTENANCE_INTERVAL_SECONDS'' ''60'')) (\<lambda>interval.
          attempt (case env ''DEKI_MAX_PARTICIPANTS'' of
               None \<Rightarrow> Inr None
             | Some v \<Rightarrow> if v = '''' then Inr None else attempt (py_int v) (\<lambda>n. Inr (Some n))) (\<lambda>limit.
          checked_settings \<lparr>database_path = env_get env ''DEKI_DATABASE_PATH'' ''/data/metadata.sqlite3'',
            artifact_path = env_get env ''DEKI_ARTIFACT_PATH'' ''/data/artifacts'',
            federation_config = federations, s_admin_token = token, s_max_artifact_bytes = max_bytes,
            s_round_ttl_seconds = ttl, s_retention_seconds = retention, worker_poll_seconds = poll,
            worker_lease_seconds = lease, maintenance_interval_seconds = interval,
            s_max_participants = limit\<rparr>)))))))
      | Some _ \<Rightarrow> Inl (RuntimeError ''DEKI_FEDERATIONS_JSON must be an object''))"

section \<open>What accepted settings satisfy\<close>

lemma float_less_trans_pos: "\<not> not_positive m \<Longrightarrow> not_positive x \<Longrightarrow> m \<noteq> NaN \<Longrightarrow> float_less x m"
  by (cases m; cases x) auto

lemma py_min_positive:
  assumes "first \<noteq> NaN" "\<not> not_positive (py_min first rest)"
  shows "\<not> not_positive first \<and> (\<forall>x\<in>set rest. \<not> not_positive x)"
proof -
  have "m \<noteq> NaN \<Longrightarrow> \<not> not_positive (foldl (\<lambda>m x. if float_less x m then x else m) m xs) \<Longrightarrow>
      \<not> not_positive m \<and> (\<forall>x\<in>set xs. \<not> not_positive x)" for m xs
  proof (induction xs arbitrary: m)
    case (Cons x xs)
    let ?m = "if float_less x m then x else m"
    have number: "?m \<noteq> NaN" using Cons.prems(1) by (cases x) auto
    have "\<not> not_positive (foldl (\<lambda>m x. if float_less x m then x else m) ?m xs)"
      using Cons.prems(2) unfolding foldl_Cons .
    with number have "\<not> not_positive ?m \<and> (\<forall>y\<in>set xs. \<not> not_positive y)" by (rule Cons.IH)
    then have ih: "\<not> not_positive ?m" "\<forall>y\<in>set xs. \<not> not_positive y" by - (erule conjunct1, erule conjunct2)
    show ?case
    proof (cases "float_less x m")
      case True
      then have "\<not> not_positive x" using ih(1) by simp
      moreover have "\<not> not_positive m" using True \<open>\<not> not_positive x\<close> by (cases x; cases m) auto
      ultimately show ?thesis using ih(2) by simp
    next
      case False
      then have "\<not> not_positive m" using ih(1) by simp
      with False Cons.prems(1) have "\<not> not_positive x" using float_less_trans_pos by blast
      with \<open>\<not> not_positive m\<close> ih(2) show ?thesis by simp
    qed
  qed simp
  from this [OF assms(1)] assms(2) show ?thesis by (simp add: py_min_def)
qed

lemma checked_same: "checked_settings s = Inr s' \<Longrightarrow> s' = s"
  by (simp add: checked_settings_def split: if_splits)

lemma attempt_cases: "attempt m k = Inr y \<Longrightarrow> (\<And>x. k x = Inr y \<Longrightarrow> P) \<Longrightarrow> P"
  by (cases m) simp_all

text \<open>The settings that were read have passed the checks.\<close>

lemma from_env_checked:
  assumes "from_env loads parse env = Inr s"
  shows "checked_settings s = Inr s \<and> 32 \<le> text_length (s_admin_token s)"
proof (cases "loads (env_get env ''DEKI_FEDERATIONS_JSON'' ''{}'')")
  case None
  with assms show ?thesis by (simp add: from_env_def Let_def split: if_splits)
next
  case (Some v)
  have long: "\<not> text_length (env_get env ''DEKI_ADMIN_TOKEN'' '''') < 32"
    using assms unfolding from_env_def Let_def by (rule contrapos_pn) simp
  show ?thesis
  proof (cases v)
    case (PDict federations)
    from assms [unfolded from_env_def Let_def Some PDict option.case python.case if_not_P [OF long]] show ?thesis
      by (elim attempt_cases) (use long checked_same in fastforce)
  qed (use assms long Some in \<open>simp_all add: from_env_def Let_def\<close>)
qed

end
