(* ===== verification/Server_Properties.thy ===== *)
theory Server_Properties
  imports Sample_World Replays Access Config Topology_Properties
begin

text \<open>
  The properties of the server as a whole: its files and rows, its callers, its worker and its maintenance, and
  the reference semantics of the loops that stream, digest, encode and configure.
\<close>

section \<open>Files and rows\<close>

text \<open>C3. The artifact store and the database agree, whatever the server does: from a sound world, such as the
  empty one, no sequence of starts, requests, worker runs and maintenance leads to a world with a file that no
  artifact row names, a row without its file, or a file whose digest or size is not the recorded one; and the
  database stays one that the methods of \<open>Database\<close> can reach.\<close>

theorem files_match_rows:
  assumes "attached env wenv" "sound env w0" "operated env wenv w0 w"
  shows "sound env new_world \<and> reachable (a_sha env) (wdb w) \<and>
    dom (wfiles w) = a_path ` set (artifacts (wdb w)) \<and>
    (\<forall>a\<in>set (artifacts (wdb w)). \<exists>c. wfiles w (a_path a) = Some c \<and>
       a_digest a = hexdigest (a_sha env) c \<and> a_size a = length c)"
proof (intro conjI ballI)
  have "sound env w" by (rule operated_sound [OF assms])
  then have w: "reachable (a_sha env) (wdb w)" "tracked (a_sha env) w" by (simp_all add: sound_def)
  show "sound env new_world" by (rule new_world_sound)
  show "reachable (a_sha env) (wdb w)" by (rule w)
  show dom: "dom (wfiles w) = a_path ` set (artifacts (wdb w))" using w(2) by (simp add: tracked_def)
  fix a assume a: "a \<in> set (artifacts (wdb w))"
  with dom obtain c where "wfiles w (a_path a) = Some c" by blast
  with a w(2) show "\<exists>c. wfiles w (a_path a) = Some c \<and> a_digest a = hexdigest (a_sha env) c \<and> a_size a = length c"
    by (auto simp: tracked_def)
qed

theorem files_match_rows_witness:
  "dom (wfiles (act sample_api sample_worker sample_run sample_world))
     = a_path ` set (artifacts (wdb (act sample_api sample_worker sample_run sample_world)))"
  using files_match_rows [OF sample_attached sample_sound sample_operated] by blast

text \<open>C19. The stored updates are well-typed: in every world that the server brings about, the file of an update
  reads as tensors with exactly the uploaded names of the schema of its round, each of type \<open>int64\<close> and of its
  shape in the schema, and every stored integrity tag is the text of sixteen bytes that denote an element of the field.\<close>

theorem stored_updates_typed:
  assumes "attached env wenv" "sound env w0" "operated env wenv w0 w"
  shows "(\<forall>a\<in>set (artifacts (wdb w)). a_type a = ''update'' \<longrightarrow> (\<exists>r c ts. round_of (a_round a) (wdb w) = Some r \<and>
       wfiles w (a_path a) = Some c \<and> safe_open env c = Inr ts \<and>
       set (map fst ts) = tensor_name ` {e \<in> set (entries (model_schema_json r)). uploaded e} \<and>
       (\<forall>name\<in>set (map fst ts). \<exists>e t. expected_entries (model_schema_json r) name = Some e \<and>
          map_of ts name = Some t \<and> t_dtype t = ''int64'' \<and> t_shape t = shape e)))
    \<and> (\<forall>p\<in>set (participants (wdb w)). \<forall>tag. p_integrity_tag p = Some tag \<longrightarrow>
       (\<exists>bs n. from_hex tag = Some bs \<and> length bs = 16 \<and> int_base16 tag = Some n \<and> n < FIELD_PRIME))"
proof (intro conjI ballI impI allI)
  have "sound env w" by (rule operated_sound [OF assms])
  then have v: "vetted env w" by (simp add: sound_def)
  fix a assume "a \<in> set (artifacts (wdb w))" "a_type a = ''update''"
  with v obtain r where r: "round_of (a_round a) (wdb w) = Some r"
    "validate_safetensors env (a_path a) (model_schema_json r) (wfiles w) = Inr ()" by (auto simp: vetted_def)
  from r(2) obtain c ts where ts: "wfiles w (a_path a) = Some c" "safe_open env c = Inr ts"
    "set (map fst ts) = set (expected_names (model_schema_json r))"
    "\<And>name. name \<in> set (expected_names (model_schema_json r)) \<Longrightarrow>
       \<exists>e. expected_entries (model_schema_json r) name = Some e \<and> tensor_matches ts e" by (rule validate_ok) blast
  have "\<exists>e t. expected_entries (model_schema_json r) name = Some e \<and> map_of ts name = Some t \<and>
      t_dtype t = ''int64'' \<and> t_shape t = shape e" if "name \<in> set (map fst ts)" for name
    using ts(4) [of name] that expected_name unfolding ts(3) by (fastforce simp: tensor_matches_def split: option.splits)
  moreover have "set (map fst ts) = tensor_name ` {e \<in> set (entries (model_schema_json r)). uploaded e}"
    unfolding ts(3) by (auto simp: expected_names_def)
  ultimately show "\<exists>r c ts. round_of (a_round a) (wdb w) = Some r \<and> wfiles w (a_path a) = Some c \<and> safe_open env c = Inr ts \<and>
       set (map fst ts) = tensor_name ` {e \<in> set (entries (model_schema_json r)). uploaded e} \<and>
       (\<forall>name\<in>set (map fst ts). \<exists>e t. expected_entries (model_schema_json r) name = Some e \<and>
          map_of ts name = Some t \<and> t_dtype t = ''int64'' \<and> t_shape t = shape e)" using r(1) ts(1,2) by blast
next
  have "sound env w" by (rule operated_sound [OF assms])
  then have v: "vetted env w" by (simp add: sound_def)
  fix p tag assume "p \<in> set (participants (wdb w))" "p_integrity_tag p = Some tag"
  with v have "tag_acceptable tag" by (auto simp: vetted_def)
  then show "\<exists>bs n. from_hex tag = Some bs \<and> length bs = 16 \<and> int_base16 tag = Some n \<and> n < FIELD_PRIME"
    by (auto simp: tag_acceptable_def split: option.splits)
qed

theorem stored_updates_typed_witness:
  "\<exists>c ts. wfiles sample_world ''/data/ua'' = Some c \<and> safe_open sample_api c = Inr ts \<and> set (map fst ts) = {''w''}"
proof -
  let ?a = "hd (artifacts sample_ready)"
  have a: "?a \<in> set (artifacts (wdb sample_world))" "a_type ?a = ''update''" "a_path ?a = ''/data/ua''"
    by (simp_all add: sample_world_def sample_ready_def)
  from stored_updates_typed [OF sample_attached sample_sound operated.found] a(1,2)
  have "\<exists>r c ts. round_of (a_round ?a) (wdb sample_world) = Some r \<and> wfiles sample_world (a_path ?a) = Some c \<and>
      safe_open sample_api c = Inr ts \<and> set (map fst ts) = tensor_name ` {e \<in> set (entries (model_schema_json r)). uploaded e}"
    by blast
  then obtain r c ts where r: "round_of (a_round ?a) (wdb sample_world) = Some r" "wfiles sample_world (a_path ?a) = Some c"
    "safe_open sample_api c = Inr ts" "set (map fst ts) = tensor_name ` {e \<in> set (entries (model_schema_json r)). uploaded e}"
    by blast
  have "map_option (\<lambda>r. map tensor_name (filter uploaded (entries (model_schema_json r))))
      (round_of (a_round ?a) (wdb sample_world)) = Some [''w'']" by code_simp
  then have "set (map tensor_name (filter uploaded (entries (model_schema_json r)))) = {''w''}" unfolding r(1) by simp
  then have "set (map fst ts) = {''w''}" unfolding r(4) by simp
  with r(2,3) a(3) show ?thesis by metis
qed

text \<open>C13. Requests are atomic on files and rows together: a request either leaves all files and all artifact rows
  as they were, or it answers that it recorded an upload, and then it added exactly one file and one row that names
  it with its digest and size.\<close>

theorem requests_atomic:
  assumes "reachable (a_sha env) (wdb w)" "fresh (store_root env) (fresh_object req) (wfiles w)"
    and "serve env req w = (res, w')"
  shows "wfiles w' = wfiles w \<and> artifacts (wdb w') = artifacts (wdb w) \<or>
    (\<exists>resp c a. res = Inr (Recorded resp False) \<and>
       wfiles w' = (wfiles w)(a_path a \<mapsto> c) \<and> wfiles w (a_path a) = None \<and>
       artifacts (wdb w') = artifacts (wdb w) @ [a] \<and> a_digest a = hexdigest (a_sha env) c \<and> a_size a = length c)"
proof -
  have "calm (a_sha env) w w' \<or>
    (\<exists>resp. res = Inr (Recorded resp False)) \<and> deposit env (final_path (store_root env) (fresh_object req)) w w'"
    using serve_served [OF assms(2,3)] by (simp add: served_def)
  then show ?thesis
  proof
    assume "calm (a_sha env) w w'"
    with assms(1) show ?thesis using calmD(1,3) by (auto simp: quiet_def)
  next
    assume "(\<exists>resp. res = Inr (Recorded resp False)) \<and> deposit env (final_path (store_root env) (fresh_object req)) w w'"
    with assms(1,2) show ?thesis by (fastforce simp: deposit_def fresh_def dest: row_addedD(3))
  qed
qed

theorem requests_atomic_witness:
  "let req = sample_request sample_token (Put_Update ''r2'' None (Some ''h'') [[1], [2]] None);
       w = sample_world; w' = snd (serve sample_api req w) in
   wfiles w' = wfiles w \<and> artifacts (wdb w') = artifacts (wdb w) \<or>
   (\<exists>resp c a. fst (serve sample_api req w) = Inr (Recorded resp False) \<and>
      wfiles w' = (wfiles w)(a_path a \<mapsto> c) \<and> wfiles w (a_path a) = None \<and> artifacts (wdb w') = artifacts (wdb w) @ [a] \<and>
      a_digest a = hexdigest (a_sha sample_api) c \<and> a_size a = length c)"
proof -
  have "reachable (a_sha sample_api) (wdb sample_world)" using sample_sound by (simp add: sound_def)
  moreover have "fresh (store_root sample_api) (fresh_object (sample_request t ep)) (wfiles sample_world)" for t ep
    using sample_fresh by (simp add: sample_request_def)
  ultimately show ?thesis
    unfolding Let_def by (rule requests_atomic [OF _ _ prod.collapse [symmetric]])
qed

section \<open>Callers\<close>

text \<open>C11. Nothing happens without a credential: a request that changes the world or gets an answer other than an
  error carries a bearer token, which is the configured one for the operator's endpoints, and for all others the
  token of an enrolled member that is not revoked.\<close>

theorem only_authenticated_act:
  assumes "serve env req w = (res, w')" "w' \<noteq> w \<or> \<not> isl res"
  shows "\<exists>token. authorization req = Some (''Bearer '' @ token) \<and>
    (if for_operator (endpoint_of req) then token = admin_token env
     else \<exists>m. m \<in> set (members_of (wdb w)) \<and> \<not> m_revoked m \<and> m_token_hash m = hexdigest (a_sha env) (encode token))"
proof (cases "for_operator (endpoint_of req)")
  case True
  then obtain m where "serve env req = as_operator env req m" by (rule serve_operator)
  with as_operator_passed assms have "operator_identity env (authorization req) = Inr ''operator''" by metis
  then show ?thesis using True operator_token by auto
next
  case False
  then obtain k where "serve env req = as_member env req k" by (rule serve_member)
  with as_member_passed assms obtain m where "participant_identity env (authorization req) (wdb w) = Inr m" by metis
  from participant_token [OF this] obtain token where token: "authorization req = Some (''Bearer '' @ token)"
    "member_for_token (a_sha env) token (wdb w) = Some m" by blast
  from token(2) have "m \<in> set (members_of (wdb w)) \<and> \<not> m_revoked m \<and> m_token_hash m = hexdigest (a_sha env) (encode token)"
    by (auto simp: member_for_token_def Let_def dest!: find_SomeD)
  with token(1) False show ?thesis by auto
qed

theorem only_authenticated_act_witness:
  "\<exists>m. m \<in> set (members_of sample_ready) \<and> \<not> m_revoked m \<and> m_token_hash m = hexdigest sample_hash (encode sample_token)"
proof -
  let ?req = "sample_request sample_token (Get_Me ''r2'')"
  have "isl (fst (serve sample_api ?req sample_world)) = False" by code_simp
  with only_authenticated_act [of sample_api ?req sample_world, OF prod.collapse [symmetric]] show ?thesis
    by (auto simp: sample_request_def sample_api_def sample_world_def)
qed

text \<open>C12. Members stay in their own rounds: a member who does not take part in a round, or a round that does not
  exist, gets an error with status 400, 403, 404 or 422 from every endpoint of the round, and the request leaves
  nothing behind but the expiry of the round, when its deadline had passed.\<close>

theorem outsiders_denied:
  assumes "reachable sha (wdb w)" "\<not> for_operator (endpoint_of req)"
    and "participant_identity env (authorization req) (wdb w) = Inr m"
    and "outsider (endpoint_round (endpoint_of req)) m (wdb w)"
  shows "(\<exists>st code msg r. st \<in> {400, 403, 404, 422} \<and> fst (serve env req w) = Inl (HTTPException st code msg r)) \<and>
    snd (serve env req w) \<in> {w, snd (on_db (get_round True (request_clock req 0) (request_clock req 1)
      (request_clock req 2) (endpoint_round (endpoint_of req))) w)}"
  using serve_denied [OF invariantD(1) [OF reachable_invariant [OF assms(1)]] assms(2-4)]
  by (auto simp: denied_def expired_view_def split: prod.splits)

theorem outsiders_denied_witness:
  "\<exists>st code msg r. st \<in> {400, 403, 404, 422} \<and>
     fst (serve sample_api (sample_request sample_token (Get_Result ''r9'')) sample_world) = Inl (HTTPException st code msg r)"
proof -
  let ?req = "sample_request sample_token (Get_Result ''r9'')"
  have "participant_identity sample_api (authorization ?req) (wdb sample_world) = Inr (hd (members_of sample_ready))"
    by code_simp
  moreover have "outsider (endpoint_round (endpoint_of ?req)) (hd (members_of sample_ready)) (wdb sample_world)"
    by code_simp
  moreover have "reachable sample_hash (wdb sample_world)" using sample_ready_reachable by (simp add: sample_world_def)
  moreover have "\<not> for_operator (endpoint_of ?req)" by (simp add: sample_request_def)
  ultimately show ?thesis using outsiders_denied by blast
qed

text \<open>C34. A token stands for one participant: in every reachable database no federation has two rows for a client,
  and a token is that of a member exactly when the member's row has its hash and is not revoked, so no two members
  share a token.\<close>

theorem tokens_identify_members:
  assumes "reachable sha s"
  shows "distinct (map (\<lambda>m. (m_federation m, m_client m)) (members_of s)) \<and>
    (member_for_token sha token s = Some m \<longleftrightarrow>
       m \<in> set (members_of s) \<and> m_token_hash m = hexdigest sha (encode token) \<and> \<not> m_revoked m)"
  using reachable_members [OF assms] member_for_token_iff [OF reachable_members [OF assms]]
  by (simp add: members_ok_def)

theorem tokens_identify_members_witness:
  "member_for_token sample_hash sample_token sample_ready = Some (hd (members_of sample_ready))"
proof -
  have "m_token_hash (hd (members_of sample_ready)) = hexdigest sample_hash (encode sample_token)" by code_simp
  with tokens_identify_members [OF sample_ready_reachable, of sample_token "hd (members_of sample_ready)"]
  show ?thesis by (simp add: sample_ready_def)
qed

section \<open>Idempotency\<close>

text \<open>C14. Repeating a recorded request is safe: after a method that records under a key has returned, the same
  method with the same key, at any later state that still holds the recorded answers, gives the first answer again
  and changes nothing, whatever its clock, its new identifiers and its other arguments are, when the digest of the
  content is the same, and is refused as a conflict when it is another one.\<close>

theorem repeated_requests_answered_alike:
  assumes "uploading sl m" "uploading sl m'" "m dg s = (Inr (resp, flag), s1)"
    and "receipting sl' n" "receipting sl' n'" "n dg t = (Inr resp', t1)"
    and "prefix (idempotency s1) (idempotency s2)" "prefix (idempotency t1) (idempotency t2)"
  shows "m' dg s2 = (Inr (resp, True), s2) \<and> n' dg t2 = (Inr resp', t2) \<and>
    (dg' \<noteq> dg \<longrightarrow> m' dg' s2 = (Inl (ValueError ''IDEMPOTENCY_CONFLICT''), s2) \<and>
       n' dg' t2 = (Inl (ValueError ''IDEMPOTENCY_CONFLICT''), t2))"
proof -
  obtain p where p: "recorded_in sl s1 = Some p" "i_digest p = dg" "i_response p = resp"
    using keyed_method.answered [OF uploading_keyed [OF assms(1)] assms(3)] by auto
  obtain q where q: "recorded_in sl' t1 = Some q" "i_digest q = dg" "i_response q = resp'"
    using keyed_method.answered [OF receipting_keyed [OF assms(4)] assms(6)] by auto
  from keyed_method.known [OF uploading_keyed [OF assms(2)] recorded_in_prefix [OF assms(7) p(1)]]
    keyed_method.known [OF receipting_keyed [OF assms(5)] recorded_in_prefix [OF assms(8) q(1)]]
  show ?thesis using p(2,3) q(2,3) by simp
qed

theorem repeated_requests_answered_alike_witness:
  "record_update 9 9 ''j9'' ''r2'' ''a'' (sample_file ''new'' ''x'') ''other'' ''k'' ''d'' sample_ready
     = (Inr (ArtifactAccepted ''ua'' ''0000000000000002000000000000000100000000000000000000000000000000'' 16, True), sample_ready)"
proof -
  let ?resp = "ArtifactAccepted ''ua'' ''0000000000000002000000000000000100000000000000000000000000000000'' 16"
  have first: "record_update 3 3 ''j'' ''r2'' ''a'' (sample_file ''ua'' ''x'') ''tag'' ''k'' ''d'' sample_ready
      = (Inr (?resp, True), sample_ready)" by code_simp
  have second: "key_complete sample_hash 3 3 ''r2'' ''a'' ''c'' ''k'' ''d'' sample_ready = (Inr Accepted, sample_ready)"
    by code_simp
  show ?thesis
    using repeated_requests_answered_alike [OF uploading.intros(6) uploading.intros(6) first
        receipting.intros(1) receipting.intros(1) second prefix_order.refl prefix_order.refl] by blast
qed

section \<open>The worker and the maintenance\<close>

text \<open>C5. The worker adds as the clients expect: over a reader of tensors that are filled (they have as many elements as
  their shape says), the loop returns one tensor for every uploaded name, each element being the sum of that element over all
  accepted updates modulo \<open>2 ^ 64\<close>, and the tag is the sum of the tags in the prime field.\<close>

theorem aggregate_sums:
  assumes "distinct_names env" "inputs \<noteq> []"
    and "filled env" "aggregate_loop env t job_id token schema inputs None 0 w = (Inr (agg, tag), w')"
  shows "\<exists>g parts. agg = Some g \<and> list_all2 (accepted env schema (wfiles w)) inputs parts \<and>
    set (map fst g) = set (expected_names schema) \<and> tag = sum_list (map snd parts) mod FIELD_PRIME \<and>
    (\<forall>n\<in>set (expected_names schema). \<exists>x e. map_of g n = Some x \<and> expected_entries schema n = Some e \<and>
       t_shape x = shape e \<and> length (t_data x) = nat (prod_list (shape e)) \<and>
       (\<forall>i<length (t_data x). uint (t_data x ! i) =
          (\<Sum>(ts, v)\<leftarrow>parts. uint (t_data (the (map_of ts n)) ! i)) mod 2 ^ 64))"
proof -
  from loop_result [OF assms(1,2,4)] obtain g parts where g: "agg = Some g"
    "list_all2 (accepted env schema (wfiles w)) inputs parts" "set (map fst g) = set (expected_names schema)"
    "\<And>n. n \<in> set (expected_names schema) \<Longrightarrow> map_of g n = Some (summed n (the (map_of (fst (hd parts)) n)) (tl parts))"
    "tag = sum_list (map snd parts) mod FIELD_PRIME" by blast
  obtain p ps where parts: "parts = p # ps" using g(2) assms(2) by (cases parts) auto
  have "\<exists>x e. map_of g n = Some x \<and> expected_entries schema n = Some e \<and> t_shape x = shape e \<and>
       length (t_data x) = nat (prod_list (shape e)) \<and>
       (\<forall>i<length (t_data x). uint (t_data x ! i) = (\<Sum>(ts, v)\<leftarrow>parts. uint (t_data (the (map_of ts n)) ! i)) mod 2 ^ 64)"
    if n: "n \<in> set (expected_names schema)" for n
  proof -
    let ?at = "\<lambda>(ts, v). the (map_of ts n) :: tensor"
    have each: "\<exists>e. expected_entries schema n = Some e \<and> t_shape (?at q) = shape e \<and>
        length (t_data (?at q)) = nat (prod_list (shape e))" if "q \<in> set parts" for q
    proof -
      obtain ts v where q: "q = (ts, v)" by (cases q)
      from g(2) that obtain input where "accepted env schema (wfiles w) input q"
        by (metis in_set_conv_nth list_all2_conv_all_nth)
      from accepted_length [OF assms(3) this [unfolded q] n] show ?thesis by (auto simp: q)
    qed
    from each [of p] obtain e where e: "expected_entries schema n = Some e" "t_shape (?at p) = shape e"
      "length (t_data (?at p)) = nat (prod_list (shape e))" by (auto simp: parts)
    have "\<forall>x\<in>set (map ?at ps). length (t_data x) = length (t_data (?at p))"
      using each e(1,3) by (fastforce simp: parts)
    note sum = foldl_add_tensor [OF this]
    have x: "map_of g n = Some (foldl add_tensor (?at p) (map ?at ps))"
      using g(4) [OF n] by (simp add: summed_def parts case_prod_beta)
    have "uint (t_data (foldl add_tensor (?at p) (map ?at ps)) ! i)
        = (\<Sum>(ts, v)\<leftarrow>parts. uint (t_data (the (map_of ts n)) ! i)) mod 2 ^ 64" if "i < length (t_data (?at p))" for i
    proof -
      have "t_data (foldl add_tensor (?at p) (map ?at ps)) ! i = sum_list (map (\<lambda>x. t_data x ! i) (map ?at parts))"
        using sum that by (simp add: parts)
      then show ?thesis by (simp add: uint_sum_list comp_def case_prod_unfold)
    qed
    with x e sum show ?thesis by auto
  qed
  with g show ?thesis by blast
qed

theorem aggregate_sums_witness:
  "\<exists>g w'. aggregate_loop sample_worker (\<lambda>_. 5) ''j'' ''worker'' sample_schema sample_inputs None 0
       (sample_world\<lparr>wdb := sample_claim\<rparr>) = (Inr (Some g, 6), w') \<and>
     (\<exists>x. map_of g ''w'' = Some x \<and> uint (t_data x ! 0) = 259 \<and> uint (t_data x ! 1) = 12)"
proof -
  let ?w = "sample_world\<lparr>wdb := sample_claim\<rparr>"
  have names: "distinct_names sample_worker" using sample_same_reader by (simp add: same_reader_def)
  have accepted: "list_all2 (accepted sample_worker sample_schema (wfiles ?w)) sample_inputs sample_parts"
    using sample_accepted by simp
  then have "\<forall>input\<in>set sample_inputs. \<exists>part. accepted sample_worker sample_schema (wfiles ?w) input part"
    by (metis in_set_conv_nth list_all2_conv_all_nth)
  moreover have "0 < lease_seconds sample_worker" by (simp add: sample_worker_def)
  ultimately have "\<exists>agg tag w'. aggregate_loop sample_worker (\<lambda>_. 5) ''j'' ''worker'' sample_schema sample_inputs None 0 ?w
      = (Inr (agg, tag), w') \<and> leased ?w w'"
    by (intro loop_runs [OF names _ _ sample_held]) simp_all
  then obtain agg tag w' where run: "aggregate_loop sample_worker (\<lambda>_. 5) ''j'' ''worker'' sample_schema sample_inputs None 0 ?w
      = (Inr (agg, tag), w')" by blast
  have some: "sample_inputs \<noteq> []" by (simp add: sample_inputs_def sample_ready_def)
  from aggregate_sums [OF names some sample_filled run] obtain g parts where g: "agg = Some g"
    "list_all2 (accepted sample_worker sample_schema (wfiles ?w)) sample_inputs parts" "tag = sum_list (map snd parts) mod FIELD_PRIME"
    "\<forall>n\<in>set (expected_names sample_schema). \<exists>x e. map_of g n = Some x \<and> expected_entries sample_schema n = Some e \<and>
       t_shape x = shape e \<and> length (t_data x) = nat (prod_list (shape e)) \<and>
       (\<forall>i<length (t_data x). uint (t_data x ! i) =
          (\<Sum>(ts, v)\<leftarrow>parts. uint (t_data (the (map_of ts n)) ! i)) mod 2 ^ 64)" by blast
  have parts: "parts = sample_parts" by (rule all_accepted_unique [OF g(2) accepted])
  have "''w'' \<in> set (expected_names sample_schema)" "expected_entries sample_schema ''w'' = Some (hd (entries sample_schema))"
    by code_simp+
  with g(4) obtain x where x: "map_of g ''w'' = Some x" "length (t_data x) = 2"
    "\<forall>i<length (t_data x). uint (t_data x ! i) = (\<Sum>(ts, v)\<leftarrow>parts. uint (t_data (the (map_of ts ''w'')) ! i)) mod 2 ^ 64"
    by (fastforce simp: sample_schema_def)
  then have "uint (t_data x ! 0) = 259" "uint (t_data x ! 1) = 12" by (simp_all add: parts sample_parts_def)
  moreover have "tag = 6" unfolding g(3) parts by (simp add: sample_parts_def FIELD_PRIME_def)
  ultimately show ?thesis using run g(1) x(1) by blast
qed

text \<open>C4. Whatever the uploads were, a run of the worker that gets a job finishes it: its run returns, the round is
  \<open>RESULT_READY\<close>, its one result row has the tag of the sum, and the file of that row holds the sums over the updates
  of all participants, none of which the worker refuses. The identifier of the result must be fresh, the server and
  the worker must read tensors alike and fill them, and the limit of the worker must leave room for what the schema
  of the round asks for: the file of any tensors of exactly its names, shapes and type, with all their elements.\<close>

theorem worker_publishes:
  assumes "attached env wenv" "same_reader env wenv" "sound env w0" "operated env wenv w0 w"
    and "claim_job now tnow token (lease_seconds wenv) (wdb w) = (Inr (Some j), s)"
    and "round_of (j_round j) s = Some r" "participants_json r \<noteq> []"
    and "fresh (store_root env) oid (wfiles w)" "\<forall>a\<in>set (artifacts (wdb w)). a_id a \<noteq> oid"
    and "filled wenv" "\<And>ts. shaped_tensors (model_schema_json r) ts \<Longrightarrow>
      length (save_tensors wenv ts) \<le> w_max_bytes wenv"
  shows "\<exists>w' inputs. run_once wenv now tnow t tfail token oid w = (Inr True, w') \<and>
    job_inputs (j_round j) s = Inr (r, inputs) \<and> length inputs = expected_count r \<and>
    published wenv (j_round j) (wfiles w) inputs w'"
  by (rule run_once_publishes [OF operated_sound [OF assms(1,3,4)] assms(1,2,5-11)])

theorem worker_publishes_witness:
  "\<exists>w' inputs. run_once sample_worker 5 (\<lambda>_. 5) (\<lambda>_. 5) 5 ''worker'' ''result'' sample_world = (Inr True, w') \<and>
     length inputs = 3 \<and> published sample_worker ''r2'' (wfiles sample_world) inputs w'"
proof -
  let ?j = "hd (jobs sample_claim)" and ?r = "hd (rounds sample_claim)"
  have facts: "j_round ?j = ''r2''" "round_of (j_round ?j) sample_claim = Some ?r" "participants_json ?r \<noteq> []" "expected_count ?r = 3"
    "model_schema_json ?r = sample_schema"
    by code_simp+
  have "\<forall>a\<in>set (artifacts (wdb sample_world)). a_id a \<noteq> ''result''" by (simp add: sample_world_def sample_ready_def)
  from worker_publishes [OF sample_attached sample_same_reader sample_sound operated.found sample_claim_run facts(2,3)
      sample_fresh this sample_filled sample_save_short [folded facts(5)], of "\<lambda>_. 5" 5] facts(1,4)
  show ?thesis by auto
qed



section \<open>Reference semantics\<close>

text \<open>C37. Streaming stores the whole body: receiving a body in chunks does what storing the concatenation of the
  chunks at once does, however it is cut, with the same limit, and a body that fails to arrive leaves the store as
  it was.\<close>

theorem streaming_is_storing:
  assumes "fs (temporary_path dir oid) = None"
  shows "put_stream sha dir max_bytes oid chunks failure fs =
    (case failure of
       None \<Rightarrow> put_bytes sha dir max_bytes oid (concat chunks) fs
     | Some e \<Rightarrow> (Inl (if length (concat chunks) > max_bytes then ValueError ''artifact exceeds configured byte limit'' else e), fs))"
  using assms
  by (cases failure) (auto simp: put_stream_eq [symmetric] put_stream_def receive_eq Let_def fun_upd_idem)

theorem streaming_is_storing_witness:
  "put_stream zero_digest ''/data'' 3 ''x'' [[1, 2], [], [3]] None Map.empty = put_bytes zero_digest ''/data'' 3 ''x'' [1, 2, 3] Map.empty"
  using streaming_is_storing [of Map.empty "''/data''" "''x''" zero_digest 3 "[[1, 2], [], [3]]" None] by simp

text \<open>C36. The digest of an encrypted upload, computed while its last sixteen bytes are held back, is the digest of
  the nonce and the ciphertext without its authentication tag, wherever the blocks of the file end.\<close>

theorem ciphertext_digest_reference:
  "ciphertext_digest sha path nonce fs = (case fs path of
     None \<Rightarrow> Inl (OSError ''No such file or directory'')
   | Some content \<Rightarrow>
       if length content < 16 then Inl (ValueError ''ciphertext is too short'')
       else Inr (hexdigest sha (nonce @ take (length content - 16) content)))"
  by (rule ciphertext_digest_eq)

text \<open>What \<open>json.loads\<close> makes of a JSON value.\<close>

fun python_value :: "json \<Rightarrow> python" where
  "python_value JNull = PNone"
| "python_value (JBool b) = PBool b"
| "python_value (JInt i) = PInt i"
| "python_value (JStr s) = PStr s"
| "python_value (JList vs) = PList (map python_value vs)"
| "python_value (JObj kvs) = PDict (map (\<lambda>(k, v). (k, python_value v)) kvs)"

text \<open>The values that metadata consists of: texts, integers and lists of texts.\<close>

fun plain :: "json \<Rightarrow> bool" where
  "plain (JStr s) = True"
| "plain (JInt i) = True"
| "plain (JList vs) = (\<forall>v\<in>set vs. \<exists>s. v = JStr s)"
| "plain _ = False"

lemma plain_sorted: "plain v \<Longrightarrow> sort_keys v = v"
  by (cases v) (auto intro!: map_idI)

lemma plain_equal: "plain v \<Longrightarrow> value_equal (python_value v) v"
  by (cases v) (auto simp: list_all2_map1 list.rel_refl_strong list_all2_same)

lemma loaded_items:
  assumes "distinct (map fst kvs)" "\<forall>(k, v)\<in>set kvs. plain v" "(k, v) \<in> set kvs"
  shows "map_of (map (\<lambda>(k, v). (k, python_value v)) (sort_key fst (map (\<lambda>(k, v). (k, sort_keys v)) kvs))) k
    = Some (python_value v)"
proof -
  have "map (\<lambda>(k, v). (k, sort_keys v)) kvs = kvs"
    using assms(2) by (auto intro!: map_idI simp: plain_sorted)
  moreover have "distinct (map fst (sort_key fst kvs))"
    using assms(1) by (simp add: distinct_map inj_on_def)
  then have "map_of (sort_key fst kvs) k = Some v" using assms(3) by simp
  ultimately show ?thesis by (simp add: map_of_map)
qed

lemma loaded_equal:
  assumes "distinct (map fst kvs)" "\<forall>(k, v)\<in>set kvs. plain v"
  shows "dict_equal (map (\<lambda>(k, v). (k, python_value v)) (sort_key fst (map (\<lambda>(k, v). (k, sort_keys v)) kvs))) kvs"
proof -
  have "value_equal (python_value v) v" if "(k, v) \<in> set kvs" for k v
    using that assms(2) by (auto intro: plain_equal)
  with loaded_items [OF assms] show ?thesis
    by (auto simp: dict_equal_def list_all_iff image_image case_prod_beta split: option.splits)
qed

text \<open>What both encrypted uploads expect: a nonce, a digest and else nothing that the file determines but its size.\<close>

inductive upload_value :: "(string \<Rightarrow> string \<Rightarrow> (string \<times> json) list) \<Rightarrow> bool" where
  "upload_value (\<lambda>nonce digest. artifact_value tk plan_hash schema_hash nonce digest sz)"
| "upload_value (\<lambda>nonce digest. final_key_value row plan_hash sender_id nonce digest sz)"

lemma upload_value_plain:
  assumes "upload_value f"
  shows "distinct (map fst (f n d))" "\<forall>(k, v)\<in>set (f n d). plain v" "(''nonce'', JStr n) \<in> set (f n d)"
    "(''ciphertext_digest'', JStr d) \<in> set (f n d)"
  using assms by (cases; auto simp: artifact_value_def final_key_value_def)+

text \<open>The header of an honest client is read back as a dictionary that equals the value for its own digest only.\<close>

lemma loaded_metadata:
  assumes "upload_value f" "expected = f n d"
    and "load_json env (encode (canonical_json (JObj expected))) = Some (python_value (sort_keys (JObj expected)))"
  obtains md where "\<And>rid. decode_metadata env (Some (b64encode (encode (canonical_json (JObj expected))))) rid = Inr md"
    "nonce_text env md = n" "\<And>d'. dict_equal md (f n d') \<longleftrightarrow> d' = d"
proof
  let ?md = "map (\<lambda>(k, v). (k, python_value v)) (sort_key fst (map (\<lambda>(k, v). (k, sort_keys v)) expected))"
  note plain = upload_value_plain [OF assms(1), where n = n and d = d, folded assms(2)]
  show "decode_metadata env (Some (b64encode (encode (canonical_json (JObj expected))))) rid = Inr ?md" for rid
    using assms(3) by (simp add: decode_metadata_def b64_decode_encode)
  show "nonce_text env ?md = n"
    unfolding nonce_text_def loaded_items [OF plain(1,2) plain(3)] by simp
  show "dict_equal ?md (f n d') \<longleftrightarrow> d' = d" for d'
  proof
    assume "dict_equal ?md (f n d')"
    with upload_value_plain(4) [OF assms(1), where n = n and d = d'] loaded_items [OF plain(1,2) plain(4)]
    show "d' = d" unfolding dict_equal_def list_all_iff by force
  next
    assume "d' = d"
    with loaded_equal [OF plain(1,2)] show "dict_equal ?md (f n d')" by (simp add: assms(2))
  qed
qed

text \<open>The check on a file that consists of a body and sixteen bytes of authentication tag.\<close>

lemma check_upload_run:
  assumes "nonce_text env md = b64encode nonce" "length nonce = 12"
    and "wfiles w (stored_path stored) = Some (body @ tag)" "length tag = 16"
  shows "check_upload env row m purpose message md f sig stored w =
    (let digest = hexdigest (a_sha env) (nonce @ body); expected = f (b64encode nonce) digest in
     if \<not> dict_equal md expected then Inl (ValueError message)
     else map_sum id (\<lambda>_. (digest, upload_digest env expected sig stored)) (verify_signature env row m purpose (JObj expected) sig), w)"
proof -
  have digest: "ciphertext_digest (a_sha env) (stored_path stored) nonce (wfiles w) = Inr (hexdigest (a_sha env) (nonce @ body))"
    using assms(3,4) by (simp add: ciphertext_digest_eq)
  show ?thesis
    by (simp add: check_upload_def Let_def assms(1,2) b64_decode_encode call_def digest split: sum.split)
qed

text \<open>C39. An encrypted upload is taken when it is what its metadata says, and refused when it is not. The client puts the
  metadata value into the header as base 64 of its canonical JSON; the server reads that value back. When the stored
  file is a body with sixteen bytes of authentication tag, whose digest after the nonce is the one in the metadata,
  the check succeeds exactly when the signature of that value is valid; a stored file whose body has
  another digest is refused whatever the signature. This holds for the metadata of task artifacts and of the final
  key, and the check changes nothing.\<close>

theorem encrypted_upload_checked:
  assumes "upload_value expected_for" "expected = expected_for (b64encode nonce) (hexdigest (a_sha env) (nonce @ body))"
    and "length nonce = 12" "length tag = 16"
    and "load_json env (encode (canonical_json (JObj expected))) = Some (python_value (sort_keys (JObj expected)))"
  shows "\<exists>metadata. decode_metadata env (Some (b64encode (encode (canonical_json (JObj expected))))) rid = Inr metadata \<and>
    (\<forall>w sig stored. wfiles w (stored_path stored) = Some (body @ tag) \<longrightarrow>
       check_upload env row m purpose message metadata expected_for sig stored w =
         (if signature_valid env row m purpose (JObj expected) sig
          then Inr (hexdigest (a_sha env) (nonce @ body), upload_digest env expected sig stored)
          else Inl (api_error 422 ''ARTIFACT_INVALID'' ''identity signature is invalid'' (Some (round_id row))), w)) \<and>
    (\<forall>w sig stored body' tag'. wfiles w (stored_path stored) = Some (body' @ tag') \<longrightarrow> length tag' = 16 \<longrightarrow>
       hexdigest (a_sha env) (nonce @ body') \<noteq> hexdigest (a_sha env) (nonce @ body) \<longrightarrow>
       check_upload env row m purpose message metadata expected_for sig stored w = (Inl (ValueError message), w))"
proof -
  from loaded_metadata [OF assms(1,2,5)] obtain md where
    md: "\<And>rid. decode_metadata env (Some (b64encode (encode (canonical_json (JObj expected))))) rid = Inr md"
      "nonce_text env md = b64encode nonce"
      "\<And>d. dict_equal md (expected_for (b64encode nonce) d) \<longleftrightarrow> d = hexdigest (a_sha env) (nonce @ body)" by blast
  note run = check_upload_run [OF md(2) assms(3)]
  show ?thesis
  proof (intro exI [of _ md] conjI allI impI md(1))
    fix w :: world and sig and stored :: stored_object
    assume "wfiles w (stored_path stored) = Some (body @ tag)"
    from run [OF this assms(4), of row m purpose message expected_for sig] show "check_upload env row m purpose message md expected_for sig stored w =
        (if signature_valid env row m purpose (JObj expected) sig
         then Inr (hexdigest (a_sha env) (nonce @ body), upload_digest env expected sig stored)
         else Inl (api_error 422 ''ARTIFACT_INVALID'' ''identity signature is invalid'' (Some (round_id row))), w)"
      by (simp add: Let_def md(3) verify_signature_def flip: assms(2))
  next
    fix w :: world and sig and stored :: stored_object and body' tag'
    assume "wfiles w (stored_path stored) = Some (body' @ tag')" "length tag' = 16"
      "hexdigest (a_sha env) (nonce @ body') \<noteq> hexdigest (a_sha env) (nonce @ body)"
    with run [OF this(1,2), of row m purpose message expected_for sig]
    show "check_upload env row m purpose message md expected_for sig stored w = (Inl (ValueError message), w)"
      by (simp add: Let_def md(3))
  qed
qed

text \<open>The first task of the sample round, with a signature of the length that the sample environment takes.\<close>

definition sample_expected :: "(string \<times> json) list" where
  "sample_expected = artifact_value (hd (plan_tasks sample_plan)) ''p'' ''h'' (b64encode (replicate 12 7))
     (hexdigest sample_hash (replicate 12 7 @ [1, 2, 3])) 19"

definition sample_loading :: api_env where
  "sample_loading = sample_api\<lparr>load_json := (\<lambda>bs. if bs = encode (canonical_json (JObj sample_expected))
     then Some (python_value (sort_keys (JObj sample_expected))) else None)\<rparr>"

theorem encrypted_upload_checked_witness:
  "\<exists>metadata. decode_metadata sample_loading (Some (b64encode (encode (canonical_json (JObj sample_expected))))) ''r1'' = Inr metadata"
proof -
  have "a_sha sample_loading = sample_hash" by (simp add: sample_loading_def sample_api_def)
  then have "sample_expected = artifact_value (hd (plan_tasks sample_plan)) ''p'' ''h'' (b64encode (replicate 12 7))
      (hexdigest (a_sha sample_loading) (replicate 12 7 @ [1, 2, 3])) 19" by (simp add: sample_expected_def)
  moreover have "load_json sample_loading (encode (canonical_json (JObj sample_expected)))
      = Some (python_value (sort_keys (JObj sample_expected)))" by (simp add: sample_loading_def)
  moreover have "length (replicate 12 (7 :: 8 word)) = 12" "length (replicate 16 (0 :: 8 word)) = 16" by simp_all
  ultimately show ?thesis
    using encrypted_upload_checked [OF upload_value.intros(1), where expected = sample_expected and env = sample_loading
      and nonce = "replicate 12 7" and body = "[1, 2, 3]" and tag = "replicate 16 0" and rid = "''r1''"] by blast
qed

text \<open>C32. Signed and hashed bytes cannot be confused across contexts. The domain that the API puts before a signed value
  is the one that the topology puts before the manifest it hashes, and the bytes of a domain followed by the canonical
  JSON of an object or a list are equal exactly when the purpose, all fields of the round context and the value, up to the
  order of keys, are. The purpose and the text fields of the context must hold no NUL.\<close>

theorem signed_bytes_injective:
  assumes "nul_free row" "nul_free row'" "CHR 0x00 \<notin> set purpose" "CHR 0x00 \<notin> set purpose'"
    and "structured v" "structured v'"
  shows "message_domain row client purpose = domain_bytes row purpose \<and>
    (message_domain row client purpose @ encode (canonical_json v)
        = message_domain row' client' purpose' @ encode (canonical_json v')
      \<longleftrightarrow> domain_fields row purpose = domain_fields row' purpose' \<and> sort_keys v = sort_keys v') \<and>
    (domain_bytes row purpose @ encode (canonical_json v) = domain_bytes row' purpose' @ encode (canonical_json v')
      \<longleftrightarrow> domain_fields row purpose = domain_fields row' purpose' \<and> sort_keys v = sort_keys v')"
proof -
  have "message_domain r c p = domain_bytes r p" for r c p
    by (simp add: message_domain_def domain_bytes_def domain_fields_def)
  with domain_bytes_inj [OF assms] show ?thesis by simp
qed

theorem signed_bytes_injective_witness:
  "domain_bytes (hd (rounds sample_ready)) ''key-bundle'' @ encode (canonical_json (JObj []))
     \<noteq> domain_bytes (hd (rounds sample_ready)) ''tree-topology'' @ encode (canonical_json (JList []))"
proof -
  let ?r = "hd (rounds sample_ready)"
  have "nul_free ?r" by (simp add: nul_free_def sample_ready_def)
  from signed_bytes_injective [OF this this, of "''key-bundle''" "''tree-topology''" "JObj []" "JList []" "''a''" "''a''"]
  show ?thesis by simp
qed

text \<open>C38. The tag of a result is written in the format that tags are read in: every element of the field becomes
  thirty-two hexadecimal digits, an acceptable tag whose value is that element.\<close>

theorem result_tag_roundtrip:
  assumes "0 \<le> tag" "tag < FIELD_PRIME"
  shows "\<exists>text. tag_hex tag = Inr text \<and> length text = 32 \<and> tag_acceptable text \<and> read_tag repr (Some text) = Inr tag"
proof -
  from assms obtain bs where bs: "tag_hex tag = Inr (hex bs)" using tag_hex_runs by blast
  note ok = tag_hex_acceptable [OF bs assms(2)]
  from ok assms have "read_tag repr (Some (hex bs)) = Inr tag" by (simp add: read_tag_def)
  with bs ok show ?thesis by blast
qed

theorem result_tag_roundtrip_witness: "\<exists>text. tag_hex 6 = Inr text \<and> length text = 32 \<and> read_tag id (Some text) = Inr 6"
proof -
  have "0 \<le> (6 :: int)" "6 < FIELD_PRIME" by (simp_all add: FIELD_PRIME_def)
  from result_tag_roundtrip [OF this, of id] show ?thesis by blast
qed

text \<open>C40. Accepted settings are in bounds: the operator's token has at least thirty-two characters, the sizes and
  times are positive, a limit of participants is at least three, and the intervals of the worker are positive
  numbers, infinite, or not numbers at all.\<close>

theorem settings_in_bounds:
  assumes "from_env loads parse env = Inr s"
  shows "32 \<le> text_length (s_admin_token s) \<and> 0 < s_max_artifact_bytes s \<and> 0 < s_round_ttl_seconds s \<and>
    0 < s_retention_seconds s \<and> (\<forall>n. s_max_participants s = Some n \<longrightarrow> 3 \<le> n) \<and>
    (\<forall>x\<in>{worker_poll_seconds s, worker_lease_seconds s, maintenance_interval_seconds s}.
       x = NaN \<or> x = Infinite False \<or> (\<exists>r>0. x = Finite r))"
proof -
  from from_env_checked [OF assms] have s: "\<not> not_positive (py_min (Finite (of_int (s_max_artifact_bytes s)))
        [Finite (of_int (s_round_ttl_seconds s)), Finite (of_int (s_retention_seconds s)),
         worker_poll_seconds s, worker_lease_seconds s, maintenance_interval_seconds s])"
    "\<forall>n. s_max_participants s = Some n \<longrightarrow> 3 \<le> n" "32 \<le> text_length (s_admin_token s)"
    by (auto simp: checked_settings_def split: if_splits option.splits)
  from py_min_positive [OF _ s(1)] have all: "0 < s_max_artifact_bytes s" "0 < s_round_ttl_seconds s" "0 < s_retention_seconds s"
    "\<not> not_positive (worker_poll_seconds s)" "\<not> not_positive (worker_lease_seconds s)"
    "\<not> not_positive (maintenance_interval_seconds s)" by simp_all
  have "x = NaN \<or> x = Infinite False \<or> (\<exists>r>0. x = Finite r)" if "\<not> not_positive x" for x
    using that by (cases x) auto
  with s all show ?thesis by blast
qed

text \<open>The settings of an environment that sets the token only.\<close>

definition sample_environment :: "string \<rightharpoonup> string" where
  "sample_environment = [''DEKI_ADMIN_TOKEN'' \<mapsto> ''operator-token-of-the-federation'']"

theorem settings_in_bounds_witness:
  "\<exists>s. from_env (\<lambda>_. Some (PDict [])) (\<lambda>_. Some (Finite 1)) sample_environment = Inr s \<and> 0 < s_max_artifact_bytes s"
proof -
  have "isl (from_env (\<lambda>_. Some (PDict [])) (\<lambda>_. Some (Finite 1)) sample_environment) = False" by code_simp
  then obtain s where "from_env (\<lambda>_. Some (PDict [])) (\<lambda>_. Some (Finite 1)) sample_environment = Inr s"
    by (auto simp: isl_def) (metis sum.exhaust)
  with settings_in_bounds [OF this] show ?thesis by blast
qed

end
