(* ===== verification/Deviations.thy ===== *)
theory Deviations
  imports Replays Access Config
begin

text \<open>
  Behaviour of the code that differs from what its documents or its own error answers say, each as a lemma
  about the model.
\<close>

text \<open>
  The client whose commitment fails a round with \<open>KEY_CONTEXT_MISMATCH\<close> gets the error; when it repeats the
  request with the same key it gets the recorded answer, which says that the commitment was accepted.
\<close>

lemma mismatch_repeated_as_accepted:
  assumes "key_complete sha now tnow rid client commitment k dg s = (Inl (ValueError ''KEY_CONTEXT_MISMATCH''), s1)"
    and "s1 \<noteq> s" "prefix (idempotency s1) (idempotency s2)"
  shows "\<exists>resp. key_complete sha now' tnow' rid client commitment' k dg s2 = (Inr resp, s2)"
proof -
  obtain v t where run: "key_commit sha now tnow rid client commitment k dg s = (v, t)" by fastforce
  show ?thesis
  proof (cases v)
    case (Inl e)
    with run have "t = s" unfolding key_commit_def by (auto dest: transaction_Inl)
    with run Inl assms(1,2) show ?thesis by (simp add: key_complete_def call_def)
  next
    case (Inr x)
    with run assms(1) have "t = s1" by (auto simp: key_complete_def call_def split: prod.splits if_splits)
    then have "(\<lambda>(now, tnow, commitment) dg. key_commit sha now tnow rid client commitment k dg) (now, tnow, commitment) dg s
        = (Inr x, s1)" using run Inr by simp
    from commitment.repeated(1) [OF this assms(3), of "(now', tnow', commitment')"]
    show ?thesis by (simp add: key_complete_def call_def)
  qed
qed

text \<open>A second receipt for the final key under another idempotency key runs into the primary key of the table.\<close>

lemma second_final_receipt_raises:
  assumes "prior_response client rid ''final_key_ack'' k s = None"
    and "round_of rid s = Some r" "status r = KEY_AGGREGATION" "final_of rid s = Some key" "fk_digest key = ad"
    and "f \<in> set (final_key_receipts s)" "fr_round f = rid" "fr_client f = client"
  shows "acknowledge_final_key now tnow rid client ad k dg s = (Inl IntegrityError, s)"
proof -
  have "insert_final_receipt \<lparr>fr_round = rid, fr_client = client, fr_digest = ad, fr_created = now\<rparr> s = Inl IntegrityError"
    using assms(6-8) by (auto simp: insert_final_receipt_def checked_def list_ex_iff)
  with assms(1-5) show ?thesis
    by (simp add: acknowledge_final_key_def transaction_def idempotent_def exec_def)
qed

text \<open>Intervals that are not numbers pass the check that the numeric settings are positive.\<close>

lemma nan_intervals_accepted:
  assumes "0 < s_max_artifact_bytes s" "0 < s_round_ttl_seconds s" "0 < s_retention_seconds s" "s_max_participants s = None"
    and "worker_poll_seconds s = NaN" "worker_lease_seconds s = NaN" "maintenance_interval_seconds s = NaN"
  shows "checked_settings s = Inr s"
  using assms by (simp add: checked_settings_def py_min_def)

text \<open>A token with a character outside ASCII makes the comparison raise instead of being refused.\<close>

lemma foreign_operator_token_raises:
  assumes "bearer h = Inr token" "\<not> ascii token"
  shows "as_operator env (req\<lparr>authorization := h\<rparr>) m w = (Inl TypeError, w)"
  using assms by (simp add: as_operator_def operator_identity_def compare_digest_def call_def look_def)

text \<open>Tags need not be lower-case, and white space may follow them.\<close>

lemma tag_with_space_accepted: "tag_acceptable ''0000000000000000000000000000000F ''"
  by code_simp

text \<open>
  A commitment that is repeated under another idempotency key, while updates are collected, takes a participant
  who has submitted an update back to \<open>READY_FOR_UPDATE\<close>.
\<close>

lemma repeated_commitment_regresses: "p_state (commit_context now commitment p) = READY_FOR_UPDATE"
  by (simp add: commit_context_def)

end
