(* ===== verification/Spec2Isabelle.thy ===== *)
theory Spec2Isabelle
  imports Topology_Properties Database_Properties Server_Properties Deviations
begin

text \<open>
  A verification of the key-aggregation server of deki-smpc, \<open>src/key-aggregation-server/app/\<close>: the server of
  a secure aggregation protocol in which the participants of a round set up keys, sum their encryption keys along
  a tree (protocol 1.1), upload masked model updates, and receive the sum that a worker computes.

  \<^bold>\<open>The program.\<close> A FastAPI application (\<open>main.py\<close>, \<open>api/v1.py\<close>) authenticates callers, checks bodies against
  \<open>domain/models.py\<close>, streams files into \<open>storage/filesystem.py\<close> and calls the methods of \<open>Database\<close> in
  \<open>persistence/database.py\<close>, which keep rounds, participants, artifacts, key tasks, jobs and recorded answers in
  SQLite tables. A round moves through the states of \<open>domain/states.py\<close>; its key tasks come from
  \<open>domain/topology.py\<close>. \<open>worker/aggregation.py\<close> claims jobs with leases, sums the updates, publishes results,
  expires overdue rounds and purges old ones. \<open>config.py\<close> reads the settings.

  \<^bold>\<open>The model.\<close> Code that reads and writes a store is a function from the store to an exception or a value and
  the store afterwards (\<open>('s, 'a) tx\<close> in \<open>Prelude\<close>, with \<open>ret\<close>, \<open>throw\<close>, \<open>read\<close>, \<open>exec\<close>, \<open>call\<close> and
  \<open>rescue\<close>), so every raise and early return of the source is a branch. The database \<open>db\<close> is a record of tables,
  the tables lists of row records; a statement fails with \<open>IntegrityError\<close> when it breaks a primary key, a UNIQUE
  column or a foreign key, and \<open>transaction\<close> undoes what a raising body did. The world of the server is the
  database with the files, a map from paths to contents. Clock readings, fresh identifiers and tokens are arguments.
  Tensor elements are 64-bit words, tags, sizes and counters numbers with their bounds written out.

  \<^item> \<open>Prelude\<close>, \<open>Json\<close>, \<open>Base64\<close>, \<open>Hex_Text\<close>: store passing, canonical JSON, and the text formats of Python's
    library that the code reads and writes.
  \<^item> \<open>Round_States\<close>, \<open>Topology\<close>, \<open>Models\<close>: the domain. \<open>Topology_Facts\<close> has the lemmas of the tree plan,
    \<open>Topology_Properties\<close> its properties.
  \<^item> \<open>Tables\<close>, \<open>Round_Store\<close>, \<open>Key_Setup\<close>, \<open>Key_Tasks\<close>, \<open>Update_Jobs\<close>: the tables and the methods of \<open>Database\<close>,
    each by its name in the source. \<open>Method_Facts\<close> gives every method its functional behaviour, as an elimination
    rule with one case for each way to succeed; \<open>Purge\<close> does so for the purge.
  \<^item> \<open>Job_Machine\<close>, \<open>Contracts\<close>: the abstract machine of a job, and the contracts over the methods.
    \<open>effect_contract\<close> lifts a reflexive and transitive effect through store-passing code, \<open>ledger_contract\<close> extends
    it by the statements of the methods that neither store an artifact nor update a job and derives the effect of each
    of them; \<open>working_contract\<close> adds the methods that update jobs, \<open>storing_contract\<close> those that store artifacts, and
    \<open>statement_contract\<close> is both. \<open>Integrity\<close>, \<open>Jobs\<close>, \<open>Members\<close> and \<open>Quiet\<close> interpret them: keys, references,
    progress of rounds, append-only history, isolation of rounds, the law of jobs, the members, and the calls that
    leave the artifacts alone. What a round has in the database is \<open>same_round\<close>: its rows in every table, jobs
    included, and the recorded answers about it; \<open>System\<close> shows that a call on another round, its purge
    included, leaves all of it alone.
  \<^item> \<open>Barriers\<close>, \<open>Task_Graph\<close>, \<open>Task_Methods\<close>, \<open>Task_Liveness\<close>, \<open>Artifact_Links\<close>, \<open>System\<close>: the invariants of the
    database, and the reachable databases: any sequence of calls, in any order and interleaving, from any clients.
    \<open>Database_Properties\<close> has the properties; \<open>Sample_Run\<close> plays two rounds at which they are checked.
  \<^item> \<open>Files\<close>, \<open>World\<close>, \<open>Worker\<close>, \<open>Requests\<close>, \<open>Api\<close>, \<open>Config\<close>: the artifact store, the worker, the checks and
    handlers of the API (\<open>serve\<close> resolves their dependencies as the framework does) and the settings.
  \<^item> \<open>Worker_Facts\<close>, \<open>Calm\<close>, \<open>Stored_World\<close>, \<open>Uploads\<close>, \<open>Results\<close>, \<open>Upkeep\<close>, \<open>Maintenance\<close>, \<open>Server\<close>, \<open>Publication\<close>:
    what the worker computes, and the composition. A calm step leaves files and artifact rows alone, a deposit adds
    one file with its row; every handler and every worker run is one of the two, so a sound world stays sound.
    \<open>operated\<close> are the worlds that starts, requests, worker runs and maintenance lead to, in any order.
  \<^item> \<open>Replays\<close>, \<open>Access\<close>: idempotency keys, as the contract \<open>keyed_method\<close> with an interpretation for every
    recording method but \<open>complete_participant\<close>, which looks at the round first; and authentication.
  \<^item> \<open>Sample_World\<close>, \<open>Server_Properties\<close>, \<open>Deviations\<close>: a world at which the properties of the server are checked,
    these properties, and the behaviour that differs from the documents or the code's own error answers.

  \<^bold>\<open>Abstract specifications.\<close> The transition table refined by every call (\<open>rounds_progress\<close>), the job machine
  (\<open>job_step\<close>), the set of barriers that a state implies (\<open>barriers\<close>), the task graph of the plan (\<open>task_graph\<close>),
  sound worlds (\<open>sound\<close>), and for the loops their reference: concatenation, a plain digest, elementwise sums.

  \<^bold>\<open>Bounds.\<close> All functions are total: the loops recurse over lists, over a text or a file that shrinks, or over the
  32-bit counter of \<open>draw\<close>, whose overflow raises as in the code; \<open>build_levels\<close> halves its list. The start of the
  server tries twenty times, as the code does. A life of a round has at most eight states and a job three attempts.

  \<^bold>\<open>Parameters.\<close> SHA-256, Ed25519, \<open>json.loads\<close>, the safetensors reader and writer, the texts of foreign exceptions
  and float parsing are arguments. What is assumed of them is stated where it is used: both readers agree and name
  each tensor once (\<open>same_reader\<close>), a tensor is filled (\<open>filled\<close>), the file of the tensors that a schema asks for
  (\<open>shaped_tensors\<close>) is within the limit, \<open>json.loads\<close> gives back the value of a canonical text (\<open>python_value\<close>).
  Signed and hashed bytes are told apart when no text field holds a NUL (\<open>nul_free\<close>).
  Identifiers of new files are fresh, as those of \<open>uuid4\<close> are (\<open>fresh\<close>).

  \<^bold>\<open>Not modelled.\<close> SQLite itself, its locking and its pragmas: transactions do not interleave. The handlers and
  the worker are uninterleaved steps of \<open>operated\<close>, while the properties of reachable databases hold for any
  interleaving of the calls they make. Creating tables and adding columns to those of older builds; I/O errors of
  the system, \<open>fsync\<close> and crashes between a file and its row; routing, response headers and file transfer of the
  framework; signals and sleeping of the worker; the health answers; tests and the end-to-end harness.
\<close>

text \<open>C35. Every life of a round is finite and short: following the transition table from any
  state, a round passes through at most eight states, and only its last one can be terminal.\<close>

theorem round_lifecycle_bounded:
  assumes "lifecycle ss"
  shows "length ss \<le> 8 \<and> (\<forall>i. Suc i < length ss \<longrightarrow> ss ! i \<notin> TERMINAL_STATES)"
proof
  show "length ss \<le> 8"
    using assms lifecycle_rank by (cases ss) fastforce+
  show "\<forall>i. Suc i < length ss \<longrightarrow> ss ! i \<notin> TERMINAL_STATES"
    using assms
  proof (induction ss rule: lifecycle.induct)
    case (3 s t ss)
    show ?case
    proof (intro allI impI)
      fix i assume "Suc i < length (s # t # ss)"
      then show "(s # t # ss) ! i \<notin> TERMINAL_STATES"
        using 3 by (cases i) (auto dest: allowed_source_active)
    qed
  qed auto
qed

theorem round_lifecycle_bounded_witness:
  "length [CREATED, REGISTRATION_OPEN, KEY_SETUP, KEY_AGGREGATION, UPDATE_COLLECTION,
     AGGREGATING, RESULT_READY, COMPLETED] \<le> 8"
proof -
  have "lifecycle [CREATED, REGISTRATION_OPEN, KEY_SETUP, KEY_AGGREGATION, UPDATE_COLLECTION,
     AGGREGATING, RESULT_READY, COMPLETED]"
    by (simp add: transition_allowed_def)
  from round_lifecycle_bounded [OF this] show ?thesis by (rule conjunct1)
qed

end
